theory Spec2Isabelle
  imports Main
begin

section \<open>Values, strings and errors of the client\<close>

text \<open>
  The client (\<^verbatim>\<open>src/scripts/mcp-client.ts\<close>) handles every payload as \<^verbatim>\<open>any\<close>: what it
  sends to a tool and what a tool returns are JSON values. They are modelled as the
  datatype \<open>jv\<close>. An object is an association list; a property whose value is
  \<^verbatim>\<open>undefined\<close> is absent from the list, as it is after JSON serialisation. Numbers
  are integers (no claim computes with a fraction). The result of reading a property is a
  \<open>jv option\<close>, \<open>None\<close> standing for \<^verbatim>\<open>undefined\<close>.
\<close>

datatype jv =
    JNull
  | JBool bool
  | JNum int
  | JStr string
  | JArr "jv list"
  | JObj "(string \<times> jv) list"

text \<open>
  A JavaScript \<^verbatim>\<open>throw new Error(msg)\<close> is \<open>Error msg\<close>; the runtime's own
  \<^verbatim>\<open>TypeError\<close> (a property of \<^verbatim>\<open>null\<close> or \<^verbatim>\<open>undefined\<close> is read, a value that is
  not iterable is iterated, a method that does not exist is called) is \<open>TypeError\<close>.
\<close>

datatype error = Error string | TypeError

text \<open>JavaScript truthiness, of a value and of a possibly undefined value.\<close>

fun truthy :: "jv \<Rightarrow> bool" where
  "truthy JNull = False"
| "truthy (JBool b) = b"
| "truthy (JNum n) = (n \<noteq> 0)"
| "truthy (JStr s) = (s \<noteq> [])"
| "truthy (JArr xs) = True"
| "truthy (JObj kvs) = True"

fun truthy_opt :: "jv option \<Rightarrow> bool" where
  "truthy_opt None = False"
| "truthy_opt (Some v) = truthy v"

fun truthy_str :: "string option \<Rightarrow> bool" where
  "truthy_str None = False"
| "truthy_str (Some s) = (s \<noteq> [])"

text \<open>
  \<open>getp k v\<close> is the read \<^verbatim>\<open>v.k\<close> of a named field on a value that is neither
  \<^verbatim>\<open>null\<close> nor \<^verbatim>\<open>undefined\<close>: an object gives its field, every other value gives
  \<^verbatim>\<open>undefined\<close> (the fields the client reads are never built-in properties of strings or
  arrays). \<open>member\<close> is the plain read \<^verbatim>\<open>x.k\<close>, which throws on \<^verbatim>\<open>null\<close> and
  \<^verbatim>\<open>undefined\<close>; \<open>opt_member\<close> is the optional chain \<^verbatim>\<open>x?.k\<close>. \<open>literal\<close> builds an
  object literal, leaving the undefined properties out.
\<close>

fun getp :: "string \<Rightarrow> jv \<Rightarrow> jv option" where
  "getp k (JObj kvs) = map_of kvs k"
| "getp k v = None"

fun member :: "string \<Rightarrow> jv option \<Rightarrow> error + jv option" where
  "member k None = Inl TypeError"
| "member k (Some JNull) = Inl TypeError"
| "member k (Some v) = Inr (getp k v)"

fun opt_member :: "string \<Rightarrow> jv option \<Rightarrow> jv option" where
  "opt_member k None = None"
| "opt_member k (Some JNull) = None"
| "opt_member k (Some v) = getp k v"

fun literal :: "(string \<times> jv option) list \<Rightarrow> (string \<times> jv) list" where
  "literal [] = []"
| "literal ((k, None) # kvs) = literal kvs"
| "literal ((k, Some v) # kvs) = (k, v) # literal kvs"

text \<open>
  A \<open>string\<close> stands for a JavaScript string. The client itself only compares strings,
  concatenates them and tests them for emptiness. What \<^verbatim>\<open>String.prototype.trim\<close> and
  \<^verbatim>\<open>toUpperCase\<close> return depends on the Unicode tables of the engine that runs the
  client (the white space characters, the case mappings, some of which lengthen the
  string); the two built-ins are parameters of the model, next to \<^verbatim>\<open>JSON.parse\<close>.
\<close>

section \<open>The state of the process and its external collaborators\<close>

text \<open>
  Modelled from the spec: the entries of the class \<^verbatim>\<open>PluginCache\<close>, which the client
  imports from the package \<^verbatim>\<open>@local/plugin-cache\<close> and which is not among the sources.
  An entry is a value with its expiry time, in seconds.
\<close>

record cache_entry =
  cvalue :: jv
  expiresAt :: int

text \<open>
  Modelled from the spec: the store of the missing \<^verbatim>\<open>PluginCache\<close>, with at most one
  entry per key, the two counters and the global switch.
\<close>

record cache =
  entries :: "(string \<times> cache_entry) list"
  hits :: nat
  misses :: nat
  enabled :: bool

text \<open>
  One record holds everything the code mutates: the two private fields of
  \<^verbatim>\<open>InFlowMCPClient\<close> that matter (\<^verbatim>\<open>connected\<close>, \<^verbatim>\<open>cacheDisabled\<close>), the
  module-level \<^verbatim>\<open>cache\<close>, the wall clock in seconds, and the log of the requests sent
  through the MCP transport (tool name and arguments, oldest first).
\<close>

record state =
  connected :: bool
  cacheDisabled :: bool
  cache :: cache
  clock :: int
  calls :: "(string \<times> (string \<times> jv) list) list"

text \<open>
  The MCP SDK's answer to \<^verbatim>\<open>client.callTool\<close>: a flag and a list of content items, each
  with a type and an optional text.
\<close>

record content_item =
  c_type :: string
  c_text :: "string option"

record tool_result =
  isError :: bool
  content :: "content_item list"

text \<open>
  What the transport does with one request: it rejects or delivers a result, after some
  seconds.
\<close>

record reply =
  outcome :: "error + tool_result"
  elapsed :: nat

text \<open>
  The collaborators that are outside the repository are parameters: the environment
  variables after merging \<^verbatim>\<open>process.env\<close> with the configured ones, the outcome of the SDK's
  \<^verbatim>\<open>connect\<close>, the remote service behind \<^verbatim>\<open>client.callTool\<close> (its reply may depend on
  the requests served so far), the built-ins \<^verbatim>\<open>JSON.parse\<close> (\<open>None\<close> when it throws),
  \<^verbatim>\<open>parseFloat\<close>, \<^verbatim>\<open>String.prototype.trim\<close> and \<^verbatim>\<open>String.prototype.toUpperCase\<close>,
  and the key builder \<^verbatim>\<open>createCacheKey\<close> of the cache package,
  a function of the operation name and of the parameters, some of which may be undefined.
\<close>

record deps =
  INFLOW_API_KEY :: "string option"
  INFLOW_COMPANY_ID :: "string option"
  sdk_connect :: "error option"
  sdk_callTool :: "(string \<times> (string \<times> jv) list) list \<Rightarrow> string \<Rightarrow> (string \<times> jv) list \<Rightarrow> reply"
  JSON_parse :: "string \<Rightarrow> jv option"
  parseFloat :: "jv \<Rightarrow> jv"
  trim :: "string \<Rightarrow> string"
  toUpperCase :: "string \<Rightarrow> string"
  createCacheKey :: "string \<Rightarrow> (string \<times> jv option) list \<Rightarrow> string"

section \<open>The remote operation gateway\<close>

text \<open>\<^verbatim>\<open>connect\<close> (lines 99 to 134): a no-op once connected, else the two checks of the
  environment and the SDK's connect.\<close>

definition connect :: "deps \<Rightarrow> state \<Rightarrow> (error + unit) \<times> state" where
  "connect D st =
     (if connected st then (Inr (), st)
      else if \<not> truthy_str (INFLOW_API_KEY D) then
        (Inl (Error (''INFLOW_API_KEY environment variable is not set. '' @
                     ''Please export it in your shell or add it to ~/.bashrc'')), st)
      else if \<not> truthy_str (INFLOW_COMPANY_ID D) then
        (Inl (Error (''INFLOW_COMPANY_ID environment variable is not set. '' @
                     ''Please export it in your shell or add it to ~/.bashrc'')), st)
      else (case sdk_connect D of
              Some e \<Rightarrow> (Inl e, st)
            | None \<Rightarrow> (Inr (), st\<lparr>connected := True\<rparr>)))"

text \<open>The content array as the JSON value that \<^verbatim>\<open>callTool\<close> returns when there is no
  text to parse.\<close>

definition item_json :: "content_item \<Rightarrow> jv" where
  "item_json c =
     JObj (literal [(''type'', Some (JStr (c_type c))), (''text'', map_option JStr (c_text c))])"

text \<open>
  \<^verbatim>\<open>callTool\<close> (lines 163 to 184). \<open>text_of c\<close> is \<^verbatim>\<open>c?.text\<close> for the item that
  \<^verbatim>\<open>find\<close> returned, and \<open>str_or a d\<close> is \<^verbatim>\<open>a || d\<close> on an optional string.
\<close>

fun text_of :: "content_item option \<Rightarrow> string option" where
  "text_of None = None"
| "text_of (Some c) = c_text c"

fun str_or :: "string option \<Rightarrow> string \<Rightarrow> string" where
  "str_or None d = d"
| "str_or (Some s) d = (if s = [] then d else s)"

definition callTool :: "deps \<Rightarrow> string \<Rightarrow> (string \<times> jv) list \<Rightarrow> state \<Rightarrow> (error + jv) \<times> state" where
  "callTool D name args st =
     (case connect D st of
        (Inl e, st1) \<Rightarrow> (Inl e, st1)
      | (Inr u, st1) \<Rightarrow>
          (let rep = sdk_callTool D (calls st1) name args;
               st2 = st1\<lparr>calls := calls st1 @ [(name, args)],
                         clock := clock st1 + int (elapsed rep)\<rparr>
           in case outcome rep of
                Inl e \<Rightarrow> (Inl e, st2)
              | Inr result \<Rightarrow>
                  (if isError result then
                     (Inl (Error (str_or (text_of (find (\<lambda>c. c_type c = ''text'') (content result)))
                                         ''Tool call failed'')), st2)
                   else
                     (case text_of (find (\<lambda>c. c_type c = ''text'') (content result)) of
                        None \<Rightarrow> (Inr (JArr (map item_json (content result))), st2)
                      | Some t \<Rightarrow>
                          (if t = [] then (Inr (JArr (map item_json (content result))), st2)
                           else (case JSON_parse D t of
                                   Some j \<Rightarrow> (Inr j, st2)
                                 | None \<Rightarrow> (Inr (JStr t), st2)))))))"

section \<open>The cache store\<close>

text \<open>
  Modelled from the spec: the short time-to-live tier of the missing \<^verbatim>\<open>TTL\<close> object,
  in seconds (section 6 of the specification).
\<close>

definition FIVE_MINUTES :: int where "FIVE_MINUTES = 300"

text \<open>Modelled from the spec: the medium tier of the missing \<^verbatim>\<open>TTL\<close> object.\<close>

definition FIFTEEN_MINUTES :: int where "FIFTEEN_MINUTES = 900"

text \<open>Modelled from the spec: the long tier of the missing \<^verbatim>\<open>TTL\<close> object.\<close>

definition HOUR :: int where "HOUR = 3600"

text \<open>
  Modelled from the spec: removal of the entry of a key from the store of the missing
  \<^verbatim>\<open>PluginCache\<close> (section 4.1; deletion on eviction and on invalidation).
\<close>

definition remove_key :: "string \<Rightarrow> (string \<times> cache_entry) list \<Rightarrow> (string \<times> cache_entry) list" where
  "remove_key k es = filter (\<lambda>p. fst p \<noteq> k) es"

text \<open>
  Modelled from the spec: population of the store of the missing \<^verbatim>\<open>PluginCache\<close>; an
  entry is created, or overwritten on refresh, so that there is at most one per key.
\<close>

definition store :: "string \<Rightarrow> cache_entry \<Rightarrow> (string \<times> cache_entry) list \<Rightarrow> (string \<times> cache_entry) list" where
  "store k e es = remove_key k es @ [(k, e)]"

text \<open>
  Modelled from the spec: \<^verbatim>\<open>invalidatePattern(regex)\<close> of the missing
  \<^verbatim>\<open>PluginCache\<close> removes every entry whose key matches and returns their number (the
  regular expression is the predicate it denotes on keys).
\<close>

definition invalidatePattern :: "(string \<Rightarrow> bool) \<Rightarrow> cache \<Rightarrow> nat \<times> cache" where
  "invalidatePattern re c =
     (length (filter (\<lambda>p. re (fst p)) (entries c)),
      c\<lparr>entries := filter (\<lambda>p. \<not> re (fst p)) (entries c)\<rparr>)"

text \<open>Modelled from the spec: \<^verbatim>\<open>enable()\<close> of the missing \<^verbatim>\<open>PluginCache\<close>.\<close>

definition enable :: "cache \<Rightarrow> cache" where
  "enable c = c\<lparr>enabled := True\<rparr>"

text \<open>Modelled from the spec: \<^verbatim>\<open>disable()\<close> of the missing \<^verbatim>\<open>PluginCache\<close>.\<close>

definition disable :: "cache \<Rightarrow> cache" where
  "disable c = c\<lparr>enabled := False\<rparr>"

text \<open>
  Modelled from the spec: the miss path of the missing \<^verbatim>\<open>getOrFetch\<close>. The producer
  runs; its result is stored with expiry \<open>now + ttl\<close>, the time being read when the
  producer has returned; an error of the producer propagates and nothing is stored. A
  producer is an asynchronous function of the client: it changes the state and returns or
  throws, or never returns (\<open>None\<close>).
\<close>

definition fetch_and_store ::
  "string \<Rightarrow> (state \<Rightarrow> ((error + jv) \<times> state) option) \<Rightarrow> int \<Rightarrow> state \<Rightarrow> ((error + jv) \<times> state) option" where
  "fetch_and_store key producer ttl st =
     (case producer st of
        None \<Rightarrow> None
      | Some (Inl e, st1) \<Rightarrow> Some (Inl e, st1)
      | Some (Inr v, st1) \<Rightarrow>
          Some (Inr v, st1\<lparr>cache := (cache st1)\<lparr>entries :=
                  store key \<lparr>cvalue = v, expiresAt = clock st1 + ttl\<rparr> (entries (cache st1))\<rparr>\<rparr>))"

text \<open>Modelled from the spec: the hit counter of the missing \<^verbatim>\<open>PluginCache\<close> is
  incremented.\<close>

definition count_hit :: "state \<Rightarrow> state" where
  "count_hit st = st\<lparr>cache := (cache st)\<lparr>hits := Suc (hits (cache st))\<rparr>\<rparr>"

text \<open>Modelled from the spec: the miss counter of the missing \<^verbatim>\<open>PluginCache\<close> is
  incremented, and the entry that the expiry check found stale is evicted.\<close>

definition count_miss :: "string \<Rightarrow> state \<Rightarrow> state" where
  "count_miss key st =
     st\<lparr>cache := (cache st)\<lparr>entries := remove_key key (entries (cache st)),
                              misses := Suc (misses (cache st))\<rparr>\<rparr>"

text \<open>
  Modelled from the spec: \<^verbatim>\<open>getOrFetch(key, producer, {ttl, bypassCache})\<close> of the
  missing \<^verbatim>\<open>PluginCache\<close>. With caching enabled and no bypass, an entry that is present
  and unexpired (\<open>now < expiresAt\<close>) is a hit: the hit counter is incremented and the
  stored value returned, the producer is not run. Otherwise it is a miss: the miss counter
  is incremented, the producer runs and its result is stored. With caching disabled or
  with the bypass, only the producer runs, and the store is neither read nor written.
\<close>

definition getOrFetch ::
  "string \<Rightarrow> (state \<Rightarrow> ((error + jv) \<times> state) option) \<Rightarrow> int \<Rightarrow> bool \<Rightarrow> state
     \<Rightarrow> ((error + jv) \<times> state) option" where
  "getOrFetch key producer ttl bypassCache st =
     (if enabled (cache st) \<and> \<not> bypassCache then
        (case map_of (entries (cache st)) key of
           Some e \<Rightarrow>
             (if clock st < expiresAt e then Some (Inr (cvalue e), count_hit st)
              else fetch_and_store key producer ttl (count_miss key st))
         | None \<Rightarrow> fetch_and_store key producer ttl (count_miss key st))
      else producer st)"

text \<open>The regular expressions of the client are all of the form \<^verbatim>\<open>/^literal/\<close>.\<close>

definition starts_with :: "string \<Rightarrow> string \<Rightarrow> bool" where
  "starts_with p k = (take (length p) k = p)"

text \<open>\<^verbatim>\<open>cache.invalidatePattern(re)\<close> as a statement of the client: the count is dropped.\<close>

definition purge :: "(string \<Rightarrow> bool) \<Rightarrow> state \<Rightarrow> state" where
  "purge re st = st\<lparr>cache := snd (invalidatePattern re (cache st))\<rparr>"

section \<open>Cache control and cached accessors of the client\<close>

text \<open>\<^verbatim>\<open>disableCache\<close> and \<^verbatim>\<open>enableCache\<close> (lines 54 to 65).\<close>

definition disableCache :: "state \<Rightarrow> state" where
  "disableCache st = st\<lparr>cacheDisabled := True, cache := disable (cache st)\<rparr>"

definition enableCache :: "state \<Rightarrow> state" where
  "enableCache st = st\<lparr>cacheDisabled := False, cache := enable (cache st)\<rparr>"

text \<open>\<^verbatim>\<open>Array.prototype.join\<close> on an array of strings.\<close>

fun join :: "string \<Rightarrow> string list \<Rightarrow> string" where
  "join sep [] = []"
| "join sep [x] = x"
| "join sep (x # y # ys) = x @ sep @ join sep (y # ys)"

text \<open>An asynchronous function that always returns or throws, as a producer.\<close>

definition returns :: "(state \<Rightarrow> (error + jv) \<times> state) \<Rightarrow> state \<Rightarrow> ((error + jv) \<times> state) option" where
  "returns f st = Some (f st)"

text \<open>\<^verbatim>\<open>getProduct\<close> (lines 249 to 264).\<close>

definition getProduct :: "deps \<Rightarrow> string \<Rightarrow> string list option \<Rightarrow> state \<Rightarrow> ((error + jv) \<times> state) option" where
  "getProduct D productId include st =
     (let cacheKey = createCacheKey D ''product''
            [(''id'', Some (JStr productId)),
             (''include'', map_option (\<lambda>i. JStr (join '','' i)) include)]
      in getOrFetch cacheKey
           (returns (callTool D ''get_product''
              (literal [(''productId'', Some (JStr productId)),
                        (''include'', map_option (\<lambda>i. JArr (map JStr i)) include)])))
           FIFTEEN_MINUTES (cacheDisabled st) st)"

text \<open>\<^verbatim>\<open>getStockLevels\<close> (lines 365 to 377); the parameter is optional.\<close>

definition getStockLevels :: "deps \<Rightarrow> string option \<Rightarrow> state \<Rightarrow> ((error + jv) \<times> state) option" where
  "getStockLevels D productId st =
     (if \<not> truthy_str productId then
        Some (Inl (Error (''productId is required for get_inventory_summary. '' @
                          ''Use list-products first to get product IDs.'')), st)
      else
        (let cacheKey = createCacheKey D ''stock'' [(''productId'', map_option JStr productId)]
         in getOrFetch cacheKey
              (returns (callTool D ''get_inventory_summary''
                 (literal [(''productId'', map_option JStr productId)])))
              FIVE_MINUTES (cacheDisabled st) st))"

text \<open>\<^verbatim>\<open>getSalesOrder\<close> (lines 743 to 758) and \<^verbatim>\<open>getPurchaseOrder\<close> (lines 831 to 846).\<close>

definition getSalesOrder :: "deps \<Rightarrow> string \<Rightarrow> string list option \<Rightarrow> state \<Rightarrow> ((error + jv) \<times> state) option" where
  "getSalesOrder D orderId include st =
     (let cacheKey = createCacheKey D ''sales_order''
            [(''id'', Some (JStr orderId)),
             (''include'', map_option (\<lambda>i. JStr (join '','' i)) include)]
      in getOrFetch cacheKey
           (returns (callTool D ''get_sales_order''
              (literal [(''salesOrderId'', Some (JStr orderId)),
                        (''include'', map_option (\<lambda>i. JArr (map JStr i)) include)])))
           FIVE_MINUTES (cacheDisabled st) st)"

definition getPurchaseOrder :: "deps \<Rightarrow> string \<Rightarrow> string list option \<Rightarrow> state \<Rightarrow> ((error + jv) \<times> state) option" where
  "getPurchaseOrder D orderId include st =
     (let cacheKey = createCacheKey D ''purchase_order''
            [(''id'', Some (JStr orderId)),
             (''include'', map_option (\<lambda>i. JStr (join '','' i)) include)]
      in getOrFetch cacheKey
           (returns (callTool D ''get_purchase_order''
              (literal [(''purchaseOrderId'', Some (JStr orderId)),
                        (''include'', map_option (\<lambda>i. JArr (map JStr i)) include)])))
           FIVE_MINUTES (cacheDisabled st) st)"

section \<open>Write operations of the client\<close>

text \<open>
  Each write awaits \<^verbatim>\<open>callTool\<close> and then purges; a rejection of the awaited call leaves
  the function at that point. \<^verbatim>\<open>createStockAdjustment\<close> (lines 441 to 458),
  \<^verbatim>\<open>createStockTransfer\<close> (567 to 584), \<^verbatim>\<open>createStockCount\<close> (654 to 663),
  \<^verbatim>\<open>upsertProduct\<close> (1395 to 1420), \<^verbatim>\<open>upsertVendor\<close> (1469 to 1499),
  \<^verbatim>\<open>upsertPurchaseOrder\<close> (1533 to 1568), \<^verbatim>\<open>receivePurchaseOrder\<close> (1584 to 1600),
  \<^verbatim>\<open>unreceivePurchaseOrder\<close> (1622 to 1636).
\<close>

definition createStockAdjustment :: "deps \<Rightarrow> (string \<times> jv) list \<Rightarrow> state \<Rightarrow> (error + jv) \<times> state" where
  "createStockAdjustment D data st =
     (case callTool D ''upsert_stock_adjustment'' data st of
        (Inl e, st1) \<Rightarrow> (Inl e, st1)
      | (Inr result, st1) \<Rightarrow> (Inr result, purge (starts_with ''stock'') st1))"

definition createStockTransfer :: "deps \<Rightarrow> (string \<times> jv) list \<Rightarrow> state \<Rightarrow> (error + jv) \<times> state" where
  "createStockTransfer D data st =
     (case callTool D ''upsert_stock_transfer'' data st of
        (Inl e, st1) \<Rightarrow> (Inl e, st1)
      | (Inr result, st1) \<Rightarrow> (Inr result, purge (starts_with ''stock'') st1))"

definition createStockCount :: "deps \<Rightarrow> (string \<times> jv) list \<Rightarrow> state \<Rightarrow> (error + jv) \<times> state" where
  "createStockCount D data st =
     (case callTool D ''upsert_stock_count'' data st of
        (Inl e, st1) \<Rightarrow> (Inl e, st1)
      | (Inr result, st1) \<Rightarrow> (Inr result, purge (starts_with ''stock'') st1))"

definition upsertProduct :: "deps \<Rightarrow> (string \<times> jv) list \<Rightarrow> state \<Rightarrow> (error + jv) \<times> state" where
  "upsertProduct D data st =
     (case callTool D ''upsert_product'' data st of
        (Inl e, st1) \<Rightarrow> (Inl e, st1)
      | (Inr result, st1) \<Rightarrow>
          (Inr result,
           purge (starts_with ''bom'')
            (purge (starts_with ''product_bom'')
              (purge (starts_with ''products_search'')
                (purge (starts_with ''product:'')
                  (purge (starts_with ''products'') st1))))))"

definition upsertVendor :: "deps \<Rightarrow> (string \<times> jv) list \<Rightarrow> state \<Rightarrow> (error + jv) \<times> state" where
  "upsertVendor D data st =
     (case callTool D ''upsert_vendor'' data st of
        (Inl e, st1) \<Rightarrow> (Inl e, st1)
      | (Inr result, st1) \<Rightarrow> (Inr result, purge (starts_with ''vendors'') st1))"

definition upsertPurchaseOrder :: "deps \<Rightarrow> (string \<times> jv) list \<Rightarrow> state \<Rightarrow> (error + jv) \<times> state" where
  "upsertPurchaseOrder D data st =
     (case callTool D ''upsert_purchase_order'' data st of
        (Inl e, st1) \<Rightarrow> (Inl e, st1)
      | (Inr result, st1) \<Rightarrow>
          (Inr result,
           purge (starts_with ''purchase_order:'')
            (purge (starts_with ''purchase_orders'') st1)))"

definition receivePurchaseOrder :: "deps \<Rightarrow> (string \<times> jv) list \<Rightarrow> state \<Rightarrow> (error + jv) \<times> state" where
  "receivePurchaseOrder D data st =
     (case callTool D ''receive_purchase_order'' data st of
        (Inl e, st1) \<Rightarrow> (Inl e, st1)
      | (Inr result, st1) \<Rightarrow>
          (Inr result,
           purge (starts_with ''stock'')
            (purge (starts_with ''purchase_order:'')
              (purge (starts_with ''purchase_orders'') st1))))"

definition unreceivePurchaseOrder :: "deps \<Rightarrow> (string \<times> jv) list \<Rightarrow> state \<Rightarrow> (error + jv) \<times> state" where
  "unreceivePurchaseOrder D data st =
     (case callTool D ''unreceive_purchase_order'' data st of
        (Inl e, st1) \<Rightarrow> (Inl e, st1)
      | (Inr result, st1) \<Rightarrow>
          (if \<not> truthy_opt (map_of data ''dryRun'') then
             (Inr result,
              purge (starts_with ''stock'')
               (purge (starts_with ''purchase_order:'')
                 (purge (starts_with ''purchase_orders'') st1)))
           else (Inr result, st1)))"

section \<open>Read-modify-write flows of the command line\<close>

text \<open>
  \<open>or_else a b\<close> is \<^verbatim>\<open>a || b\<close> where \<open>b\<close> may be undefined, \<open>or_default a d\<close> the same
  with a defined right-hand side. \<open>iter_lines x\<close> is the sequence that
  \<^verbatim>\<open>for (const line of x || [])\<close> and the spread \<^verbatim>\<open>[...(x || [])]\<close> run through: the
  elements of an array, the characters of a string, and a \<^verbatim>\<open>TypeError\<close> for any other
  truthy value.
\<close>

fun or_else :: "jv option \<Rightarrow> jv option \<Rightarrow> jv option" where
  "or_else None b = b"
| "or_else (Some v) b = (if truthy v then Some v else b)"

fun or_default :: "jv option \<Rightarrow> jv \<Rightarrow> jv" where
  "or_default None d = d"
| "or_default (Some v) d = (if truthy v then v else d)"

fun iter_lines :: "jv option \<Rightarrow> error + jv list" where
  "iter_lines None = Inr []"
| "iter_lines (Some (JArr xs)) = Inr xs"
| "iter_lines (Some (JStr s)) = Inr (map (\<lambda>c. JStr [c]) s)"
| "iter_lines (Some v) = (if truthy v then Inl TypeError else Inr [])"

text \<open>
  \<^verbatim>\<open>update-product\<close> (\<^verbatim>\<open>src/scripts/cli.ts\<close>, lines 323 to 350). The handler has no
  \<^verbatim>\<open>try\<close>: when the awaited \<^verbatim>\<open>getProduct\<close> rejects, the handler is left at that
  point. Reading \<^verbatim>\<open>current.timestamp\<close> throws when the product is \<^verbatim>\<open>null\<close>.
\<close>

definition update_product ::
  "deps \<Rightarrow> string \<Rightarrow> string option \<Rightarrow> string option \<Rightarrow> string option \<Rightarrow> int option \<Rightarrow> int option
     \<Rightarrow> state \<Rightarrow> ((error + jv) \<times> state) option" where
  "update_product D id' name sku description cost price st =
     (let st1 = disableCache st in
      case getProduct D id' None st1 of
        None \<Rightarrow> None
      | Some (Inl e, st2) \<Rightarrow> Some (Inl e, st2)
      | Some (Inr current, st2) \<Rightarrow>
          (let st3 = enableCache st2 in
           if current = JNull then Some (Inl TypeError, st3)
           else Some (upsertProduct D
                  (literal [(''id'', Some (JStr id')),
                            (''name'', or_else (map_option JStr name) (getp ''name'' current)),
                            (''sku'', map_option JStr sku),
                            (''description'', map_option JStr description),
                            (''cost'', map_option JNum cost),
                            (''defaultPrice'', map_option JNum price),
                            (''timestamp'', getp ''timestamp'' current)])
                  st3)))"

text \<open>\<^verbatim>\<open>add-po-item\<close> (lines 430 to 454).\<close>

definition add_po_item ::
  "deps \<Rightarrow> string \<Rightarrow> string \<Rightarrow> int \<Rightarrow> int option \<Rightarrow> state \<Rightarrow> ((error + jv) \<times> state) option" where
  "add_po_item D purchaseOrderId productId quantity unitCost st =
     (let st1 = disableCache st in
      case getPurchaseOrder D purchaseOrderId (Some [''lines'']) st1 of
        None \<Rightarrow> None
      | Some (Inl e, st2) \<Rightarrow> Some (Inl e, st2)
      | Some (Inr currentPO, st2) \<Rightarrow>
          (let st3 = enableCache st2 in
           if currentPO = JNull then Some (Inl TypeError, st3)
           else (case iter_lines (getp ''lines'' currentPO) of
                   Inl e \<Rightarrow> Some (Inl e, st3)
                 | Inr existingItems \<Rightarrow>
                     Some (upsertPurchaseOrder D
                       (literal [(''id'', Some (JStr purchaseOrderId)),
                                 (''vendorId'', getp ''vendorId'' currentPO),
                                 (''items'', Some (JArr (existingItems @
                                    [JObj (literal [(''productId'', Some (JStr productId)),
                                                    (''quantity'', Some (JNum quantity)),
                                                    (''unitCost'', map_option JNum unitCost)])]))),
                                 (''timestamp'', getp ''timestamp'' currentPO)])
                       st3))))"

text \<open>
  \<^verbatim>\<open>update-purchase-order\<close> (lines 456 to 497). \<open>po_item\<close> is the function mapped over
  the existing lines (lines 475 to 483): \<^verbatim>\<open>typeof\<close> gives \<^verbatim>\<open>'object'\<close> for objects,
  arrays and \<^verbatim>\<open>null\<close>, and reading a property of \<^verbatim>\<open>null\<close> throws. \<open>map_lines\<close> is
  \<^verbatim>\<open>(x || []).map(f)\<close>: only an array has \<^verbatim>\<open>map\<close>.
\<close>

definition po_item :: "deps \<Rightarrow> jv \<Rightarrow> error + jv" where
  "po_item D line =
     (if line = JNull then Inl TypeError
      else
        (case (case getp ''quantity'' line of
                 Some JNull \<Rightarrow> Inl TypeError
               | Some (JObj kvs) \<Rightarrow>
                   Inr (parseFloat D (or_default
                          (or_else (getp ''standardQuantity'' (JObj kvs)) (getp ''uomQuantity'' (JObj kvs)))
                          (JStr ''1'')))
               | Some (JArr xs) \<Rightarrow>
                   Inr (parseFloat D (or_default
                          (or_else (getp ''standardQuantity'' (JArr xs)) (getp ''uomQuantity'' (JArr xs)))
                          (JStr ''1'')))
               | q \<Rightarrow> Inr (parseFloat D (or_default q (JStr ''1'')))) of
           Inl e \<Rightarrow> Inl e
         | Inr quantity \<Rightarrow>
             Inr (JObj (literal [(''id'', getp ''purchaseOrderLineId'' line),
                                 (''productId'', getp ''productId'' line),
                                 (''description'', getp ''description'' line),
                                 (''quantity'', Some quantity),
                                 (''unitCost'', Some (parseFloat D
                                     (or_default (getp ''unitPrice'' line) (JStr ''0''))))]))))"

fun map_err :: "('a \<Rightarrow> error + 'b) \<Rightarrow> 'a list \<Rightarrow> error + 'b list" where
  "map_err f [] = Inr []"
| "map_err f (x # xs) =
     (case f x of
        Inl e \<Rightarrow> Inl e
      | Inr y \<Rightarrow> (case map_err f xs of Inl e \<Rightarrow> Inl e | Inr ys \<Rightarrow> Inr (y # ys)))"

fun map_lines :: "(jv \<Rightarrow> error + jv) \<Rightarrow> jv option \<Rightarrow> error + jv list" where
  "map_lines f None = Inr []"
| "map_lines f (Some (JArr xs)) = map_err f xs"
| "map_lines f (Some v) = (if truthy v then Inl TypeError else Inr [])"

definition update_purchase_order ::
  "deps \<Rightarrow> string \<Rightarrow> string option \<Rightarrow> string option \<Rightarrow> string option \<Rightarrow> string option \<Rightarrow> string option
     \<Rightarrow> state \<Rightarrow> ((error + jv) \<times> state) option" where
  "update_purchase_order D id' remarks orderDate expectedDate carrier currency st =
     (let st1 = disableCache st in
      case getPurchaseOrder D id' (Some [''lines'']) st1 of
        None \<Rightarrow> None
      | Some (Inl e, st2) \<Rightarrow> Some (Inl e, st2)
      | Some (Inr currentPO, st2) \<Rightarrow>
          (let st3 = enableCache st2 in
           if currentPO = JNull then Some (Inl TypeError, st3)
           else (case map_lines (po_item D) (getp ''lines'' currentPO) of
                   Inl e \<Rightarrow> Some (Inl e, st3)
                 | Inr existingItems \<Rightarrow>
                     Some (upsertPurchaseOrder D
                       (literal [(''id'', Some (JStr id')),
                                 (''vendorId'', getp ''vendorId'' currentPO),
                                 (''items'', Some (JArr existingItems)),
                                 (''remarks'', (case remarks of
                                                  Some r \<Rightarrow> Some (JStr r)
                                                | None \<Rightarrow> getp ''orderRemarks'' currentPO)),
                                 (''orderDate'', or_else (map_option JStr orderDate)
                                                   (getp ''orderDate'' currentPO)),
                                 (''expectedDate'', or_else (map_option JStr expectedDate)
                                                      (getp ''expectedDate'' currentPO)),
                                 (''currencyCode'', map_option JStr currency),
                                 (''timestamp'', getp ''timestamp'' currentPO)])
                       st3))))"

section \<open>Serial numbers of one sales order\<close>

text \<open>
  \<^verbatim>\<open>getSalesOrderSerials\<close> (lines 902 to 949). The \<^verbatim>\<open>Map\<close> is an association list in
  insertion order. Its keys are compared as a \<^verbatim>\<open>Map\<close> compares them: primitive values
  by value, while an array or an object is only equal to itself, and the elements of a
  parsed payload are all different objects, so such a key is never found.
\<close>

record serial_rec =
  sr_serial :: jv
  sr_productId :: "jv option"
  sr_sources :: "string list"

fun is_object :: "jv \<Rightarrow> bool" where
  "is_object (JArr xs) = True"
| "is_object (JObj kvs) = True"
| "is_object v = False"

definition map_get :: "(jv \<times> serial_rec) list \<Rightarrow> jv \<Rightarrow> serial_rec option" where
  "map_get m k = (if is_object k then None else map_of m k)"

definition push_source :: "jv \<Rightarrow> string \<Rightarrow> (jv \<times> serial_rec) list \<Rightarrow> (jv \<times> serial_rec) list" where
  "push_source k source m =
     map (\<lambda>p. if fst p = k then (fst p, (snd p)\<lparr>sr_sources := sr_sources (snd p) @ [source]\<rparr>) else p) m"

text \<open>The inner loop over \<^verbatim>\<open>serialNumbers\<close> (lines 917 to 930), the loop over the lines
  (913 to 931) and the helper \<^verbatim>\<open>extractSerials\<close> itself.\<close>

fun extractSerials_serials ::
  "string \<Rightarrow> jv \<Rightarrow> jv list \<Rightarrow> (jv \<times> serial_rec) list \<Rightarrow> (jv \<times> serial_rec) list" where
  "extractSerials_serials source line [] m = m"
| "extractSerials_serials source line (serial # rest) m =
     (if \<not> truthy serial then extractSerials_serials source line rest m
      else (case map_get m serial of
              Some existing \<Rightarrow> extractSerials_serials source line rest (push_source serial source m)
            | None \<Rightarrow>
                extractSerials_serials source line rest
                  (m @ [(serial, \<lparr>sr_serial = serial, sr_productId = getp ''productId'' line,
                                  sr_sources = [source]\<rparr>)])))"

fun extractSerials_lines ::
  "string \<Rightarrow> jv list \<Rightarrow> (jv \<times> serial_rec) list \<Rightarrow> error + (jv \<times> serial_rec) list" where
  "extractSerials_lines source [] m = Inr m"
| "extractSerials_lines source (line # rest) m =
     (if line = JNull then Inl TypeError
      else (case opt_member ''serialNumbers'' (getp ''quantity'' line) of
              Some (JArr serialNumbers) \<Rightarrow>
                extractSerials_lines source rest (extractSerials_serials source line serialNumbers m)
            | _ \<Rightarrow> extractSerials_lines source rest m))"

definition extractSerials ::
  "jv option \<Rightarrow> string \<Rightarrow> (jv \<times> serial_rec) list \<Rightarrow> error + (jv \<times> serial_rec) list" where
  "extractSerials lines source m =
     (case iter_lines lines of
        Inl e \<Rightarrow> Inl e
      | Inr ls \<Rightarrow> extractSerials_lines source ls m)"

text \<open>The three calls of lines 935 to 937, on the order that was fetched.\<close>

definition serialMap_of :: "jv \<Rightarrow> error + (jv \<times> serial_rec) list" where
  "serialMap_of order =
     (if order = JNull then Inl TypeError
      else (case extractSerials (getp ''packLines'' order) ''pack'' [] of
              Inl e \<Rightarrow> Inl e
            | Inr m1 \<Rightarrow>
                (case extractSerials (getp ''pickLines'' order) ''pick'' m1 of
                   Inl e \<Rightarrow> Inl e
                 | Inr m2 \<Rightarrow> extractSerials (getp ''lines'' order) ''order'' m2)))"

definition rec_json :: "serial_rec \<Rightarrow> jv" where
  "rec_json r =
     JObj (literal [(''serial'', Some (sr_serial r)),
                    (''productId'', sr_productId r),
                    (''sources'', Some (JArr (map JStr (sr_sources r))))])"

definition getSalesOrderSerials :: "deps \<Rightarrow> string \<Rightarrow> state \<Rightarrow> ((error + jv) \<times> state) option" where
  "getSalesOrderSerials D orderId st =
     (case getSalesOrder D orderId (Some [''lines'', ''pickLines'', ''packLines'']) st of
        None \<Rightarrow> None
      | Some (Inl e, st1) \<Rightarrow> Some (Inl e, st1)
      | Some (Inr order, st1) \<Rightarrow>
          (case serialMap_of order of
             Inl e \<Rightarrow> Some (Inl e, st1)
           | Inr serialMap \<Rightarrow>
               Some (Inr (JObj (literal
                      [(''salesOrderId'', getp ''salesOrderId'' order),
                       (''orderNumber'', getp ''orderNumber'' order),
                       (''orderDate'', getp ''orderDate'' order),
                       (''status'', getp ''inventoryStatus'' order),
                       (''serialCount'', Some (JNum (int (length serialMap)))),
                       (''serials'', Some (JArr (map (\<lambda>p. rec_json (snd p)) serialMap)))])),
                     st1)))"

section \<open>The order-based serial index\<close>

text \<open>
  \<^verbatim>\<open>buildSerialIndex\<close> (lines 995 to 1062). The index is a plain object, here an
  association list in insertion order. \<open>set_key\<close> is the assignment
  \<^verbatim>\<open>serialIndex[k] = v\<close>. The keys are upper-cased, so none of them is a property that a
  plain object inherits.
\<close>

fun set_key :: "string \<Rightarrow> jv \<Rightarrow> (string \<times> jv) list \<Rightarrow> (string \<times> jv) list" where
  "set_key k v [] = [(k, v)]"
| "set_key k v (p # ps) = (if fst p = k then (k, v) # ps else p # set_key k v ps)"

definition make_entry :: "jv \<Rightarrow> jv \<Rightarrow> string \<Rightarrow> jv" where
  "make_entry order line normalizedSerial =
     JObj (literal [(''serial'', Some (JStr normalizedSerial)),
                    (''salesOrderId'', getp ''salesOrderId'' order),
                    (''orderNumber'', getp ''orderNumber'' order),
                    (''orderDate'', getp ''orderDate'' order),
                    (''productId'', getp ''productId'' line),
                    (''shopifyOrderUrl'',
                       Some (or_default (opt_member ''custom4'' (getp ''customFields'' order)) JNull))])"

text \<open>
  The expression \<^verbatim>\<open>serial.trim().toUpperCase()\<close> of lines 1040 and 1084, on a string.
\<close>

definition normalize_serial :: "deps \<Rightarrow> string \<Rightarrow> string" where
  "normalize_serial D s = toUpperCase D (trim D s)"

text \<open>The inner loop (lines 1036 to 1050): \<^verbatim>\<open>serial.trim\<close> exists on strings only.\<close>

fun extractFromLines_serials ::
  "deps \<Rightarrow> jv \<Rightarrow> jv \<Rightarrow> jv list \<Rightarrow> (string \<times> jv) list \<Rightarrow> error + (string \<times> jv) list" where
  "extractFromLines_serials D order line [] serialIndex = Inr serialIndex"
| "extractFromLines_serials D order line (serial # rest) serialIndex =
     (if \<not> truthy serial then extractFromLines_serials D order line rest serialIndex
      else (case serial of
              JStr s \<Rightarrow>
                (let normalizedSerial = normalize_serial D s in
                 if \<not> truthy_opt (map_of serialIndex normalizedSerial) then
                   extractFromLines_serials D order line rest
                     (set_key normalizedSerial (make_entry order line normalizedSerial) serialIndex)
                 else extractFromLines_serials D order line rest serialIndex)
            | _ \<Rightarrow> Inl TypeError))"

fun extractFromLines_lines ::
  "deps \<Rightarrow> jv \<Rightarrow> jv list \<Rightarrow> (string \<times> jv) list \<Rightarrow> error + (string \<times> jv) list" where
  "extractFromLines_lines D order [] serialIndex = Inr serialIndex"
| "extractFromLines_lines D order (line # rest) serialIndex =
     (if line = JNull then Inl TypeError
      else (case opt_member ''serialNumbers'' (getp ''quantity'' line) of
              Some (JArr serialNumbers) \<Rightarrow>
                (case extractFromLines_serials D order line serialNumbers serialIndex of
                   Inl e \<Rightarrow> Inl e
                 | Inr serialIndex' \<Rightarrow> extractFromLines_lines D order rest serialIndex')
            | _ \<Rightarrow> extractFromLines_lines D order rest serialIndex))"

definition extractFromLines ::
  "deps \<Rightarrow> jv option \<Rightarrow> jv \<Rightarrow> (string \<times> jv) list \<Rightarrow> error + (string \<times> jv) list" where
  "extractFromLines D lines order serialIndex =
     (case iter_lines lines of
        Inl e \<Rightarrow> Inl e
      | Inr ls \<Rightarrow> extractFromLines_lines D order ls serialIndex)"

text \<open>The loop over all orders (lines 1054 to 1059).\<close>

fun indexOrders :: "deps \<Rightarrow> jv list \<Rightarrow> (string \<times> jv) list \<Rightarrow> error + (string \<times> jv) list" where
  "indexOrders D [] serialIndex = Inr serialIndex"
| "indexOrders D (order # rest) serialIndex =
     (if order = JNull then Inl TypeError
      else (case extractFromLines D (getp ''packLines'' order) order serialIndex of
              Inl e \<Rightarrow> Inl e
            | Inr i1 \<Rightarrow>
                (case extractFromLines D (getp ''pickLines'' order) order i1 of
                   Inl e \<Rightarrow> Inl e
                 | Inr i2 \<Rightarrow>
                     (case extractFromLines D (getp ''lines'' order) order i2 of
                        Inl e \<Rightarrow> Inl e
                      | Inr i3 \<Rightarrow> indexOrders D rest i3))))"

text \<open>
  Lines 1015 and 1016: \<^verbatim>\<open>result.data || result || []\<close>, wrapped into an array when it
  is not one.
\<close>

definition orderList_of :: "jv \<Rightarrow> error + jv list" where
  "orderList_of result =
     (if result = JNull then Inl TypeError
      else (case or_default (or_else (getp ''data'' result) (Some result)) (JArr []) of
              JArr xs \<Rightarrow> Inr xs
            | orders \<Rightarrow> Inr [orders]))"

text \<open>
  The pagination loop (lines 1007 to 1025), with the variables \<^verbatim>\<open>skip\<close> and
  \<^verbatim>\<open>allOrders\<close> as arguments. The loop has no bound of its own: it is a partial
  function, and \<open>None\<close> is the run that never leaves the loop.
\<close>

partial_function (option) fetchOrders ::
  "deps \<Rightarrow> string \<Rightarrow> nat option \<Rightarrow> nat \<Rightarrow> jv list \<Rightarrow> state \<Rightarrow> ((error + jv list) \<times> state) option" where
  "fetchOrders D status maxOrders skip allOrders st =
     (case callTool D ''list_sales_orders''
             [(''status'', JStr status),
              (''include'', JArr [JStr ''lines'', JStr ''pickLines'', JStr ''packLines'']),
              (''count'', JNum 100),
              (''skip'', JNum (int skip))] st of
        (Inl e, st1) \<Rightarrow> Some (Inl e, st1)
      | (Inr result, st1) \<Rightarrow>
          (case orderList_of result of
             Inl e \<Rightarrow> Some (Inl e, st1)
           | Inr orderList \<Rightarrow>
               (if length orderList < 100 then Some (Inr (allOrders @ orderList), st1)
                else (case maxOrders of
                        None \<Rightarrow> fetchOrders D status maxOrders (skip + 100) (allOrders @ orderList) st1
                      | Some m \<Rightarrow>
                          (if m \<noteq> 0 \<and> m \<le> length (allOrders @ orderList)
                           then Some (Inr (take m (allOrders @ orderList)), st1)
                           else fetchOrders D status maxOrders (skip + 100)
                                  (allOrders @ orderList) st1)))))"

definition buildSerialIndex ::
  "deps \<Rightarrow> string option \<Rightarrow> nat option \<Rightarrow> state \<Rightarrow> ((error + jv) \<times> state) option" where
  "buildSerialIndex D status limit st =
     (case fetchOrders D (str_or status ''Fulfilled'') limit 0 [] st of
        None \<Rightarrow> None
      | Some (Inl e, st1) \<Rightarrow> Some (Inl e, st1)
      | Some (Inr allOrders, st1) \<Rightarrow>
          (case indexOrders D allOrders [] of
             Inl e \<Rightarrow> Some (Inl e, st1)
           | Inr serialIndex \<Rightarrow> Some (Inr (JObj serialIndex), st1)))"

text \<open>
  \<^verbatim>\<open>searchSerial\<close> (lines 1081 to 1106). The value cached under \<^verbatim>\<open>serial_index\<close> is
  only ever written here and in \<^verbatim>\<open>listSerials\<close>, from \<^verbatim>\<open>buildSerialIndex\<close>, so it is
  an object; \<open>spread\<close> is \<^verbatim>\<open>{found: true, ...result}\<close> for an object \<open>result\<close>.
\<close>

fun spread :: "(string \<times> jv) list \<Rightarrow> jv \<Rightarrow> (string \<times> jv) list" where
  "spread base (JObj kvs) = fold (\<lambda>p acc. set_key (fst p) (snd p) acc) kvs base"
| "spread base v = base"

definition not_found :: "string \<Rightarrow> jv" where
  "not_found normalizedSerial =
     JObj [(''found'', JBool False),
           (''serial'', JStr normalizedSerial),
           (''message'', JStr (''Serial number not found in fulfilled sales orders. '' @
                               ''Check Airtable for authoritative serial number data.''))]"

definition searchSerial :: "deps \<Rightarrow> string \<Rightarrow> state \<Rightarrow> ((error + jv) \<times> state) option" where
  "searchSerial D serial st =
     (case getOrFetch ''serial_index'' (buildSerialIndex D None None) HOUR (cacheDisabled st) st of
        None \<Rightarrow> None
      | Some (Inl e, st1) \<Rightarrow> Some (Inl e, st1)
      | Some (Inr serialIndex, st1) \<Rightarrow>
          (let normalizedSerial = normalize_serial D serial in
           case member normalizedSerial (Some serialIndex) of
             Inl e \<Rightarrow> Some (Inl e, st1)
           | Inr None \<Rightarrow> Some (Inr (not_found normalizedSerial), st1)
           | Inr (Some result) \<Rightarrow>
               (if truthy result then Some (Inr (JObj (spread [(''found'', JBool True)] result)), st1)
                else Some (Inr (not_found normalizedSerial), st1))))"

section \<open>The purges of the write operations, as a table\<close>

text \<open>
  For the statements about the write operations: each operation with the tool it calls and
  the key prefixes it purges after a successful call, in the order of the purges
  (\<^verbatim>\<open>unreceivePurchaseOrder\<close> purges nothing on a dry run).
\<close>

definition purge_all :: "string list \<Rightarrow> cache \<Rightarrow> cache" where
  "purge_all prefixes c = fold (\<lambda>p c'. snd (invalidatePattern (starts_with p) c')) prefixes c"

definition write_table ::
  "((deps \<Rightarrow> (string \<times> jv) list \<Rightarrow> state \<Rightarrow> (error + jv) \<times> state) \<times> string \<times>
    ((string \<times> jv) list \<Rightarrow> string list)) list" where
  "write_table =
     [(createStockAdjustment, ''upsert_stock_adjustment'', \<lambda>data. [''stock'']),
      (createStockTransfer, ''upsert_stock_transfer'', \<lambda>data. [''stock'']),
      (createStockCount, ''upsert_stock_count'', \<lambda>data. [''stock'']),
      (upsertProduct, ''upsert_product'',
         \<lambda>data. [''products'', ''product:'', ''products_search'', ''product_bom'', ''bom'']),
      (upsertVendor, ''upsert_vendor'', \<lambda>data. [''vendors'']),
      (upsertPurchaseOrder, ''upsert_purchase_order'',
         \<lambda>data. [''purchase_orders'', ''purchase_order:'']),
      (receivePurchaseOrder, ''receive_purchase_order'',
         \<lambda>data. [''purchase_orders'', ''purchase_order:'', ''stock'']),
      (unreceivePurchaseOrder, ''unreceive_purchase_order'',
         \<lambda>data. if truthy_opt (map_of data ''dryRun'') then []
                else [''purchase_orders'', ''purchase_order:'', ''stock''])]"

section \<open>Occurrences of serial numbers, in processing order\<close>

text \<open>
  For the statements about the pagination: the pages that the first \<open>n\<close> requests of the
  loop deliver, in the order of the requests, with the state after the last of them. The
  requests are those of \<^verbatim>\<open>buildSerialIndex\<close>: the first skips \<open>skip\<close> orders, and each
  further one a hundred more. A request that fails ends the sequence.
\<close>

fun pages :: "nat \<Rightarrow> deps \<Rightarrow> string \<Rightarrow> nat \<Rightarrow> state \<Rightarrow> jv list list \<times> state" where
  "pages 0 D status skip st = ([], st)"
| "pages (Suc n) D status skip st =
     (case callTool D ''list_sales_orders''
             [(''status'', JStr status),
              (''include'', JArr [JStr ''lines'', JStr ''pickLines'', JStr ''packLines'']),
              (''count'', JNum 100),
              (''skip'', JNum (int skip))] st of
        (Inl e, st1) \<Rightarrow> ([], st1)
      | (Inr result, st1) \<Rightarrow>
          (case orderList_of result of
             Inl e \<Rightarrow> ([], st1)
           | Inr orderList \<Rightarrow>
               (case pages n D status (skip + 100) st1 of
                  (rest, st2) \<Rightarrow> (orderList # rest, st2))))"

text \<open>
  For the statements about the index: the occurrences of serial numbers in a list of
  orders, each with its key (the trimmed, upper-cased serial number), the order and the
  line that list it, in the order in which \<^verbatim>\<open>buildSerialIndex\<close> visits them: orders as
  they were collected, within an order the pack lines, then the pick lines, then the order
  lines, within a source the lines and within a line the serial numbers as listed. Values
  that the loops skip (an empty serial, a line without an array of serial numbers) are no
  occurrences.
\<close>

fun serial_occurrences :: "deps \<Rightarrow> jv \<Rightarrow> jv \<Rightarrow> jv list \<Rightarrow> (string \<times> jv \<times> jv) list" where
  "serial_occurrences D order line [] = []"
| "serial_occurrences D order line (JStr s # rest) =
     (if s = [] then serial_occurrences D order line rest
      else (normalize_serial D s, order, line) # serial_occurrences D order line rest)"
| "serial_occurrences D order line (v # rest) = serial_occurrences D order line rest"

fun line_occurrences :: "deps \<Rightarrow> jv \<Rightarrow> jv list \<Rightarrow> (string \<times> jv \<times> jv) list" where
  "line_occurrences D order [] = []"
| "line_occurrences D order (line # rest) =
     (case opt_member ''serialNumbers'' (getp ''quantity'' line) of
        Some (JArr serialNumbers) \<Rightarrow> serial_occurrences D order line serialNumbers
      | _ \<Rightarrow> [])
     @ line_occurrences D order rest"

definition source_occurrences :: "deps \<Rightarrow> jv \<Rightarrow> jv option \<Rightarrow> (string \<times> jv \<times> jv) list" where
  "source_occurrences D order lines =
     (case iter_lines lines of Inl e \<Rightarrow> [] | Inr ls \<Rightarrow> line_occurrences D order ls)"

definition order_occurrences :: "deps \<Rightarrow> jv \<Rightarrow> (string \<times> jv \<times> jv) list" where
  "order_occurrences D order =
     source_occurrences D order (getp ''packLines'' order)
     @ source_occurrences D order (getp ''pickLines'' order)
     @ source_occurrences D order (getp ''lines'' order)"

definition occurrences :: "deps \<Rightarrow> jv list \<Rightarrow> (string \<times> jv \<times> jv) list" where
  "occurrences D allOrders = concat (map (order_occurrences D) allOrders)"

text \<open>
  The assignment that an occurrence makes when its key is not in the index yet: the key and
  the entry built from the order and the line of the occurrence.
\<close>

fun written :: "string \<times> jv \<times> jv \<Rightarrow> string \<times> jv" where
  "written (k, order, line) = (k, make_entry order line k)"

text \<open>
  For the statements about \<^verbatim>\<open>getSalesOrderSerials\<close>: the mentions of serial numbers in
  one order, each with the raw serial value, the product of its line and the name of its
  source, in the order in which the three calls of \<^verbatim>\<open>extractSerials\<close> visit them.
\<close>

record mention =
  m_serial :: jv
  m_productId :: "jv option"
  m_source :: string

fun serial_mentions :: "string \<Rightarrow> jv \<Rightarrow> jv list \<Rightarrow> mention list" where
  "serial_mentions source line [] = []"
| "serial_mentions source line (serial # rest) =
     (if truthy serial
      then \<lparr>m_serial = serial, m_productId = getp ''productId'' line, m_source = source\<rparr>
             # serial_mentions source line rest
      else serial_mentions source line rest)"

fun line_mentions :: "string \<Rightarrow> jv list \<Rightarrow> mention list" where
  "line_mentions source [] = []"
| "line_mentions source (line # rest) =
     (case opt_member ''serialNumbers'' (getp ''quantity'' line) of
        Some (JArr serialNumbers) \<Rightarrow> serial_mentions source line serialNumbers
      | _ \<Rightarrow> [])
     @ line_mentions source rest"

definition source_mentions :: "jv option \<Rightarrow> string \<Rightarrow> mention list" where
  "source_mentions lines source =
     (case iter_lines lines of Inl e \<Rightarrow> [] | Inr ls \<Rightarrow> line_mentions source ls)"

definition mentions :: "jv \<Rightarrow> mention list" where
  "mentions order =
     source_mentions (getp ''packLines'' order) ''pack''
     @ source_mentions (getp ''pickLines'' order) ''pick''
     @ source_mentions (getp ''lines'' order) ''order''"

text \<open>
  The record that the mentions of one serial value amount to: the value itself, the
  product of the first mention and the sources of all mentions, first to last.
\<close>

fun record_of :: "mention list \<Rightarrow> serial_rec option" where
  "record_of [] = None"
| "record_of (x # xs) =
     Some \<lparr>sr_serial = m_serial x, sr_productId = m_productId x,
           sr_sources = map m_source (x # xs)\<rparr>"

text \<open>
  A record that is there already only gains sources; otherwise the mentions make the
  record.
\<close>

fun add_mentions :: "serial_rec option \<Rightarrow> mention list \<Rightarrow> serial_rec option" where
  "add_mentions None xs = record_of xs"
| "add_mentions (Some r) xs = Some (r\<lparr>sr_sources := sr_sources r @ map m_source xs\<rparr>)"

text \<open>
  What the mentions of one serial value amount to in the \<^verbatim>\<open>serials\<close> array that is
  returned: nothing when there is no mention, else one object with the value itself, the
  product of the first mention (left out when that line has none) and the sources of all
  mentions, first to last.
\<close>

fun returned_records :: "mention list \<Rightarrow> jv list" where
  "returned_records [] = []"
| "returned_records (x # xs) =
     [JObj (literal [(''serial'', Some (m_serial x)),
                     (''productId'', m_productId x),
                     (''sources'', Some (JArr (map (\<lambda>y. JStr (m_source y)) (x # xs))))])]"

section \<open>A small remote service, for concrete runs\<close>

text \<open>
  Two sales orders that share a serial number: the first lists it as \<^verbatim>\<open>" abc123 "\<close> on
  a pack line and as \<^verbatim>\<open>"ABC123"\<close> on an order line, the second, with the later date,
  as \<^verbatim>\<open>"abc123"\<close> on a pick line.
\<close>

definition demo_line1 :: jv where
  "demo_line1 =
     JObj [(''productId'', JStr ''P1''),
           (''quantity'', JObj [(''serialNumbers'', JArr [JStr '' abc123 '', JStr ''XYZ9''])])]"

definition demo_line2 :: jv where
  "demo_line2 =
     JObj [(''productId'', JStr ''P1b''),
           (''quantity'', JObj [(''serialNumbers'', JArr [JStr ''ABC123'', JStr '' abc123 ''])])]"

definition demo_line3 :: jv where
  "demo_line3 =
     JObj [(''productId'', JStr ''P2''),
           (''quantity'', JObj [(''serialNumbers'', JArr [JStr ''abc123'', JStr ''Q7''])])]"

definition demo_order1 :: jv where
  "demo_order1 =
     JObj [(''salesOrderId'', JStr ''SO-1''),
           (''orderNumber'', JStr ''1001''),
           (''orderDate'', JStr ''2024-03-01''),
           (''packLines'', JArr [demo_line1]),
           (''lines'', JArr [demo_line2])]"

definition demo_order2 :: jv where
  "demo_order2 =
     JObj [(''salesOrderId'', JStr ''SO-2''),
           (''orderNumber'', JStr ''1002''),
           (''orderDate'', JStr ''2025-01-15''),
           (''pickLines'', JArr [demo_line3])]"

text \<open>
  The strings of the concrete runs are made of characters with a code below 256, the
  code being the Unicode code point. On such strings \<^verbatim>\<open>trim\<close> removes tab, line feed,
  vertical tab, form feed, carriage return, space and no-break space (U+00A0) from both
  ends, and \<^verbatim>\<open>toUpperCase\<close> maps the letters U+0061 to U+007A and U+00E0 to U+00FE (the
  division sign U+00F7 apart) to the character thirty-two places before. \<open>demo_trim\<close>
  and \<open>demo_toUpperCase\<close> are the two built-ins on these strings. Three characters of the
  range have an upper-case form that is not one character of the range (U+00B5, U+00DF,
  U+00FF); they occur in no run, and \<open>demo_toUpperCase\<close> keeps them.
\<close>

definition demo_space :: "char \<Rightarrow> bool" where
  "demo_space c = (of_char c \<in> {9, 10, 11, 12, 13, 32, 160 :: nat})"

definition demo_trim :: "string \<Rightarrow> string" where
  "demo_trim s = rev (dropWhile demo_space (rev (dropWhile demo_space s)))"

definition demo_lower :: "nat \<Rightarrow> bool" where
  "demo_lower n = (n \<in> {97..122} \<union> {224..246} \<union> {248..254})"

definition demo_upper :: "char \<Rightarrow> char" where
  "demo_upper c =
     (if demo_lower (of_char c) then char_of ((of_char c :: nat) - 32) else c)"

definition demo_toUpperCase :: "string \<Rightarrow> string" where
  "demo_toUpperCase s = map demo_upper s"

text \<open>
  The service answers every tool with one text item. The texts are abbreviated to one
  word each, and \<open>demo_parse\<close>, the \<^verbatim>\<open>JSON.parse\<close> of these runs, maps the word to the
  value that the full text denotes; the word \<^verbatim>\<open>done\<close> is a text that is not JSON.
  \<open>demo_down\<close> is the same service when it flags every call as an error.
\<close>

definition demo_text :: "string \<Rightarrow> string" where
  "demo_text name =
     (if name = ''list_sales_orders'' then ''orders''
      else if name = ''get_sales_order'' then ''order''
      else if name = ''get_product'' then ''product''
      else if name = ''get_purchase_order'' then ''po''
      else ''done'')"

definition demo_parse :: "string \<Rightarrow> jv option" where
  "demo_parse t =
     (if t = ''orders'' then Some (JObj [(''data'', JArr [demo_order1, demo_order2])])
      else if t = ''order'' then Some demo_order1
      else if t = ''product'' then Some (JObj [(''name'', JStr ''Pallet''), (''timestamp'', JStr ''t1'')])
      else if t = ''po'' then Some (JObj [(''vendorId'', JStr ''V1''), (''timestamp'', JStr ''t2'')])
      else None)"

definition demo_sdk :: "(string \<times> (string \<times> jv) list) list \<Rightarrow> string \<Rightarrow> (string \<times> jv) list \<Rightarrow> reply" where
  "demo_sdk history name args =
     \<lparr>outcome = Inr \<lparr>isError = False,
                     content = [\<lparr>c_type = ''text'', c_text = Some (demo_text name)\<rparr>]\<rparr>,
      elapsed = 1\<rparr>"

definition demo_key :: "string \<Rightarrow> (string \<times> jv option) list \<Rightarrow> string" where
  "demo_key operation params =
     operation @ '':'' @ concat (map (\<lambda>p. case snd p of JStr s \<Rightarrow> s | _ \<Rightarrow> []) (literal params))"

definition demo :: deps where
  "demo =
     \<lparr>INFLOW_API_KEY = Some ''key'', INFLOW_COMPANY_ID = Some ''company'', sdk_connect = None,
      sdk_callTool = demo_sdk, JSON_parse = demo_parse, parseFloat = (\<lambda>v. v),
      trim = demo_trim, toUpperCase = demo_toUpperCase, createCacheKey = demo_key\<rparr>"

definition demo_down :: deps where
  "demo_down =
     demo\<lparr>sdk_callTool := (\<lambda>history name args.
            \<lparr>outcome = Inr \<lparr>isError = True,
                            content = [\<lparr>c_type = ''text'', c_text = Some ''Service unavailable''\<rparr>]\<rparr>,
             elapsed = 1\<rparr>)\<rparr>"

text \<open>
  A service that holds a hundred and one fulfilled orders and delivers them in two pages:
  the request that skips nothing gets ninety-nine orders without serial numbers and then
  the order \<open>demo_order2\<close>, every other request gets the order \<open>demo_order1\<close>. The order
  of the second page has the earlier date.
\<close>

definition demo_filler :: jv where
  "demo_filler = JObj [(''salesOrderId'', JStr ''SO-0'')]"

definition demo_paged_sdk :: "(string \<times> (string \<times> jv) list) list \<Rightarrow> string \<Rightarrow> (string \<times> jv) list \<Rightarrow> reply" where
  "demo_paged_sdk history name args =
     \<lparr>outcome = Inr \<lparr>isError = False,
                     content = [\<lparr>c_type = ''text'',
                                 c_text = Some (if map_of args ''skip'' = Some (JNum 0)
                                                then ''page1'' else ''page2'')\<rparr>]\<rparr>,
      elapsed = 1\<rparr>"

definition demo_paged_parse :: "string \<Rightarrow> jv option" where
  "demo_paged_parse t =
     (if t = ''page1'' then Some (JObj [(''data'', JArr (replicate 99 demo_filler @ [demo_order2]))])
      else if t = ''page2'' then Some (JObj [(''data'', JArr [demo_order1])])
      else None)"

definition demo_paged :: deps where
  "demo_paged = demo\<lparr>sdk_callTool := demo_paged_sdk, JSON_parse := demo_paged_parse\<rparr>"

definition fresh_state :: state where
  "fresh_state =
     \<lparr>connected = False, cacheDisabled = False,
      cache = \<lparr>entries = [], hits = 0, misses = 0, enabled = True\<rparr>,
      clock = 0, calls = []\<rparr>"

text \<open>A state whose cache holds a product list, a stock level and a purchase order.\<close>

definition stocked_state :: state where
  "stocked_state =
     fresh_state\<lparr>cache :=
       \<lparr>entries = [(''products:'', \<lparr>cvalue = JArr [], expiresAt = 900\<rparr>),
                   (''stock:P1'', \<lparr>cvalue = JNum 4, expiresAt = 300\<rparr>),
                   (''purchase_order:PO1'', \<lparr>cvalue = JNull, expiresAt = 300\<rparr>)],
        hits = 0, misses = 3, enabled = True\<rparr>\<rparr>"

text \<open>The index that the two orders give when the first one comes first.\<close>

definition demo_index :: "(string \<times> jv) list" where
  "demo_index =
     [(''ABC123'', make_entry demo_order1 demo_line1 ''ABC123''),
      (''XYZ9'', make_entry demo_order1 demo_line1 ''XYZ9''),
      (''Q7'', make_entry demo_order2 demo_line3 ''Q7'')]"

text \<open>The serial records of the first order.\<close>

definition demo_serialMap :: "(jv \<times> serial_rec) list" where
  "demo_serialMap =
     [(JStr '' abc123 '',
         \<lparr>sr_serial = JStr '' abc123 '', sr_productId = Some (JStr ''P1''),
          sr_sources = [''pack'', ''order'']\<rparr>),
      (JStr ''XYZ9'',
         \<lparr>sr_serial = JStr ''XYZ9'', sr_productId = Some (JStr ''P1''), sr_sources = [''pack'']\<rparr>),
      (JStr ''ABC123'',
         \<lparr>sr_serial = JStr ''ABC123'', sr_productId = Some (JStr ''P1b''), sr_sources = [''order'']\<rparr>)]"

section \<open>Properties of the gateway\<close>

lemma connect_frame:
  "connect D st = (r, st1) \<Longrightarrow>
     cache st1 = cache st \<and> cacheDisabled st1 = cacheDisabled st \<and>
     calls st1 = calls st \<and> clock st1 = clock st"
  by (auto simp: connect_def split: if_splits option.splits)

lemma callTool_frame:
  "callTool D name args st = (r, st') \<Longrightarrow>
     cache st' = cache st \<and> cacheDisabled st' = cacheDisabled st"
  by (auto simp: callTool_def Let_def dest!: connect_frame
           split: prod.splits sum.splits if_splits option.splits)

text \<open>
  C8. Once the connection stands and the transport has delivered a result, \<^verbatim>\<open>callTool\<close>
  throws exactly when the result is flagged as an error. The error then carries the text of
  the first text item, the remote's message, or \<^verbatim>\<open>Tool call failed\<close> when the remote
  sent none. A result that is not flagged and has a non-empty text is returned parsed when
  \<^verbatim>\<open>JSON.parse\<close> succeeds and as the raw text when it throws; that path never throws.
\<close>

theorem callTool_flagged_error:
  assumes "connect D st = (Inr (), st1)"
      and "outcome (sdk_callTool D (calls st1) name args) = Inr r"
  shows "(isl (fst (callTool D name args st)) \<longleftrightarrow> isError r)
       \<and> (isError r \<longrightarrow>
            fst (callTool D name args st) =
              Inl (Error (str_or (text_of (find (\<lambda>c. c_type c = ''text'') (content r)))
                                 ''Tool call failed'')))
       \<and> (\<forall>c t. find (\<lambda>c. c_type c = ''text'') (content r) = Some c \<and> c_text c = Some t \<and> t \<noteq> [] \<longrightarrow>
            (if isError r then fst (callTool D name args st) = Inl (Error t)
             else fst (callTool D name args st) =
                    Inr (case JSON_parse D t of Some j \<Rightarrow> j | None \<Rightarrow> JStr t)))"
  using assms
  by (auto simp: callTool_def Let_def split: option.splits)

lemma connect_demo_down:
  "connect demo_down fresh_state = (Inr (), fresh_state\<lparr>connected := True\<rparr>)"
  by (simp add: connect_def demo_down_def demo_def fresh_state_def)

theorem callTool_flagged_error_witness:
  "connect demo_down fresh_state = (Inr (), fresh_state\<lparr>connected := True\<rparr>)
   \<and> outcome (sdk_callTool demo_down (calls (fresh_state\<lparr>connected := True\<rparr>)) ''get_product'' []) =
       Inr \<lparr>isError = True, content = [\<lparr>c_type = ''text'', c_text = Some ''Service unavailable''\<rparr>]\<rparr>
   \<and> isl (fst (callTool demo_down ''get_product'' [] fresh_state))
   \<and> fst (callTool demo_down ''get_product'' [] fresh_state) = Inl (Error ''Service unavailable'')"
proof -
  have h1: "connect demo_down fresh_state = (Inr (), fresh_state\<lparr>connected := True\<rparr>)"
    by (rule connect_demo_down)
  have h2: "outcome (sdk_callTool demo_down (calls (fresh_state\<lparr>connected := True\<rparr>)) ''get_product'' []) =
       Inr \<lparr>isError = True, content = [\<lparr>c_type = ''text'', c_text = Some ''Service unavailable''\<rparr>]\<rparr>"
    by (simp add: demo_down_def demo_def)
  show ?thesis
    using h1 h2 callTool_flagged_error [OF h1 h2] by simp
qed

section \<open>Concrete runs of the gateway\<close>

lemma demo_text_nonempty: "demo_text name \<noteq> []"
  by (simp add: demo_text_def)

lemma connect_demo: "connect demo st = (Inr (), st\<lparr>connected := True\<rparr>)"
  by (simp add: connect_def demo_def)

lemma callTool_demo:
  "callTool demo name args st =
     (Inr (case demo_parse (demo_text name) of Some j \<Rightarrow> j | None \<Rightarrow> JStr (demo_text name)),
      st\<lparr>connected := True, calls := calls st @ [(name, args)], clock := clock st + 1\<rparr>)"
  by (simp add: callTool_def connect_demo Let_def demo_text_nonempty split: option.splits)
     (simp add: demo_def demo_sdk_def demo_text_nonempty)

lemma callTool_demo_down:
  "callTool demo_down name args st =
     (Inl (Error ''Service unavailable''),
      st\<lparr>connected := True, calls := calls st @ [(name, args)], clock := clock st + 1\<rparr>)"
  by (simp add: callTool_def connect_def Let_def)
     (simp add: demo_down_def demo_def)

section \<open>Write operations purge after success only\<close>

text \<open>
  C3. Every write operation calls the remote tool first. When that call throws, the
  operation throws the same error and the cache is what it was before the operation: no
  purge has run. When the call succeeds, the operation returns its result and the cache is
  the one before the operation with the prefixes of the operation purged, in their order.
\<close>

theorem write_purges_only_after_success:
  "\<forall>(f, tool, prefixes) \<in> set write_table.
     (\<forall>e st1. callTool D tool data st = (Inl e, st1) \<longrightarrow>
        f D data st = (Inl e, st1) \<and> cache st1 = cache st)
   \<and> (\<forall>v st1. callTool D tool data st = (Inr v, st1) \<longrightarrow>
        f D data st = (Inr v, st1\<lparr>cache := purge_all (prefixes data) (cache st)\<rparr>))"
  unfolding write_table_def
  by (auto simp: createStockAdjustment_def createStockTransfer_def createStockCount_def
        upsertProduct_def upsertVendor_def upsertPurchaseOrder_def receivePurchaseOrder_def
        unreceivePurchaseOrder_def purge_all_def purge_def dest: callTool_frame)

theorem write_purges_only_after_success_witness:
  "(upsertProduct, ''upsert_product'',
      \<lambda>data. [''products'', ''product:'', ''products_search'', ''product_bom'', ''bom'']) \<in> set write_table
   \<and> fst (callTool demo_down ''upsert_product'' [] stocked_state) = Inl (Error ''Service unavailable'')
   \<and> fst (upsertProduct demo_down [] stocked_state) = Inl (Error ''Service unavailable'')
   \<and> cache (snd (upsertProduct demo_down [] stocked_state)) = cache stocked_state
   \<and> fst (callTool demo ''upsert_product'' [] stocked_state) = Inr (JStr ''done'')
   \<and> fst (upsertProduct demo [] stocked_state) = Inr (JStr ''done'')
   \<and> map fst (entries (cache (snd (upsertProduct demo [] stocked_state)))) =
        [''stock:P1'', ''purchase_order:PO1'']"
proof -
  have t: "(upsertProduct, ''upsert_product'',
      \<lambda>data. [''products'', ''product:'', ''products_search'', ''product_bom'', ''bom'']) \<in> set write_table"
    by (simp add: write_table_def)
  have p: "demo_parse ''done'' = None" by (simp add: demo_parse_def)
  have x: "demo_text ''upsert_product'' = ''done''" by (simp add: demo_text_def)
  have c: "map fst (entries (purge_all [''products'', ''product:'', ''products_search'', ''product_bom'', ''bom'']
               (cache stocked_state))) = [''stock:P1'', ''purchase_order:PO1'']"
    by (simp add: purge_all_def invalidatePattern_def starts_with_def stocked_state_def)
  from write_purges_only_after_success [of demo_down "[]" stocked_state] t
  have a: "\<forall>e st1. callTool demo_down ''upsert_product'' [] stocked_state = (Inl e, st1) \<longrightarrow>
        upsertProduct demo_down [] stocked_state = (Inl e, st1) \<and> cache st1 = cache stocked_state"
    by fast
  from write_purges_only_after_success [of demo "[]" stocked_state] t
  have b: "\<forall>v st1. callTool demo ''upsert_product'' [] stocked_state = (Inr v, st1) \<longrightarrow>
        upsertProduct demo [] stocked_state =
          (Inr v, st1\<lparr>cache := purge_all [''products'', ''product:'', ''products_search'', ''product_bom'', ''bom'']
               (cache stocked_state)\<rparr>)"
    by fast
  show ?thesis
    using t a b c by (simp add: callTool_demo callTool_demo_down p x)
qed

section \<open>A dry run purges nothing\<close>

text \<open>
  C9. After a successful remote call, \<^verbatim>\<open>unreceivePurchaseOrder\<close> with \<^verbatim>\<open>dryRun\<close> set to
  true leaves the cache as it was before the operation: none of the three patterns is
  applied. With \<^verbatim>\<open>dryRun\<close> absent or false the three patterns \<^verbatim>\<open>/^purchase_orders/\<close>,
  \<^verbatim>\<open>/^purchase_order:/\<close> and \<^verbatim>\<open>/^stock/\<close> are applied, in this order.
\<close>

theorem unreceive_dry_run:
  assumes "callTool D ''unreceive_purchase_order'' data st = (Inr v, st1)"
  shows "(map_of data ''dryRun'' = Some (JBool True) \<longrightarrow>
            unreceivePurchaseOrder D data st = (Inr v, st1) \<and> cache st1 = cache st)
       \<and> (map_of data ''dryRun'' = None \<or> map_of data ''dryRun'' = Some (JBool False) \<longrightarrow>
            unreceivePurchaseOrder D data st =
              (Inr v, st1\<lparr>cache :=
                 snd (invalidatePattern (starts_with ''stock'')
                   (snd (invalidatePattern (starts_with ''purchase_order:'')
                     (snd (invalidatePattern (starts_with ''purchase_orders'') (cache st))))))\<rparr>))"
  using assms callTool_frame [OF assms]
  by (auto simp: unreceivePurchaseOrder_def purge_def)

theorem unreceive_dry_run_witness:
  "fst (callTool demo ''unreceive_purchase_order''
          [(''purchaseOrderId'', JStr ''PO1''), (''dryRun'', JBool True)] stocked_state) = Inr (JStr ''done'')
   \<and> cache (snd (unreceivePurchaseOrder demo
          [(''purchaseOrderId'', JStr ''PO1''), (''dryRun'', JBool True)] stocked_state)) = cache stocked_state
   \<and> fst (callTool demo ''unreceive_purchase_order''
          [(''purchaseOrderId'', JStr ''PO1'')] stocked_state) = Inr (JStr ''done'')
   \<and> map fst (entries (cache (snd (unreceivePurchaseOrder demo
          [(''purchaseOrderId'', JStr ''PO1'')] stocked_state)))) = [''products:'']"
proof -
  have p: "demo_parse ''done'' = None" by (simp add: demo_parse_def)
  have x: "demo_text ''unreceive_purchase_order'' = ''done''" by (simp add: demo_text_def)
  have c: "map fst (entries (snd (invalidatePattern (starts_with ''stock'')
                   (snd (invalidatePattern (starts_with ''purchase_order:'')
                     (snd (invalidatePattern (starts_with ''purchase_orders'') (cache stocked_state)))))))) =
           [''products:'']"
    by (simp add: invalidatePattern_def starts_with_def stocked_state_def)
  have dry: "callTool demo ''unreceive_purchase_order''
          [(''purchaseOrderId'', JStr ''PO1''), (''dryRun'', JBool True)] stocked_state =
        (Inr (JStr ''done''),
         stocked_state\<lparr>connected := True,
           calls := calls stocked_state @ [(''unreceive_purchase_order'',
              [(''purchaseOrderId'', JStr ''PO1''), (''dryRun'', JBool True)])],
           clock := clock stocked_state + 1\<rparr>)"
    by (simp add: callTool_demo p x)
  have wet: "callTool demo ''unreceive_purchase_order'' [(''purchaseOrderId'', JStr ''PO1'')] stocked_state =
        (Inr (JStr ''done''),
         stocked_state\<lparr>connected := True,
           calls := calls stocked_state @ [(''unreceive_purchase_order'',
              [(''purchaseOrderId'', JStr ''PO1'')])],
           clock := clock stocked_state + 1\<rparr>)"
    by (simp add: callTool_demo p x)
  show ?thesis
    using unreceive_dry_run [OF dry] unreceive_dry_run [OF wet] dry wet c by simp
qed

section \<open>Stock levels need a product\<close>

text \<open>
  C7. \<^verbatim>\<open>getStockLevels\<close> without a product identifier (it is undefined, or the empty
  string, which the check treats alike) throws the validation error and returns the state
  it was given: the cache, its counters and the log of remote calls are untouched. With a
  product identifier it is the cached fetch of \<^verbatim>\<open>get_inventory_summary\<close> under the key
  of the product, with the five-minute tier.
\<close>

theorem getStockLevels_fails_fast:
  "(productId = None \<or> productId = Some [] \<longrightarrow>
      getStockLevels D productId st =
        Some (Inl (Error (''productId is required for get_inventory_summary. '' @
                          ''Use list-products first to get product IDs.'')), st))
 \<and> (\<forall>p. productId = Some p \<and> p \<noteq> [] \<longrightarrow>
      getStockLevels D productId st =
        getOrFetch (createCacheKey D ''stock'' [(''productId'', Some (JStr p))])
          (returns (callTool D ''get_inventory_summary'' [(''productId'', JStr p)]))
          FIVE_MINUTES (cacheDisabled st) st)"
  by (auto simp: getStockLevels_def)

theorem getStockLevels_fails_fast_witness:
  "getStockLevels demo None stocked_state =
     Some (Inl (Error (''productId is required for get_inventory_summary. '' @
                       ''Use list-products first to get product IDs.'')), stocked_state)
   \<and> getStockLevels demo (Some ''P1'') stocked_state =
       Some (Inr (JNum 4), count_hit stocked_state)
   \<and> (case getStockLevels demo (Some ''P2'') stocked_state of
         Some (Inr v, st') \<Rightarrow> v = JStr ''done'' \<and> calls st' = [(''get_inventory_summary'', [(''productId'', JStr ''P2'')])]
       | _ \<Rightarrow> False)"
proof -
  have p: "demo_parse ''done'' = None" by (simp add: demo_parse_def)
  have x: "demo_text ''get_inventory_summary'' = ''done''" by (simp add: demo_text_def)
  have k: "createCacheKey demo ''stock'' [(''productId'', Some (JStr ''P1''))] = ''stock:P1''"
          "createCacheKey demo ''stock'' [(''productId'', Some (JStr ''P2''))] = ''stock:P2''"
    by (simp_all add: demo_def demo_key_def)
  have s: "enabled (cache stocked_state)" "\<not> cacheDisabled stocked_state" "clock stocked_state = 0"
          "map_of (entries (cache stocked_state)) ''stock:P1'' = Some \<lparr>cvalue = JNum 4, expiresAt = 300\<rparr>"
          "map_of (entries (cache stocked_state)) ''stock:P2'' = None"
          "calls stocked_state = []"
    by (simp_all add: stocked_state_def fresh_state_def)
  show ?thesis
    using getStockLevels_fails_fast [of None demo stocked_state]
          getStockLevels_fails_fast [of "Some ''P1''" demo stocked_state]
          getStockLevels_fails_fast [of "Some ''P2''" demo stocked_state]
    by (simp add: k s getOrFetch_def fetch_and_store_def returns_def callTool_demo p x count_miss_def)
qed

section \<open>A stored value is served until it expires\<close>

lemma map_of_remove_key: "map_of (remove_key k es) k' = (if k' = k then None else map_of es k')"
  by (induction es) (auto simp: remove_key_def)

lemma map_of_store: "map_of (store k e es) k' = (if k' = k then Some e else map_of es k')"
  by (simp add: store_def map_of_remove_key map_add_def split: option.splits)

lemma fetch_and_store_stores:
  assumes "fetch_and_store K p T st = Some (Inr v, st1)"
  shows "map_of (entries (cache st1)) K = Some \<lparr>cvalue = v, expiresAt = clock st1 + T\<rparr>"
  using assms
  by (auto simp: fetch_and_store_def map_of_store split: option.splits prod.splits sum.splits)

text \<open>
  C4, against the cache store as the specification describes it. Caching is enabled and
  the bypass is off. A first call for the key \<open>K\<close> finds no unexpired entry, runs its
  producer and stores the value \<open>v\<close> with the time-to-live \<open>T > 0\<close>, leaving the state
  \<open>st1\<close>. Any later call for \<open>K\<close> on a state with that same cache, whatever its producer
  and time-to-live: while fewer than \<open>T\<close> seconds have passed since the store (at once, in
  particular) it is a hit, returns \<open>v\<close> and changes nothing but the hit counter, so its
  producer did not run; from \<open>T\<close> seconds on it is a miss and runs its own producer.
\<close>

theorem getOrFetch_served_until_expiry:
  assumes "getOrFetch K p1 T False st0 = Some (Inr v, st1)"
      and "enabled (cache st0)"
      and "\<forall>e. map_of (entries (cache st0)) K = Some e \<longrightarrow> expiresAt e \<le> clock st0"
      and "0 < T"
      and "enabled (cache st1)"
      and "cache st2 = cache st1"
  shows "(clock st2 = clock st1 \<longrightarrow> getOrFetch K p2 T2 False st2 = Some (Inr v, count_hit st2))
       \<and> (clock st2 < clock st1 + T \<longrightarrow> getOrFetch K p2 T2 False st2 = Some (Inr v, count_hit st2))
       \<and> (clock st1 + T \<le> clock st2 \<longrightarrow>
            getOrFetch K p2 T2 False st2 = fetch_and_store K p2 T2 (count_miss K st2))"
proof -
  from assms(1-3) have "fetch_and_store K p1 T (count_miss K st0) = Some (Inr v, st1)"
    by (auto simp: getOrFetch_def split: option.splits if_splits)
  then have "map_of (entries (cache st1)) K = Some \<lparr>cvalue = v, expiresAt = clock st1 + T\<rparr>"
    by (rule fetch_and_store_stores)
  with assms(4-6) show ?thesis
    by (simp add: getOrFetch_def)
qed

theorem getOrFetch_served_until_expiry_witness:
  "getOrFetch ''product:P1'' (returns (callTool demo ''get_product'' [])) 900 False fresh_state =
     Some (Inr (JObj [(''name'', JStr ''Pallet''), (''timestamp'', JStr ''t1'')]),
           \<lparr>connected = True, cacheDisabled = False,
            cache = \<lparr>entries = [(''product:P1'',
                        \<lparr>cvalue = JObj [(''name'', JStr ''Pallet''), (''timestamp'', JStr ''t1'')],
                         expiresAt = 901\<rparr>)],
                     hits = 0, misses = 1, enabled = True\<rparr>,
            clock = 1, calls = [(''get_product'', [])]\<rparr>)
   \<and> getOrFetch ''product:P1'' (returns (callTool demo_down ''get_product'' [])) 900 False
       \<lparr>connected = True, cacheDisabled = False,
        cache = \<lparr>entries = [(''product:P1'',
                    \<lparr>cvalue = JObj [(''name'', JStr ''Pallet''), (''timestamp'', JStr ''t1'')],
                     expiresAt = 901\<rparr>)],
                 hits = 0, misses = 1, enabled = True\<rparr>,
        clock = 900, calls = [(''get_product'', [])]\<rparr> =
     Some (Inr (JObj [(''name'', JStr ''Pallet''), (''timestamp'', JStr ''t1'')]),
           \<lparr>connected = True, cacheDisabled = False,
            cache = \<lparr>entries = [(''product:P1'',
                        \<lparr>cvalue = JObj [(''name'', JStr ''Pallet''), (''timestamp'', JStr ''t1'')],
                         expiresAt = 901\<rparr>)],
                     hits = 1, misses = 1, enabled = True\<rparr>,
            clock = 900, calls = [(''get_product'', [])]\<rparr>)
   \<and> fst (the (getOrFetch ''product:P1'' (returns (callTool demo_down ''get_product'' [])) 900 False
       \<lparr>connected = True, cacheDisabled = False,
        cache = \<lparr>entries = [(''product:P1'',
                    \<lparr>cvalue = JObj [(''name'', JStr ''Pallet''), (''timestamp'', JStr ''t1'')],
                     expiresAt = 901\<rparr>)],
                 hits = 0, misses = 1, enabled = True\<rparr>,
        clock = 901, calls = [(''get_product'', [])]\<rparr>)) = Inl (Error ''Service unavailable'')"
proof -
  let ?v = "JObj [(''name'', JStr ''Pallet''), (''timestamp'', JStr ''t1'')]"
  let ?c = "\<lparr>entries = [(''product:P1'', \<lparr>cvalue = ?v, expiresAt = 901\<rparr>)],
             hits = 0, misses = 1, enabled = True\<rparr>"
  let ?st1 = "\<lparr>connected = True, cacheDisabled = False, cache = ?c,
               clock = 1, calls = [(''get_product'', [])]\<rparr>"
  have first: "getOrFetch ''product:P1'' (returns (callTool demo ''get_product'' [])) 900 False fresh_state =
      Some (Inr ?v, ?st1)"
    by (simp add: getOrFetch_def fetch_and_store_def count_miss_def returns_def callTool_demo
          fresh_state_def demo_text_def demo_parse_def store_def remove_key_def)
  have en0: "enabled (cache fresh_state)" by (simp add: fresh_state_def)
  have miss: "\<forall>e. map_of (entries (cache fresh_state)) ''product:P1'' = Some e \<longrightarrow>
                expiresAt e \<le> clock fresh_state"
    by (simp add: fresh_state_def)
  have T: "(0::int) < 900" by simp
  have en1: "enabled (cache ?st1)" by simp
  note inst = getOrFetch_served_until_expiry [OF first en0 miss T en1,
      where ?p2.0 = "returns (callTool demo_down ''get_product'' [])" and ?T2.0 = 900]
  have a: "cache (?st1\<lparr>clock := 900\<rparr>) = cache ?st1" by simp
  have b: "cache (?st1\<lparr>clock := 901\<rparr>) = cache ?st1" by simp
  show ?thesis
    using first inst [OF a] inst [OF b]
    by (simp add: count_hit_def fetch_and_store_def count_miss_def returns_def callTool_demo_down)
qed

section \<open>The read-modify-write flows and the cache switch\<close>

lemma purge_frame:
  "cacheDisabled (purge re st) = cacheDisabled st \<and>
   enabled (cache (purge re st)) = enabled (cache st)"
  by (simp add: purge_def invalidatePattern_def)

lemma upsertProduct_switch:
  "upsertProduct D data st = (r, st') \<Longrightarrow>
     cacheDisabled st' = cacheDisabled st \<and> enabled (cache st') = enabled (cache st)"
  by (auto simp: upsertProduct_def purge_frame split: prod.splits sum.splits dest: callTool_frame)

lemma upsertPurchaseOrder_switch:
  "upsertPurchaseOrder D data st = (r, st') \<Longrightarrow>
     cacheDisabled st' = cacheDisabled st \<and> enabled (cache st') = enabled (cache st)"
  by (auto simp: upsertPurchaseOrder_def purge_frame split: prod.splits sum.splits dest: callTool_frame)

lemma getOrFetch_disabled:
  "getOrFetch key (returns f) ttl True (disableCache st) = Some (f (disableCache st))"
  by (simp add: getOrFetch_def returns_def)

lemma fetch_while_disabled:
  assumes "getOrFetch key (returns (callTool D name args)) ttl True (disableCache st) = Some (r, st2)"
  shows "cacheDisabled st2 \<and> \<not> enabled (cache st2)"
proof -
  from assms have "callTool D name args (disableCache st) = (r, st2)"
    by (simp add: getOrFetch_disabled)
  from callTool_frame [OF this] show ?thesis
    by (simp add: disableCache_def disable_def)
qed

lemma getProduct_while_disabled:
  assumes "getProduct D i inc (disableCache st) = Some (r, st2)"
  shows "cacheDisabled st2 \<and> \<not> enabled (cache st2)"
proof -
  have "cacheDisabled (disableCache st)" by (simp add: disableCache_def)
  with assms show ?thesis
    unfolding getProduct_def Let_def by (auto dest: fetch_while_disabled)
qed

lemma getPurchaseOrder_while_disabled:
  assumes "getPurchaseOrder D i inc (disableCache st) = Some (r, st2)"
  shows "cacheDisabled st2 \<and> \<not> enabled (cache st2)"
proof -
  have "cacheDisabled (disableCache st)" by (simp add: disableCache_def)
  with assms show ?thesis
    unfolding getPurchaseOrder_def Let_def by (auto dest: fetch_while_disabled)
qed

lemma enableCache_switch:
  "\<not> cacheDisabled (enableCache st) \<and> enabled (cache (enableCache st))"
  by (simp add: enableCache_def enable_def)

lemma update_product_switch:
  "(\<forall>e st2. getProduct D i None (disableCache st) = Some (Inl e, st2) \<longrightarrow>
      update_product D i name sku description cost price st = Some (Inl e, st2)
      \<and> cacheDisabled st2 \<and> \<not> enabled (cache st2))
 \<and> (\<forall>current st2 r st'.
      getProduct D i None (disableCache st) = Some (Inr current, st2)
      \<and> update_product D i name sku description cost price st = Some (r, st') \<longrightarrow>
      \<not> cacheDisabled st' \<and> enabled (cache st'))"
proof -
  have fails: "update_product D i name sku description cost price st = Some (Inl e, st2)
      \<and> cacheDisabled st2 \<and> \<not> enabled (cache st2)"
    if "getProduct D i None (disableCache st) = Some (Inl e, st2)" for e st2
    using that getProduct_while_disabled [OF that] by (simp add: update_product_def Let_def)
  have succeeds: "\<not> cacheDisabled st' \<and> enabled (cache st')"
    if "getProduct D i None (disableCache st) = Some (Inr current, st2)"
       "update_product D i name sku description cost price st = Some (r, st')" for current st2 r st'
    using that enableCache_switch [of st2]
    by (auto simp: update_product_def Let_def split: if_splits dest: upsertProduct_switch)
  from fails succeeds show ?thesis by blast
qed

lemma add_po_item_switch:
  "(\<forall>e st2. getPurchaseOrder D i (Some [''lines'']) (disableCache st) = Some (Inl e, st2) \<longrightarrow>
      add_po_item D i productId quantity unitCost st = Some (Inl e, st2)
      \<and> cacheDisabled st2 \<and> \<not> enabled (cache st2))
 \<and> (\<forall>currentPO st2 r st'.
      getPurchaseOrder D i (Some [''lines'']) (disableCache st) = Some (Inr currentPO, st2)
      \<and> add_po_item D i productId quantity unitCost st = Some (r, st') \<longrightarrow>
      \<not> cacheDisabled st' \<and> enabled (cache st'))"
proof -
  have fails: "add_po_item D i productId quantity unitCost st = Some (Inl e, st2)
      \<and> cacheDisabled st2 \<and> \<not> enabled (cache st2)"
    if "getPurchaseOrder D i (Some [''lines'']) (disableCache st) = Some (Inl e, st2)" for e st2
    using that getPurchaseOrder_while_disabled [OF that] by (simp add: add_po_item_def Let_def)
  have succeeds: "\<not> cacheDisabled st' \<and> enabled (cache st')"
    if "getPurchaseOrder D i (Some [''lines'']) (disableCache st) = Some (Inr currentPO, st2)"
       "add_po_item D i productId quantity unitCost st = Some (r, st')" for currentPO st2 r st'
    using that enableCache_switch [of st2]
    by (auto simp: add_po_item_def Let_def split: if_splits sum.splits dest: upsertPurchaseOrder_switch)
  from fails succeeds show ?thesis by blast
qed

lemma update_purchase_order_switch:
  "(\<forall>e st2. getPurchaseOrder D i (Some [''lines'']) (disableCache st) = Some (Inl e, st2) \<longrightarrow>
      update_purchase_order D i remarks orderDate expectedDate carrier currency st = Some (Inl e, st2)
      \<and> cacheDisabled st2 \<and> \<not> enabled (cache st2))
 \<and> (\<forall>currentPO st2 r st'.
      getPurchaseOrder D i (Some [''lines'']) (disableCache st) = Some (Inr currentPO, st2)
      \<and> update_purchase_order D i remarks orderDate expectedDate carrier currency st = Some (r, st') \<longrightarrow>
      \<not> cacheDisabled st' \<and> enabled (cache st'))"
proof -
  have fails: "update_purchase_order D i remarks orderDate expectedDate carrier currency st = Some (Inl e, st2)
      \<and> cacheDisabled st2 \<and> \<not> enabled (cache st2)"
    if "getPurchaseOrder D i (Some [''lines'']) (disableCache st) = Some (Inl e, st2)" for e st2
    using that getPurchaseOrder_while_disabled [OF that] by (simp add: update_purchase_order_def Let_def)
  have succeeds: "\<not> cacheDisabled st' \<and> enabled (cache st')"
    if "getPurchaseOrder D i (Some [''lines'']) (disableCache st) = Some (Inr currentPO, st2)"
       "update_purchase_order D i remarks orderDate expectedDate carrier currency st = Some (r, st')"
    for currentPO st2 r st'
    using that enableCache_switch [of st2]
    by (auto simp: update_purchase_order_def Let_def split: if_splits sum.splits
             dest: upsertPurchaseOrder_switch)
  from fails succeeds show ?thesis by blast
qed

text \<open>The flows always return or throw: the fetch they await bypasses the cache.\<close>

lemma getProduct_disabled_returns:
  "getProduct D i inc (disableCache st) \<noteq> None"
  by (simp add: getProduct_def Let_def disableCache_def getOrFetch_def returns_def disable_def)

lemma getPurchaseOrder_disabled_returns:
  "getPurchaseOrder D i inc (disableCache st) \<noteq> None"
  by (simp add: getPurchaseOrder_def Let_def disableCache_def getOrFetch_def returns_def disable_def)

lemma update_product_returns:
  "update_product D i name sku description cost price st \<noteq> None"
  using getProduct_disabled_returns [of D i None st]
  by (auto simp: update_product_def Let_def split: option.splits sum.splits)

lemma add_po_item_returns:
  "add_po_item D i productId quantity unitCost st \<noteq> None"
  using getPurchaseOrder_disabled_returns [of D i "Some [''lines'']" st]
  by (auto simp: add_po_item_def Let_def split: option.splits sum.splits)

lemma update_purchase_order_returns:
  "update_purchase_order D i remarks orderDate expectedDate carrier currency st \<noteq> None"
  using getPurchaseOrder_disabled_returns [of D i "Some [''lines'']" st]
  by (auto simp: update_purchase_order_def Let_def split: option.splits sum.splits)

text \<open>
  C6 as stated fails: the handlers call \<^verbatim>\<open>enableCache\<close> after the awaited fetch and have
  no \<^verbatim>\<open>try\<close>/\<^verbatim>\<open>finally\<close>. With a remote that flags the fetch as an error,
  \<^verbatim>\<open>update-product\<close> throws that error and leaves caching disabled.
\<close>

theorem update_product_leaves_cache_disabled:
  "update_product demo_down ''P1'' None None None None None fresh_state =
     Some (Inl (Error ''Service unavailable''),
           \<lparr>connected = True, cacheDisabled = True,
            cache = \<lparr>entries = [], hits = 0, misses = 0, enabled = False\<rparr>,
            clock = 1, calls = [(''get_product'', [(''productId'', JStr ''P1'')])]\<rparr>)
   \<and> cacheDisabled (snd (the (update_product demo_down ''P1'' None None None None None fresh_state)))
   \<and> \<not> cacheDisabled fresh_state"
  by (simp add: update_product_def getProduct_def Let_def getOrFetch_def returns_def
        callTool_demo_down disableCache_def disable_def fresh_state_def)

text \<open>
  C6, amended. In each of the three flows (\<^verbatim>\<open>update-product\<close>, \<^verbatim>\<open>add-po-item\<close>,
  \<^verbatim>\<open>update-purchase-order\<close>) caching is switched on again as soon as the intervening
  fetch has returned a value: whenever the fetch succeeds, the flag \<^verbatim>\<open>cacheDisabled\<close> is
  false and the cache is enabled after the flow has returned or thrown, also when the
  write that follows throws. When the fetch throws, the flow throws the same error and
  caching is still disabled.
\<close>

theorem flows_reenable_after_fetch:
  "(update_product D i name sku description cost price st \<noteq> None
    \<and> add_po_item D i productId quantity unitCost st \<noteq> None
    \<and> update_purchase_order D i remarks orderDate expectedDate carrier currency st \<noteq> None)
 \<and> ((\<forall>e st2. getProduct D i None (disableCache st) = Some (Inl e, st2) \<longrightarrow>
       update_product D i name sku description cost price st = Some (Inl e, st2)
       \<and> cacheDisabled st2 \<and> \<not> enabled (cache st2))
  \<and> (\<forall>current st2 r st'.
       getProduct D i None (disableCache st) = Some (Inr current, st2)
       \<and> update_product D i name sku description cost price st = Some (r, st') \<longrightarrow>
       \<not> cacheDisabled st' \<and> enabled (cache st')))
 \<and> ((\<forall>e st2. getPurchaseOrder D i (Some [''lines'']) (disableCache st) = Some (Inl e, st2) \<longrightarrow>
       add_po_item D i productId quantity unitCost st = Some (Inl e, st2)
       \<and> cacheDisabled st2 \<and> \<not> enabled (cache st2))
  \<and> (\<forall>currentPO st2 r st'.
       getPurchaseOrder D i (Some [''lines'']) (disableCache st) = Some (Inr currentPO, st2)
       \<and> add_po_item D i productId quantity unitCost st = Some (r, st') \<longrightarrow>
       \<not> cacheDisabled st' \<and> enabled (cache st')))
 \<and> ((\<forall>e st2. getPurchaseOrder D i (Some [''lines'']) (disableCache st) = Some (Inl e, st2) \<longrightarrow>
       update_purchase_order D i remarks orderDate expectedDate carrier currency st = Some (Inl e, st2)
       \<and> cacheDisabled st2 \<and> \<not> enabled (cache st2))
  \<and> (\<forall>currentPO st2 r st'.
       getPurchaseOrder D i (Some [''lines'']) (disableCache st) = Some (Inr currentPO, st2)
       \<and> update_purchase_order D i remarks orderDate expectedDate carrier currency st = Some (r, st') \<longrightarrow>
       \<not> cacheDisabled st' \<and> enabled (cache st')))"
  by (intro conjI update_product_returns add_po_item_returns update_purchase_order_returns
        update_product_switch [THEN conjunct1] update_product_switch [THEN conjunct2]
        add_po_item_switch [THEN conjunct1] add_po_item_switch [THEN conjunct2]
        update_purchase_order_switch [THEN conjunct1] update_purchase_order_switch [THEN conjunct2])

theorem flows_reenable_after_fetch_witness:
  "fst (the (getProduct demo ''P1'' None (disableCache fresh_state))) =
     Inr (JObj [(''name'', JStr ''Pallet''), (''timestamp'', JStr ''t1'')])
   \<and> fst (the (update_product demo ''P1'' (Some ''Crate'') None None None None fresh_state)) =
       Inr (JStr ''done'')
   \<and> \<not> cacheDisabled (snd (the (update_product demo ''P1'' (Some ''Crate'') None None None None fresh_state)))
   \<and> enabled (cache (snd (the (update_product demo ''P1'' (Some ''Crate'') None None None None fresh_state))))
   \<and> fst (the (getPurchaseOrder demo_down ''PO1'' (Some [''lines'']) (disableCache fresh_state))) =
       Inl (Error ''Service unavailable'')
   \<and> fst (the (add_po_item demo_down ''PO1'' ''P1'' 2 None fresh_state)) =
       Inl (Error ''Service unavailable'')
   \<and> cacheDisabled (snd (the (add_po_item demo_down ''PO1'' ''P1'' 2 None fresh_state)))"
proof -
  let ?st2 = "(disableCache fresh_state)\<lparr>connected := True,
      calls := calls (disableCache fresh_state) @ [(''get_product'', [(''productId'', JStr ''P1'')])],
      clock := clock (disableCache fresh_state) + 1\<rparr>"
  let ?st3 = "(disableCache fresh_state)\<lparr>connected := True,
      calls := calls (disableCache fresh_state) @
        [(''get_purchase_order'', [(''purchaseOrderId'', JStr ''PO1''), (''include'', JArr [JStr ''lines''])])],
      clock := clock (disableCache fresh_state) + 1\<rparr>"
  have g: "getProduct demo ''P1'' None (disableCache fresh_state) =
      Some (Inr (JObj [(''name'', JStr ''Pallet''), (''timestamp'', JStr ''t1'')]), ?st2)"
    by (simp add: getProduct_def Let_def getOrFetch_def returns_def callTool_demo
          disableCache_def disable_def fresh_state_def demo_text_def demo_parse_def)
  have u: "update_product demo ''P1'' (Some ''Crate'') None None None None fresh_state =
      Some (upsertProduct demo
              [(''id'', JStr ''P1''), (''name'', JStr ''Crate''), (''timestamp'', JStr ''t1'')]
              (enableCache ?st2))"
    by (simp add: update_product_def g Let_def)
  have r: "fst (upsertProduct demo data s) = Inr (JStr ''done'')" for data s
    by (simp add: upsertProduct_def callTool_demo demo_text_def demo_parse_def)
  have p: "getPurchaseOrder demo_down ''PO1'' (Some [''lines'']) (disableCache fresh_state) =
      Some (Inl (Error ''Service unavailable''), ?st3)"
    by (simp add: getPurchaseOrder_def Let_def getOrFetch_def returns_def callTool_demo_down
          disableCache_def disable_def fresh_state_def)
  obtain r' st' where o: "upsertProduct demo
              [(''id'', JStr ''P1''), (''name'', JStr ''Crate''), (''timestamp'', JStr ''t1'')]
              (enableCache ?st2) = (r', st')"
    by (cases "upsertProduct demo
              [(''id'', JStr ''P1''), (''name'', JStr ''Crate''), (''timestamp'', JStr ''t1'')]
              (enableCache ?st2)") blast
  have r'': "r' = Inr (JStr ''done'')"
    using r [of "[(''id'', JStr ''P1''), (''name'', JStr ''Crate''), (''timestamp'', JStr ''t1'')]"
               "enableCache ?st2"] o by simp
  have uo: "update_product demo ''P1'' (Some ''Crate'') None None None None fresh_state = Some (r', st')"
    using u o by simp
  note inst1 = flows_reenable_after_fetch [where D = demo and i = "''P1''" and st = fresh_state
      and name = "Some ''Crate''" and sku = None and description = None and cost = None
      and price = None and productId = "''P1''" and quantity = 2 and unitCost = None
      and remarks = None and orderDate = None and expectedDate = None and carrier = None
      and currency = None]
  note inst2 = flows_reenable_after_fetch [where D = demo_down and i = "''PO1''" and st = fresh_state
      and name = None and sku = None and description = None and cost = None
      and price = None and productId = "''P1''" and quantity = 2 and unitCost = None
      and remarks = None and orderDate = None and expectedDate = None and carrier = None
      and currency = None]
  have a: "\<not> cacheDisabled st' \<and> enabled (cache st')"
    using inst1 [THEN conjunct2, THEN conjunct1, THEN conjunct2] g uo by blast
  have b: "add_po_item demo_down ''PO1'' ''P1'' 2 None fresh_state =
             Some (Inl (Error ''Service unavailable''), ?st3) \<and> cacheDisabled ?st3"
    using inst2 [THEN conjunct2, THEN conjunct2, THEN conjunct1, THEN conjunct1] p by blast
  show ?thesis
    using g uo r'' a b p by simp
qed

section \<open>The normalisation of the concrete runs\<close>

lemma of_char_demo_upper:
  "(of_char (demo_upper c) :: nat) =
     (if demo_lower (of_char c) then of_char c - 32 else of_char c)"
  by (auto simp: demo_upper_def demo_lower_def)

lemma demo_space_upper: "demo_space (demo_upper c) = demo_space c"
  unfolding demo_space_def of_char_demo_upper demo_lower_def by auto

lemma demo_upper_idem: "demo_upper (demo_upper c) = demo_upper c"
proof -
  have "(of_char (demo_upper (demo_upper c)) :: nat) = of_char (demo_upper c)"
    unfolding of_char_demo_upper demo_lower_def by auto
  then show ?thesis by (rule of_char_eqI)
qed

lemma dropWhile_map_upper:
  "dropWhile demo_space (map demo_upper s) = map demo_upper (dropWhile demo_space s)"
  by (induction s) (auto simp: demo_space_upper)

lemma demo_trim_upper: "demo_trim (demo_toUpperCase s) = demo_toUpperCase (demo_trim s)"
  by (simp add: demo_trim_def demo_toUpperCase_def dropWhile_map_upper rev_map)

lemma dropWhile_rev_stable:
  assumes "t = [] \<or> \<not> P (hd t)"
  shows "dropWhile P (rev (dropWhile P (rev t))) = rev (dropWhile P (rev t))"
proof (cases t)
  case Nil
  then show ?thesis by simp
next
  case (Cons x xs)
  with assms have nP: "\<not> P x" by simp
  have "rev (dropWhile P (rev (x # xs))) = x # rev (dropWhile P (rev xs)) \<or>
        rev (dropWhile P (rev (x # xs))) = [x]"
    using nP by (auto simp: dropWhile_append)
  then show ?thesis using Cons nP by auto
qed

lemma demo_trim_idem: "demo_trim (demo_trim s) = demo_trim s"
proof -
  have "dropWhile demo_space (rev (dropWhile demo_space (rev (dropWhile demo_space s)))) =
        rev (dropWhile demo_space (rev (dropWhile demo_space s)))"
    by (rule dropWhile_rev_stable) (metis hd_dropWhile)
  then show ?thesis by (simp add: demo_trim_def)
qed

lemma demo_toUpperCase_idem: "demo_toUpperCase (demo_toUpperCase s) = demo_toUpperCase s"
  by (simp add: demo_toUpperCase_def demo_upper_idem)

lemma demo_trim_fixed: "demo_trim (demo_toUpperCase (demo_trim s)) = demo_toUpperCase (demo_trim s)"
  by (simp add: demo_trim_upper demo_trim_idem)

section \<open>The index keeps the first occurrence\<close>

lemma map_of_set_key: "map_of (set_key k v idx) k' = (if k' = k then Some v else map_of idx k')"
  by (induction idx) auto

lemma keys_set_key: "fst ` set (set_key k v idx) = insert k (fst ` set idx)"
  by (induction idx) auto

lemma truthy_make_entry: "truthy (make_entry order line k)"
  by (simp add: make_entry_def)

text \<open>
  The invariant of the loops: started on an index \<open>idx0\<close> whose entries are all truthy,
  a loop that completes leaves an index that reads, at every key, as \<open>idx0\<close> followed by
  the assignments of the occurrences the loop went through, the first pair for the key
  being the one read; its entries are truthy again and its new keys are normalised.
\<close>

lemma extractFromLines_serials_first:
  assumes "extractFromLines_serials D order line sns idx0 = Inr idx"
      and "\<forall>k v. map_of idx0 k = Some v \<longrightarrow> truthy v"
  shows "(\<forall>k. map_of idx k = map_of (idx0 @ map written (serial_occurrences D order line sns)) k)
       \<and> (\<forall>k v. map_of idx k = Some v \<longrightarrow> truthy v)
       \<and> fst ` set idx \<subseteq> fst ` set idx0 \<union> range (normalize_serial D)"
  using assms
proof (induction sns arbitrary: idx0)
  case Nil
  then show ?case by auto
next
  case (Cons serial rest)
  show ?case
  proof (cases "truthy serial")
    case False
    with Cons.prems have "extractFromLines_serials D order line rest idx0 = Inr idx" by simp
    from Cons.IH [OF this Cons.prems(2)]
    have "(\<forall>k. map_of idx k = map_of (idx0 @ map written (serial_occurrences D order line rest)) k)
       \<and> (\<forall>k v. map_of idx k = Some v \<longrightarrow> truthy v)
       \<and> fst ` set idx \<subseteq> fst ` set idx0 \<union> range (normalize_serial D)" .
    moreover have "serial_occurrences D order line (serial # rest) = serial_occurrences D order line rest"
      using False by (cases serial) simp_all
    ultimately show ?thesis by simp
  next
    case True
    with Cons.prems obtain s where s: "serial = JStr s" "s \<noteq> []"
      by (cases serial) auto
    let ?k = "normalize_serial D s"
    let ?e = "make_entry order line ?k"
    have occ: "map written (serial_occurrences D order line (serial # rest)) =
                 (?k, ?e) # map written (serial_occurrences D order line rest)"
      using s by simp
    show ?thesis
    proof (cases "map_of idx0 ?k")
      case None
      let ?idx1 = "set_key ?k ?e idx0"
      from Cons.prems s None have run: "extractFromLines_serials D order line rest ?idx1 = Inr idx"
        by (simp add: Let_def)
      have inv: "\<forall>k v. map_of ?idx1 k = Some v \<longrightarrow> truthy v"
        using Cons.prems(2) by (simp add: map_of_set_key truthy_make_entry)
      from Cons.IH [OF run inv]
      have ih1: "\<forall>k. map_of idx k = map_of (?idx1 @ map written (serial_occurrences D order line rest)) k"
       and ih2: "\<forall>k v. map_of idx k = Some v \<longrightarrow> truthy v"
       and ih3: "fst ` set idx \<subseteq> fst ` set ?idx1 \<union> range (normalize_serial D)"
        by blast+
      have "map_of idx k = map_of (idx0 @ (?k, ?e) # map written (serial_occurrences D order line rest)) k" for k
        using ih1 None by (simp add: map_add_def map_of_set_key split: option.splits)
      moreover have "fst ` set idx \<subseteq> fst ` set idx0 \<union> range (normalize_serial D)"
        using ih3 by (auto simp: keys_set_key)
      ultimately show ?thesis using ih2 occ by simp
    next
      case (Some v)
      with Cons.prems(2) have "truthy v" by blast
      with Cons.prems s Some have run: "extractFromLines_serials D order line rest idx0 = Inr idx"
        by (simp add: Let_def)
      from Cons.IH [OF run Cons.prems(2)]
      have ih1: "\<forall>k. map_of idx k = map_of (idx0 @ map written (serial_occurrences D order line rest)) k"
       and ih2: "\<forall>k v. map_of idx k = Some v \<longrightarrow> truthy v"
       and ih3: "fst ` set idx \<subseteq> fst ` set idx0 \<union> range (normalize_serial D)"
        by blast+
      have "map_of idx k = map_of (idx0 @ (?k, ?e) # map written (serial_occurrences D order line rest)) k" for k
        using ih1 Some by (simp add: map_add_def split: option.splits)
      then show ?thesis using ih2 ih3 occ by simp
    qed
  qed
qed

lemma subset_chain: "A \<subseteq> B \<union> R \<Longrightarrow> B \<subseteq> C \<union> R \<Longrightarrow> A \<subseteq> C \<union> R"
  by blast

lemma map_of_append_cong:
  "\<forall>k. map_of a k = map_of b k \<Longrightarrow> map_of (a @ c) k = map_of (b @ c) k"
  by (simp add: map_add_def)

lemma extractFromLines_lines_first:
  assumes "extractFromLines_lines D order ls idx0 = Inr idx"
      and "\<forall>k v. map_of idx0 k = Some v \<longrightarrow> truthy v"
  shows "(\<forall>k. map_of idx k = map_of (idx0 @ map written (line_occurrences D order ls)) k)
       \<and> (\<forall>k v. map_of idx k = Some v \<longrightarrow> truthy v)
       \<and> fst ` set idx \<subseteq> fst ` set idx0 \<union> range (normalize_serial D)"
  using assms
proof (induction ls arbitrary: idx0)
  case Nil
  then show ?case by auto
next
  case (Cons line rest)
  from Cons.prems have nn: "line \<noteq> JNull" by (auto split: if_splits)
  show ?case
  proof (cases "\<exists>sns. opt_member ''serialNumbers'' (getp ''quantity'' line) = Some (JArr sns)")
    case True
    then obtain sns where sns: "opt_member ''serialNumbers'' (getp ''quantity'' line) = Some (JArr sns)"
      by blast
    with Cons.prems nn obtain idx1 where
      one: "extractFromLines_serials D order line sns idx0 = Inr idx1" and
      two: "extractFromLines_lines D order rest idx1 = Inr idx"
      by (auto split: sum.splits)
    from extractFromLines_serials_first [OF one Cons.prems(2)]
    have a: "\<forall>k. map_of idx1 k = map_of (idx0 @ map written (serial_occurrences D order line sns)) k"
      and b: "\<forall>k v. map_of idx1 k = Some v \<longrightarrow> truthy v"
      and c: "fst ` set idx1 \<subseteq> fst ` set idx0 \<union> range (normalize_serial D)"
      by blast+
    from Cons.IH [OF two b]
    have ih1: "\<forall>k. map_of idx k = map_of (idx1 @ map written (line_occurrences D order rest)) k"
     and ih2: "\<forall>k v. map_of idx k = Some v \<longrightarrow> truthy v"
     and ih3: "fst ` set idx \<subseteq> fst ` set idx1 \<union> range (normalize_serial D)"
      by blast+
    have occ: "line_occurrences D order (line # rest) =
                 serial_occurrences D order line sns @ line_occurrences D order rest"
      using sns by simp
    have "map_of idx k = map_of (idx0 @ map written (line_occurrences D order (line # rest))) k" for k
      using ih1 map_of_append_cong [OF a, of "map written (line_occurrences D order rest)" k] occ by simp
    moreover have "fst ` set idx \<subseteq> fst ` set idx0 \<union> range (normalize_serial D)"
      by (rule subset_chain [OF ih3 c])
    ultimately show ?thesis using ih2 by blast
  next
    case False
    have skip: "(case opt_member ''serialNumbers'' (getp ''quantity'' line) of
                  Some (JArr serialNumbers) \<Rightarrow> f serialNumbers | _ \<Rightarrow> g) = g" for f and g :: 'a
      using False by (auto split: option.splits jv.splits)
    from Cons.prems nn have run: "extractFromLines_lines D order rest idx0 = Inr idx"
      by (simp add: skip)
    have "line_occurrences D order (line # rest) = line_occurrences D order rest"
      by (simp add: skip)
    with Cons.IH [OF run Cons.prems(2)] show ?thesis by simp
  qed
qed

lemma extractFromLines_first:
  assumes "extractFromLines D lines order idx0 = Inr idx"
      and "\<forall>k v. map_of idx0 k = Some v \<longrightarrow> truthy v"
  shows "(\<forall>k. map_of idx k = map_of (idx0 @ map written (source_occurrences D order lines)) k)
       \<and> (\<forall>k v. map_of idx k = Some v \<longrightarrow> truthy v)
       \<and> fst ` set idx \<subseteq> fst ` set idx0 \<union> range (normalize_serial D)"
proof -
  from assms(1) obtain ls where ls: "iter_lines lines = Inr ls"
    and run: "extractFromLines_lines D order ls idx0 = Inr idx"
    by (auto simp: extractFromLines_def split: sum.splits)
  from extractFromLines_lines_first [OF run assms(2)] ls show ?thesis
    by (simp add: source_occurrences_def)
qed

lemma indexOrders_Cons:
  assumes "indexOrders D (order # rest) idx0 = Inr idx"
  shows "\<exists>i1 i2 i3.
           extractFromLines D (getp ''packLines'' order) order idx0 = Inr i1
         \<and> extractFromLines D (getp ''pickLines'' order) order i1 = Inr i2
         \<and> extractFromLines D (getp ''lines'' order) order i2 = Inr i3
         \<and> indexOrders D rest i3 = Inr idx"
proof (cases "extractFromLines D (getp ''packLines'' order) order idx0")
  case (Inl e)
  with assms show ?thesis by (simp split: if_splits)
next
  case i1: (Inr i1)
  show ?thesis
  proof (cases "extractFromLines D (getp ''pickLines'' order) order i1")
    case (Inl e)
    with assms i1 show ?thesis by (simp split: if_splits)
  next
    case i2: (Inr i2)
    show ?thesis
    proof (cases "extractFromLines D (getp ''lines'' order) order i2")
      case (Inl e)
      with assms i1 i2 show ?thesis by (simp split: if_splits)
    next
      case i3: (Inr i3)
      with assms i1 i2 show ?thesis by (simp split: if_splits)
    qed
  qed
qed

lemma indexOrders_first:
  assumes "indexOrders D allOrders idx0 = Inr idx"
      and "\<forall>k v. map_of idx0 k = Some v \<longrightarrow> truthy v"
  shows "(\<forall>k. map_of idx k = map_of (idx0 @ map written (occurrences D allOrders)) k)
       \<and> (\<forall>k v. map_of idx k = Some v \<longrightarrow> truthy v)
       \<and> fst ` set idx \<subseteq> fst ` set idx0 \<union> range (normalize_serial D)"
  using assms
proof (induction allOrders arbitrary: idx0)
  case Nil
  then show ?case by (simp add: occurrences_def)
next
  case (Cons order rest)
  from indexOrders_Cons [OF Cons.prems(1)] obtain i1 i2 i3 where
    s1: "extractFromLines D (getp ''packLines'' order) order idx0 = Inr i1" and
    s2: "extractFromLines D (getp ''pickLines'' order) order i1 = Inr i2" and
    s3: "extractFromLines D (getp ''lines'' order) order i2 = Inr i3" and
    s4: "indexOrders D rest i3 = Inr idx"
    by blast
  let ?o1 = "map written (source_occurrences D order (getp ''packLines'' order))"
  let ?o2 = "map written (source_occurrences D order (getp ''pickLines'' order))"
  let ?o3 = "map written (source_occurrences D order (getp ''lines'' order))"
  note f1 = extractFromLines_first [OF s1 Cons.prems(2)]
  have a1: "\<forall>k. map_of i1 k = map_of (idx0 @ ?o1) k" by (rule f1 [THEN conjunct1])
  have b1: "\<forall>k v. map_of i1 k = Some v \<longrightarrow> truthy v" by (rule f1 [THEN conjunct2, THEN conjunct1])
  have c1: "fst ` set i1 \<subseteq> fst ` set idx0 \<union> range (normalize_serial D)"
    by (rule f1 [THEN conjunct2, THEN conjunct2])
  note f2 = extractFromLines_first [OF s2 b1]
  have a2: "\<forall>k. map_of i2 k = map_of (i1 @ ?o2) k" by (rule f2 [THEN conjunct1])
  have b2: "\<forall>k v. map_of i2 k = Some v \<longrightarrow> truthy v" by (rule f2 [THEN conjunct2, THEN conjunct1])
  have c2: "fst ` set i2 \<subseteq> fst ` set i1 \<union> range (normalize_serial D)"
    by (rule f2 [THEN conjunct2, THEN conjunct2])
  note f3 = extractFromLines_first [OF s3 b2]
  have a3: "\<forall>k. map_of i3 k = map_of (i2 @ ?o3) k" by (rule f3 [THEN conjunct1])
  have b3: "\<forall>k v. map_of i3 k = Some v \<longrightarrow> truthy v" by (rule f3 [THEN conjunct2, THEN conjunct1])
  have c3: "fst ` set i3 \<subseteq> fst ` set i2 \<union> range (normalize_serial D)"
    by (rule f3 [THEN conjunct2, THEN conjunct2])
  note f4 = Cons.IH [OF s4 b3]
  have a4: "\<forall>k. map_of idx k = map_of (i3 @ map written (occurrences D rest)) k" by (rule f4 [THEN conjunct1])
  have b4: "\<forall>k v. map_of idx k = Some v \<longrightarrow> truthy v" by (rule f4 [THEN conjunct2, THEN conjunct1])
  have c4: "fst ` set idx \<subseteq> fst ` set i3 \<union> range (normalize_serial D)"
    by (rule f4 [THEN conjunct2, THEN conjunct2])
  have occ: "map written (occurrences D (order # rest)) = ?o1 @ ?o2 @ ?o3 @ map written (occurrences D rest)"
    by (simp add: occurrences_def order_occurrences_def)
  have m: "map_of idx k = map_of (idx0 @ map written (occurrences D (order # rest))) k" for k
  proof -
    have "map_of idx k = map_of (i3 @ map written (occurrences D rest)) k"
      using a4 by (rule spec)
    also have "\<dots> = map_of ((i2 @ ?o3) @ map written (occurrences D rest)) k"
      using a3 by (rule map_of_append_cong)
    also have "\<dots> = map_of (i2 @ (?o3 @ map written (occurrences D rest))) k"
      by (simp only: append_assoc)
    also have "\<dots> = map_of ((i1 @ ?o2) @ (?o3 @ map written (occurrences D rest))) k"
      using a2 by (rule map_of_append_cong)
    also have "\<dots> = map_of (i1 @ (?o2 @ ?o3 @ map written (occurrences D rest))) k"
      by (simp only: append_assoc)
    also have "\<dots> = map_of ((idx0 @ ?o1) @ (?o2 @ ?o3 @ map written (occurrences D rest))) k"
      using a1 by (rule map_of_append_cong)
    also have "\<dots> = map_of (idx0 @ map written (occurrences D (order # rest))) k"
      by (simp only: append_assoc occ)
    finally show ?thesis .
  qed
  have k: "fst ` set idx \<subseteq> fst ` set idx0 \<union> range (normalize_serial D)"
    by (rule subset_chain [OF c4 subset_chain [OF c3 subset_chain [OF c2 c1]]])
  show ?case
  proof (intro conjI)
    show "\<forall>k. map_of idx k = map_of (idx0 @ map written (occurrences D (order # rest))) k"
      by (intro allI) (rule m)
    show "\<forall>k v. map_of idx k = Some v \<longrightarrow> truthy v" by (rule b4)
    show "fst ` set idx \<subseteq> fst ` set idx0 \<union> range (normalize_serial D)" by (rule k)
  qed
qed

lemma map_of_first_occurrence:
  "k \<notin> fst ` set pre \<Longrightarrow> map_of (pre @ (k, e) # post) k = Some e"
  by (induction pre) auto

section \<open>Concrete runs of the index builder\<close>

lemma normalize_serial_demo:
  "normalize_serial demo '' abc123 '' = ''ABC123''"
  "normalize_serial demo ''ABC123'' = ''ABC123''"
  "normalize_serial demo ''abc123'' = ''ABC123''"
  "normalize_serial demo ''XYZ9'' = ''XYZ9''"
  "normalize_serial demo ''Q7'' = ''Q7''"
  "normalize_serial demo (CHR 0xA0 # ''abc123'') = ''ABC123''"
  by code_simp+

lemma normalize_serial_demo_paged: "normalize_serial demo_paged s = normalize_serial demo s"
  by (simp add: normalize_serial_def demo_paged_def)

lemma fetchOrders_demo:
  "fetchOrders demo status limit 0 [] st =
     Some (Inr [demo_order1, demo_order2],
           st\<lparr>connected := True,
              calls := calls st @
                [(''list_sales_orders'',
                  [(''status'', JStr status),
                   (''include'', JArr [JStr ''lines'', JStr ''pickLines'', JStr ''packLines'']),
                   (''count'', JNum 100), (''skip'', JNum 0)])],
              clock := clock st + 1\<rparr>)"
  by (subst fetchOrders.simps)
     (simp add: callTool_demo demo_text_def demo_parse_def orderList_of_def)

lemma demo_lines:
  "opt_member ''serialNumbers'' (getp ''quantity'' demo_line1) =
     Some (JArr [JStr '' abc123 '', JStr ''XYZ9''])"
  "opt_member ''serialNumbers'' (getp ''quantity'' demo_line2) =
     Some (JArr [JStr ''ABC123'', JStr '' abc123 ''])"
  "opt_member ''serialNumbers'' (getp ''quantity'' demo_line3) =
     Some (JArr [JStr ''abc123'', JStr ''Q7''])"
  "demo_line1 \<noteq> JNull" "demo_line2 \<noteq> JNull" "demo_line3 \<noteq> JNull"
  by (simp_all add: demo_line1_def demo_line2_def demo_line3_def)

lemma demo_orders:
  "getp ''packLines'' demo_order1 = Some (JArr [demo_line1])"
  "getp ''pickLines'' demo_order1 = None"
  "getp ''lines'' demo_order1 = Some (JArr [demo_line2])"
  "getp ''packLines'' demo_order2 = None"
  "getp ''pickLines'' demo_order2 = Some (JArr [demo_line3])"
  "getp ''lines'' demo_order2 = None"
  "demo_order1 \<noteq> JNull" "demo_order2 \<noteq> JNull"
  by (simp_all add: demo_order1_def demo_order2_def)

lemma indexOrders_demo: "indexOrders demo [demo_order1, demo_order2] [] = Inr demo_index"
  by (simp add: extractFromLines_def demo_orders demo_lines normalize_serial_demo truthy_make_entry
        demo_index_def Let_def)

lemma buildSerialIndex_demo:
  "buildSerialIndex demo None limit st =
     Some (Inr (JObj demo_index),
           st\<lparr>connected := True,
              calls := calls st @
                [(''list_sales_orders'',
                  [(''status'', JStr ''Fulfilled''),
                   (''include'', JArr [JStr ''lines'', JStr ''pickLines'', JStr ''packLines'']),
                   (''count'', JNum 100), (''skip'', JNum 0)])],
              clock := clock st + 1\<rparr>)"
  by (simp add: buildSerialIndex_def fetchOrders_demo indexOrders_demo del: indexOrders.simps)

section \<open>Concrete runs over two pages\<close>

lemma callTool_demo_paged:
  "callTool demo_paged name args st =
     (Inr (if map_of args ''skip'' = Some (JNum 0)
           then JObj [(''data'', JArr (replicate 99 demo_filler @ [demo_order2]))]
           else JObj [(''data'', JArr [demo_order1])]),
      st\<lparr>connected := True, calls := calls st @ [(name, args)], clock := clock st + 1\<rparr>)"
  by (simp add: callTool_def connect_def Let_def demo_paged_def demo_def demo_paged_sdk_def
        demo_paged_parse_def)

lemma fetchOrders_demo_paged:
  "fetchOrders demo_paged ''Fulfilled'' None 0 [] fresh_state =
     Some (Inr (replicate 99 demo_filler @ [demo_order2, demo_order1]),
           \<lparr>connected = True, cacheDisabled = False,
            cache = \<lparr>entries = [], hits = 0, misses = 0, enabled = True\<rparr>,
            clock = 2,
            calls = [(''list_sales_orders'',
                      [(''status'', JStr ''Fulfilled''),
                       (''include'', JArr [JStr ''lines'', JStr ''pickLines'', JStr ''packLines'']),
                       (''count'', JNum 100), (''skip'', JNum 0)]),
                     (''list_sales_orders'',
                      [(''status'', JStr ''Fulfilled''),
                       (''include'', JArr [JStr ''lines'', JStr ''pickLines'', JStr ''packLines'']),
                       (''count'', JNum 100), (''skip'', JNum 100)])]\<rparr>)"
  apply (subst fetchOrders.simps)
  apply (simp add: callTool_demo_paged orderList_of_def)
  apply (subst fetchOrders.simps)
  apply (simp add: callTool_demo_paged orderList_of_def fresh_state_def)
  done

lemma pages_demo_paged:
  "pages 2 demo_paged ''Fulfilled'' 0 fresh_state =
     ([replicate 99 demo_filler @ [demo_order2], [demo_order1]],
      \<lparr>connected = True, cacheDisabled = False,
       cache = \<lparr>entries = [], hits = 0, misses = 0, enabled = True\<rparr>,
       clock = 2,
       calls = [(''list_sales_orders'',
                 [(''status'', JStr ''Fulfilled''),
                  (''include'', JArr [JStr ''lines'', JStr ''pickLines'', JStr ''packLines'']),
                  (''count'', JNum 100), (''skip'', JNum 0)]),
                (''list_sales_orders'',
                 [(''status'', JStr ''Fulfilled''),
                  (''include'', JArr [JStr ''lines'', JStr ''pickLines'', JStr ''packLines'']),
                  (''count'', JNum 100), (''skip'', JNum 100)])]\<rparr>)"
  by (simp add: numeral_2_eq_2 callTool_demo_paged orderList_of_def fresh_state_def)

lemma order_occurrences_filler: "order_occurrences D demo_filler = []"
  by (simp add: order_occurrences_def source_occurrences_def demo_filler_def)

lemma occurrences_fillers: "occurrences D (replicate n demo_filler @ rest) = occurrences D rest"
  by (induction n) (simp_all add: occurrences_def order_occurrences_filler)

lemma indexOrders_fillers:
  "indexOrders D (replicate n demo_filler @ rest) idx = indexOrders D rest idx"
proof (induction n)
  case 0
  show ?case by simp
next
  case (Suc n)
  have "indexOrders D (demo_filler # replicate n demo_filler @ rest) idx =
          indexOrders D (replicate n demo_filler @ rest) idx"
    by (simp add: extractFromLines_def demo_filler_def)
  with Suc show ?case by simp
qed

lemma occurrences_demo_paged:
  "occurrences demo_paged (replicate 99 demo_filler @ [demo_order2, demo_order1]) =
     [(''ABC123'', demo_order2, demo_line3),
      (''Q7'', demo_order2, demo_line3),
      (''ABC123'', demo_order1, demo_line1),
      (''XYZ9'', demo_order1, demo_line1),
      (''ABC123'', demo_order1, demo_line2),
      (''ABC123'', demo_order1, demo_line2)]"
  unfolding occurrences_fillers
  by (simp add: occurrences_def order_occurrences_def source_occurrences_def demo_orders demo_lines
        normalize_serial_demo_paged normalize_serial_demo)

lemma make_entry_demo:
  "make_entry demo_order2 demo_line3 k =
     JObj [(''serial'', JStr k), (''salesOrderId'', JStr ''SO-2''), (''orderNumber'', JStr ''1002''),
           (''orderDate'', JStr ''2025-01-15''), (''productId'', JStr ''P2''),
           (''shopifyOrderUrl'', JNull)]"
  "make_entry demo_order1 demo_line1 k =
     JObj [(''serial'', JStr k), (''salesOrderId'', JStr ''SO-1''), (''orderNumber'', JStr ''1001''),
           (''orderDate'', JStr ''2024-03-01''), (''productId'', JStr ''P1''),
           (''shopifyOrderUrl'', JNull)]"
  by (simp_all add: make_entry_def demo_order1_def demo_order2_def demo_line1_def demo_line3_def)

lemma indexOrders_demo_paged:
  "indexOrders demo_paged (replicate 99 demo_filler @ [demo_order2, demo_order1]) [] =
     Inr [(''ABC123'', make_entry demo_order2 demo_line3 ''ABC123''),
          (''Q7'', make_entry demo_order2 demo_line3 ''Q7''),
          (''XYZ9'', make_entry demo_order1 demo_line1 ''XYZ9'')]"
  unfolding indexOrders_fillers
  by (simp add: extractFromLines_def demo_orders demo_lines normalize_serial_demo_paged
        normalize_serial_demo truthy_make_entry Let_def)

lemma buildSerialIndex_demo_paged:
  "buildSerialIndex demo_paged None None fresh_state =
     Some (Inr (JObj [(''ABC123'', make_entry demo_order2 demo_line3 ''ABC123''),
                      (''Q7'', make_entry demo_order2 demo_line3 ''Q7''),
                      (''XYZ9'', make_entry demo_order1 demo_line1 ''XYZ9'')]),
           \<lparr>connected = True, cacheDisabled = False,
            cache = \<lparr>entries = [], hits = 0, misses = 0, enabled = True\<rparr>,
            clock = 2,
            calls = [(''list_sales_orders'',
                      [(''status'', JStr ''Fulfilled''),
                       (''include'', JArr [JStr ''lines'', JStr ''pickLines'', JStr ''packLines'']),
                       (''count'', JNum 100), (''skip'', JNum 0)]),
                     (''list_sales_orders'',
                      [(''status'', JStr ''Fulfilled''),
                       (''include'', JArr [JStr ''lines'', JStr ''pickLines'', JStr ''packLines'']),
                       (''count'', JNum 100), (''skip'', JNum 100)])]\<rparr>)"
  by (simp add: buildSerialIndex_def fetchOrders_demo_paged indexOrders_demo_paged
        del: indexOrders.simps)

section \<open>The orders are collected page by page\<close>

text \<open>
  When the pagination loop returns a list of orders, it has sent some number \<open>n > 0\<close> of
  requests, all answered; the list is what it started with, followed by the \<open>n\<close> pages in
  the order of the requests, or, when the loop was left at the cap, the first \<open>m\<close> orders
  of that; the state returned is the state after the last request.
\<close>

lemma fetchOrders_pages:
  assumes "fetchOrders D status maxOrders skip allOrders st = Some y"
  shows "\<forall>result st'. y = (Inr result, st') \<longrightarrow>
           (\<exists>n ps. pages n D status skip st = (ps, st') \<and> length ps = n \<and> 0 < n
              \<and> (result = allOrders @ concat ps
                  \<or> (\<exists>m. maxOrders = Some m \<and> result = take m (allOrders @ concat ps))))"
proof (rule fetchOrders.raw_induct [where P = "\<lambda>D status maxOrders skip allOrders st y.
         \<forall>result st'. y = (Inr result, st') \<longrightarrow>
           (\<exists>n ps. pages n D status skip st = (ps, st') \<and> length ps = n \<and> 0 < n
              \<and> (result = allOrders @ concat ps
                  \<or> (\<exists>m. maxOrders = Some m \<and> result = take m (allOrders @ concat ps))))",
       OF _ assms])
  fix f :: "deps \<Rightarrow> string \<Rightarrow> nat option \<Rightarrow> nat \<Rightarrow> jv list \<Rightarrow> state \<Rightarrow> ((error + jv list) \<times> state) option"
  fix D status maxOrders skip allOrders st y
  assume ih: "\<And>D status maxOrders skip allOrders st y.
            f D status maxOrders skip allOrders st = Some y \<Longrightarrow>
            \<forall>result st'. y = (Inr result, st') \<longrightarrow>
              (\<exists>n ps. pages n D status skip st = (ps, st') \<and> length ps = n \<and> 0 < n
                 \<and> (result = allOrders @ concat ps
                     \<or> (\<exists>m. maxOrders = Some m \<and> result = take m (allOrders @ concat ps))))"
  assume body: "(case callTool D ''list_sales_orders''
             [(''status'', JStr status),
              (''include'', JArr [JStr ''lines'', JStr ''pickLines'', JStr ''packLines'']),
              (''count'', JNum 100),
              (''skip'', JNum (int skip))] st of
        (Inl e, st1) \<Rightarrow> Some (Inl e, st1)
      | (Inr result, st1) \<Rightarrow>
          (case orderList_of result of
             Inl e \<Rightarrow> Some (Inl e, st1)
           | Inr orderList \<Rightarrow>
               (if length orderList < 100 then Some (Inr (allOrders @ orderList), st1)
                else (case maxOrders of
                        None \<Rightarrow> f D status maxOrders (skip + 100) (allOrders @ orderList) st1
                      | Some m \<Rightarrow>
                          (if m \<noteq> 0 \<and> m \<le> length (allOrders @ orderList)
                           then Some (Inr (take m (allOrders @ orderList)), st1)
                           else f D status maxOrders (skip + 100)
                                  (allOrders @ orderList) st1))))) = Some y"
  show "\<forall>result st'. y = (Inr result, st') \<longrightarrow>
           (\<exists>n ps. pages n D status skip st = (ps, st') \<and> length ps = n \<and> 0 < n
              \<and> (result = allOrders @ concat ps
                  \<or> (\<exists>m. maxOrders = Some m \<and> result = take m (allOrders @ concat ps))))"
  proof (intro allI impI)
    fix result st'
    assume y: "y = (Inr result, st')"
    obtain r st1 where c: "callTool D ''list_sales_orders''
            [(''status'', JStr status),
             (''include'', JArr [JStr ''lines'', JStr ''pickLines'', JStr ''packLines'']),
             (''count'', JNum 100), (''skip'', JNum (int skip))] st = (r, st1)"
      by (meson surj_pair)
    from body c y obtain res where r: "r = Inr res"
      by (cases r) simp_all
    from body c y r obtain orderList where ol: "orderList_of res = Inr orderList"
      by (cases "orderList_of res") simp_all
    have one: "pages (Suc 0) D status skip st = ([orderList], st1)"
      using c r ol by simp
    have more: "\<exists>n ps. pages n D status skip st = (ps, st') \<and> length ps = n \<and> 0 < n
              \<and> (result = allOrders @ concat ps
                  \<or> (\<exists>m. maxOrders = Some m \<and> result = take m (allOrders @ concat ps)))"
      if run: "f D status maxOrders (skip + 100) (allOrders @ orderList) st1 = Some y"
    proof -
      from ih [OF run] y obtain n ps where
        p: "pages n D status (skip + 100) st1 = (ps, st')" and l: "length ps = n" and
        q: "result = (allOrders @ orderList) @ concat ps
            \<or> (\<exists>m. maxOrders = Some m \<and> result = take m ((allOrders @ orderList) @ concat ps))"
        by blast
      have "pages (Suc n) D status skip st = (orderList # ps, st')"
        using c r ol p by simp
      moreover have "length (orderList # ps) = Suc n" using l by simp
      moreover have "result = allOrders @ concat (orderList # ps)
            \<or> (\<exists>m. maxOrders = Some m \<and> result = take m (allOrders @ concat (orderList # ps)))"
        using q by simp
      ultimately show ?thesis by blast
    qed
    show "\<exists>n ps. pages n D status skip st = (ps, st') \<and> length ps = n \<and> 0 < n
              \<and> (result = allOrders @ concat ps
                  \<or> (\<exists>m. maxOrders = Some m \<and> result = take m (allOrders @ concat ps)))"
    proof (cases "length orderList < 100")
      case True
      with body c y r ol have "result = allOrders @ concat [orderList]" and "st' = st1" by simp_all
      with one show ?thesis by (intro exI [of _ "Suc 0"] exI [of _ "[orderList]"]) simp
    next
      case False
      show ?thesis
      proof (cases maxOrders)
        case None
        with body c r ol False
        have "f D status maxOrders (skip + 100) (allOrders @ orderList) st1 = Some y" by simp
        then show ?thesis by (rule more)
      next
        case (Some m)
        show ?thesis
        proof (cases "m \<noteq> 0 \<and> m \<le> length (allOrders @ orderList)")
          case True
          with body c y r ol False Some
          have "result = take m (allOrders @ concat [orderList])" and "st' = st1" by simp_all
          with one Some show ?thesis by (intro exI [of _ "Suc 0"] exI [of _ "[orderList]"]) simp
        next
          case nm: False
          with body c r ol False Some
          have "f D status maxOrders (skip + 100) (allOrders @ orderList) st1 = Some y" by auto
          then show ?thesis by (rule more)
        qed
      qed
    qed
  qed
qed

section \<open>First writer wins\<close>

lemma map_of_literal_Cons:
  "map_of (literal ((k', v) # kvs)) k = (if k' = k \<and> v \<noteq> None then v else map_of (literal kvs) k)"
  by (cases v) auto

lemma keys_written: "fst ` set (map written occs) = fst ` set occs"
  by (induction occs) auto

lemma make_entry_fields:
  "getp ''serial'' (make_entry order line k) = Some (JStr k)"
  "getp ''salesOrderId'' (make_entry order line k) = getp ''salesOrderId'' order"
  "getp ''orderNumber'' (make_entry order line k) = getp ''orderNumber'' order"
  "getp ''orderDate'' (make_entry order line k) = getp ''orderDate'' order"
  "getp ''productId'' (make_entry order line k) = getp ''productId'' line"
  "getp ''shopifyOrderUrl'' (make_entry order line k) =
     Some (or_default (opt_member ''custom4'' (getp ''customFields'' order)) JNull)"
  by (simp_all add: make_entry_def map_of_literal_Cons del: literal.simps(2,3))

text \<open>
  C1. When \<^verbatim>\<open>buildSerialIndex\<close> returns an index, the pagination loop has sent \<open>n > 0\<close>
  requests and has returned the list \<open>allOrders\<close>: the pages of these requests, one after
  the other in the order of the requests (cut to the cap when the loop was left there).
  The occurrences of serial numbers in \<open>allOrders\<close> are taken in processing order (orders
  as they stand in \<open>allOrders\<close>, within an order pack lines, then pick lines, then order
  lines). A key that no occurrence has is not in the index. An occurrence whose key no
  earlier occurrence has gives the entry of the index at that key, whatever follows: the
  entry carries the key as its serial, the identifier, the number and the date of the
  order of that occurrence, and the product of its line. The statement does not compare
  order dates; an entry only carries the date of its order.
\<close>

theorem buildSerialIndex_first_writer_wins:
  assumes "buildSerialIndex D status limit st = Some (Inr index, st')"
  shows "\<exists>n ps allOrders.
           fetchOrders D (str_or status ''Fulfilled'') limit 0 [] st = Some (Inr allOrders, st')
         \<and> pages n D (str_or status ''Fulfilled'') 0 st = (ps, st') \<and> length ps = n \<and> 0 < n
         \<and> (allOrders = concat ps \<or> (\<exists>m. limit = Some m \<and> allOrders = take m (concat ps)))
         \<and> (\<forall>k. k \<notin> fst ` set (occurrences D allOrders) \<longrightarrow> getp k index = None)
         \<and> (\<forall>k order line pre post.
               occurrences D allOrders = pre @ (k, order, line) # post \<and> k \<notin> fst ` set pre \<longrightarrow>
               (\<exists>e. getp k index = Some e
                  \<and> getp ''serial'' e = Some (JStr k)
                  \<and> getp ''salesOrderId'' e = getp ''salesOrderId'' order
                  \<and> getp ''orderNumber'' e = getp ''orderNumber'' order
                  \<and> getp ''orderDate'' e = getp ''orderDate'' order
                  \<and> getp ''productId'' e = getp ''productId'' line
                  \<and> getp ''shopifyOrderUrl'' e =
                      Some (or_default (opt_member ''custom4'' (getp ''customFields'' order)) JNull)))"
proof -
  from assms obtain allOrders serialIndex where
    f: "fetchOrders D (str_or status ''Fulfilled'') limit 0 [] st = Some (Inr allOrders, st')" and
    i: "indexOrders D allOrders [] = Inr serialIndex" and
    j: "index = JObj serialIndex"
    by (auto simp: buildSerialIndex_def split: option.splits sum.splits)
  from fetchOrders_pages [OF f] obtain n ps where
    p: "pages n D (str_or status ''Fulfilled'') 0 st = (ps, st')" and
    l: "length ps = n" and n: "0 < n" and
    q: "allOrders = concat ps \<or> (\<exists>m. limit = Some m \<and> allOrders = take m (concat ps))"
    by auto
  have "\<forall>k v. map_of [] k = Some v \<longrightarrow> truthy v" by simp
  from indexOrders_first [OF i this]
  have m: "\<forall>k. map_of serialIndex k = map_of (map written (occurrences D allOrders)) k" by simp
  have absent: "getp k index = None" if "k \<notin> fst ` set (occurrences D allOrders)" for k
  proof -
    have "k \<notin> fst ` set (map written (occurrences D allOrders))"
      unfolding keys_written by (rule that)
    then have "map_of (map written (occurrences D allOrders)) k = None"
      by (rule iffD2 [OF map_of_eq_None_iff])
    with m j show ?thesis by simp
  qed
  have first: "\<exists>e. getp k index = Some e
                  \<and> getp ''serial'' e = Some (JStr k)
                  \<and> getp ''salesOrderId'' e = getp ''salesOrderId'' order
                  \<and> getp ''orderNumber'' e = getp ''orderNumber'' order
                  \<and> getp ''orderDate'' e = getp ''orderDate'' order
                  \<and> getp ''productId'' e = getp ''productId'' line
                  \<and> getp ''shopifyOrderUrl'' e =
                      Some (or_default (opt_member ''custom4'' (getp ''customFields'' order)) JNull)"
    if "occurrences D allOrders = pre @ (k, order, line) # post \<and> k \<notin> fst ` set pre"
    for k order line pre post
  proof -
    from that have eq: "occurrences D allOrders = pre @ (k, order, line) # post"
      and nk: "k \<notin> fst ` set pre"
      by (rule conjunct1, rule conjunct2)
    have nk': "k \<notin> fst ` set (map written pre)" unfolding keys_written by (rule nk)
    have "map_of serialIndex k = map_of (map written (occurrences D allOrders)) k"
      using m by (rule spec)
    also have "\<dots> = map_of (map written pre @ (k, make_entry order line k) # map written post) k"
      by (simp add: eq)
    also have "\<dots> = Some (make_entry order line k)"
      using nk' by (rule map_of_first_occurrence)
    finally have "getp k index = Some (make_entry order line k)" using j by simp
    then show ?thesis by (simp add: make_entry_fields)
  qed
  show ?thesis
  proof (intro exI conjI)
    show "fetchOrders D (str_or status ''Fulfilled'') limit 0 [] st = Some (Inr allOrders, st')"
      by (rule f)
    show "pages n D (str_or status ''Fulfilled'') 0 st = (ps, st')" by (rule p)
    show "length ps = n" by (rule l)
    show "0 < n" by (rule n)
    show "allOrders = concat ps \<or> (\<exists>m. limit = Some m \<and> allOrders = take m (concat ps))"
      by (rule q)
    show "\<forall>k. k \<notin> fst ` set (occurrences D allOrders) \<longrightarrow> getp k index = None"
      by (intro allI impI) (rule absent)
    show "\<forall>k order line pre post.
               occurrences D allOrders = pre @ (k, order, line) # post \<and> k \<notin> fst ` set pre \<longrightarrow>
               (\<exists>e. getp k index = Some e
                  \<and> getp ''serial'' e = Some (JStr k)
                  \<and> getp ''salesOrderId'' e = getp ''salesOrderId'' order
                  \<and> getp ''orderNumber'' e = getp ''orderNumber'' order
                  \<and> getp ''orderDate'' e = getp ''orderDate'' order
                  \<and> getp ''productId'' e = getp ''productId'' line
                  \<and> getp ''shopifyOrderUrl'' e =
                      Some (or_default (opt_member ''custom4'' (getp ''customFields'' order)) JNull))"
      by (intro allI impI) (rule first)
  qed
qed

text \<open>
  The run over two pages: the serial number \<^verbatim>\<open>ABC123\<close> is listed by the last order of
  the first page and, in three spellings, by the order of the second page, which has the
  earlier date. The entry of the index is that of the order of the first page.
\<close>

theorem buildSerialIndex_first_writer_wins_witness:
  "pages 2 demo_paged ''Fulfilled'' 0 fresh_state =
     ([replicate 99 demo_filler @ [demo_order2], [demo_order1]],
      \<lparr>connected = True, cacheDisabled = False,
            cache = \<lparr>entries = [], hits = 0, misses = 0, enabled = True\<rparr>,
            clock = 2,
            calls = [(''list_sales_orders'',
                      [(''status'', JStr ''Fulfilled''),
                       (''include'', JArr [JStr ''lines'', JStr ''pickLines'', JStr ''packLines'']),
                       (''count'', JNum 100), (''skip'', JNum 0)]),
                     (''list_sales_orders'',
                      [(''status'', JStr ''Fulfilled''),
                       (''include'', JArr [JStr ''lines'', JStr ''pickLines'', JStr ''packLines'']),
                       (''count'', JNum 100), (''skip'', JNum 100)])]\<rparr>)
   \<and> buildSerialIndex demo_paged None None fresh_state =
       Some (Inr (JObj [(''ABC123'',
                JObj [(''serial'', JStr ''ABC123''), (''salesOrderId'', JStr ''SO-2''),
                      (''orderNumber'', JStr ''1002''), (''orderDate'', JStr ''2025-01-15''),
                      (''productId'', JStr ''P2''), (''shopifyOrderUrl'', JNull)]),
               (''Q7'',
                JObj [(''serial'', JStr ''Q7''), (''salesOrderId'', JStr ''SO-2''),
                      (''orderNumber'', JStr ''1002''), (''orderDate'', JStr ''2025-01-15''),
                      (''productId'', JStr ''P2''), (''shopifyOrderUrl'', JNull)]),
               (''XYZ9'',
                JObj [(''serial'', JStr ''XYZ9''), (''salesOrderId'', JStr ''SO-1''),
                      (''orderNumber'', JStr ''1001''), (''orderDate'', JStr ''2024-03-01''),
                      (''productId'', JStr ''P1''), (''shopifyOrderUrl'', JNull)])]),
             \<lparr>connected = True, cacheDisabled = False,
            cache = \<lparr>entries = [], hits = 0, misses = 0, enabled = True\<rparr>,
            clock = 2,
            calls = [(''list_sales_orders'',
                      [(''status'', JStr ''Fulfilled''),
                       (''include'', JArr [JStr ''lines'', JStr ''pickLines'', JStr ''packLines'']),
                       (''count'', JNum 100), (''skip'', JNum 0)]),
                     (''list_sales_orders'',
                      [(''status'', JStr ''Fulfilled''),
                       (''include'', JArr [JStr ''lines'', JStr ''pickLines'', JStr ''packLines'']),
                       (''count'', JNum 100), (''skip'', JNum 100)])]\<rparr>)
   \<and> occurrences demo_paged (replicate 99 demo_filler @ [demo_order2, demo_order1]) =
       [] @ (''ABC123'', demo_order2, demo_line3) #
            [(''Q7'', demo_order2, demo_line3),
             (''ABC123'', demo_order1, demo_line1),
             (''XYZ9'', demo_order1, demo_line1),
             (''ABC123'', demo_order1, demo_line2),
             (''ABC123'', demo_order1, demo_line2)]
   \<and> getp ''salesOrderId'' (the (getp ''ABC123'' (JObj [(''ABC123'',
                JObj [(''serial'', JStr ''ABC123''), (''salesOrderId'', JStr ''SO-2''),
                      (''orderNumber'', JStr ''1002''), (''orderDate'', JStr ''2025-01-15''),
                      (''productId'', JStr ''P2''), (''shopifyOrderUrl'', JNull)]),
               (''Q7'',
                JObj [(''serial'', JStr ''Q7''), (''salesOrderId'', JStr ''SO-2''),
                      (''orderNumber'', JStr ''1002''), (''orderDate'', JStr ''2025-01-15''),
                      (''productId'', JStr ''P2''), (''shopifyOrderUrl'', JNull)]),
               (''XYZ9'',
                JObj [(''serial'', JStr ''XYZ9''), (''salesOrderId'', JStr ''SO-1''),
                      (''orderNumber'', JStr ''1001''), (''orderDate'', JStr ''2024-03-01''),
                      (''productId'', JStr ''P1''), (''shopifyOrderUrl'', JNull)])]))) = Some (JStr ''SO-2'')
   \<and> getp ''orderDate'' (the (getp ''ABC123'' (JObj [(''ABC123'',
                JObj [(''serial'', JStr ''ABC123''), (''salesOrderId'', JStr ''SO-2''),
                      (''orderNumber'', JStr ''1002''), (''orderDate'', JStr ''2025-01-15''),
                      (''productId'', JStr ''P2''), (''shopifyOrderUrl'', JNull)]),
               (''Q7'',
                JObj [(''serial'', JStr ''Q7''), (''salesOrderId'', JStr ''SO-2''),
                      (''orderNumber'', JStr ''1002''), (''orderDate'', JStr ''2025-01-15''),
                      (''productId'', JStr ''P2''), (''shopifyOrderUrl'', JNull)]),
               (''XYZ9'',
                JObj [(''serial'', JStr ''XYZ9''), (''salesOrderId'', JStr ''SO-1''),
                      (''orderNumber'', JStr ''1001''), (''orderDate'', JStr ''2024-03-01''),
                      (''productId'', JStr ''P1''), (''shopifyOrderUrl'', JNull)])]))) = Some (JStr ''2025-01-15'')
   \<and> getp ''orderDate'' demo_order1 = Some (JStr ''2024-03-01'')"
proof -
  let ?st' = "\<lparr>connected = True, cacheDisabled = False,
            cache = \<lparr>entries = [], hits = 0, misses = 0, enabled = True\<rparr>,
            clock = 2,
            calls = [(''list_sales_orders'',
                      [(''status'', JStr ''Fulfilled''),
                       (''include'', JArr [JStr ''lines'', JStr ''pickLines'', JStr ''packLines'']),
                       (''count'', JNum 100), (''skip'', JNum 0)]),
                     (''list_sales_orders'',
                      [(''status'', JStr ''Fulfilled''),
                       (''include'', JArr [JStr ''lines'', JStr ''pickLines'', JStr ''packLines'']),
                       (''count'', JNum 100), (''skip'', JNum 100)])]\<rparr>"
  let ?index = "JObj [(''ABC123'',
                JObj [(''serial'', JStr ''ABC123''), (''salesOrderId'', JStr ''SO-2''),
                      (''orderNumber'', JStr ''1002''), (''orderDate'', JStr ''2025-01-15''),
                      (''productId'', JStr ''P2''), (''shopifyOrderUrl'', JNull)]),
               (''Q7'',
                JObj [(''serial'', JStr ''Q7''), (''salesOrderId'', JStr ''SO-2''),
                      (''orderNumber'', JStr ''1002''), (''orderDate'', JStr ''2025-01-15''),
                      (''productId'', JStr ''P2''), (''shopifyOrderUrl'', JNull)]),
               (''XYZ9'',
                JObj [(''serial'', JStr ''XYZ9''), (''salesOrderId'', JStr ''SO-1''),
                      (''orderNumber'', JStr ''1001''), (''orderDate'', JStr ''2024-03-01''),
                      (''productId'', JStr ''P1''), (''shopifyOrderUrl'', JNull)])]"
  have b: "buildSerialIndex demo_paged None None fresh_state = Some (Inr ?index, ?st')"
    by (simp add: buildSerialIndex_demo_paged make_entry_demo)
  from buildSerialIndex_first_writer_wins [OF b] obtain n ps allOrders where
    f: "fetchOrders demo_paged (str_or None ''Fulfilled'') None 0 [] fresh_state =
          Some (Inr allOrders, ?st')" and
    w: "\<forall>k order line pre post.
          occurrences demo_paged allOrders = pre @ (k, order, line) # post \<and> k \<notin> fst ` set pre \<longrightarrow>
          (\<exists>e. getp k ?index = Some e
             \<and> getp ''serial'' e = Some (JStr k)
             \<and> getp ''salesOrderId'' e = getp ''salesOrderId'' order
             \<and> getp ''orderNumber'' e = getp ''orderNumber'' order
             \<and> getp ''orderDate'' e = getp ''orderDate'' order
             \<and> getp ''productId'' e = getp ''productId'' line
             \<and> getp ''shopifyOrderUrl'' e =
                 Some (or_default (opt_member ''custom4'' (getp ''customFields'' order)) JNull))"
    by (elim exE conjE)
  from f have a: "allOrders = replicate 99 demo_filler @ [demo_order2, demo_order1]"
    by (simp add: fetchOrders_demo_paged)
  have o: "occurrences demo_paged (replicate 99 demo_filler @ [demo_order2, demo_order1]) =
       [] @ (''ABC123'', demo_order2, demo_line3) #
            [(''Q7'', demo_order2, demo_line3),
             (''ABC123'', demo_order1, demo_line1),
             (''XYZ9'', demo_order1, demo_line1),
             (''ABC123'', demo_order1, demo_line2),
             (''ABC123'', demo_order1, demo_line2)]"
    by (simp add: occurrences_demo_paged)
  from w [rule_format, of "[]" "''ABC123''" demo_order2 demo_line3] o a
  obtain e where e: "getp ''ABC123'' ?index = Some e"
    "getp ''salesOrderId'' e = getp ''salesOrderId'' demo_order2"
    "getp ''orderDate'' e = getp ''orderDate'' demo_order2"
    by auto
  have d: "getp ''salesOrderId'' demo_order2 = Some (JStr ''SO-2'')"
          "getp ''orderDate'' demo_order2 = Some (JStr ''2025-01-15'')"
          "getp ''orderDate'' demo_order1 = Some (JStr ''2024-03-01'')"
    by (simp_all add: demo_order1_def demo_order2_def)
  from e d have g: "getp ''salesOrderId'' (the (getp ''ABC123'' ?index)) = Some (JStr ''SO-2'')"
    "getp ''orderDate'' (the (getp ''ABC123'' ?index)) = Some (JStr ''2025-01-15'')"
    by simp_all
  show ?thesis
    by (intro conjI) (rule pages_demo_paged, rule b, rule o, rule g(1), rule g(2), rule d(3))
qed


section \<open>Lookups are normalised\<close>

text \<open>
  C5. Every key of an index that \<^verbatim>\<open>buildSerialIndex\<close> returns is the trimmed,
  upper-cased form of a string. It is therefore its own trimmed, upper-cased form on every
  engine whose two built-ins behave as Unicode case conversion and white space do:
  upper-casing an upper-cased string changes nothing, and upper-casing a trimmed string
  leaves nothing to trim. On one state of the process, and whatever the two built-ins
  are, \<^verbatim>\<open>searchSerial\<close> returns the same result (and leaves the same state) for any two
  queries with the same trimmed, upper-cased form.
\<close>

theorem serial_lookup_normalised:
  "(\<forall>index st'. buildSerialIndex D status limit st = Some (Inr index, st') \<longrightarrow>
      (\<exists>serialIndex. index = JObj serialIndex
         \<and> (\<forall>k \<in> fst ` set serialIndex. \<exists>s0. k = normalize_serial D s0)
         \<and> ((\<forall>t. toUpperCase D (toUpperCase D t) = toUpperCase D t)
              \<and> (\<forall>t. trim D (toUpperCase D (trim D t)) = toUpperCase D (trim D t))
             \<longrightarrow> (\<forall>k \<in> fst ` set serialIndex. normalize_serial D k = k))))
 \<and> (normalize_serial D s = normalize_serial D s' \<longrightarrow> searchSerial D s st = searchSerial D s' st)"
proof (intro conjI allI impI)
  fix index st'
  assume "buildSerialIndex D status limit st = Some (Inr index, st')"
  then obtain allOrders serialIndex where
    i: "indexOrders D allOrders [] = Inr serialIndex" and
    j: "index = JObj serialIndex"
    by (auto simp: buildSerialIndex_def split: option.splits sum.splits)
  have "\<forall>k v. map_of [] k = Some v \<longrightarrow> truthy v" by simp
  from indexOrders_first [OF i this]
  have sub: "fst ` set serialIndex \<subseteq> range (normalize_serial D)" by simp
  have form: "\<exists>s0. k = normalize_serial D s0" if "k \<in> fst ` set serialIndex" for k
    using that sub by blast
  have fixed: "normalize_serial D k = k"
    if h: "(\<forall>t. toUpperCase D (toUpperCase D t) = toUpperCase D t)
              \<and> (\<forall>t. trim D (toUpperCase D (trim D t)) = toUpperCase D (trim D t))"
      and k: "k \<in> fst ` set serialIndex" for k
  proof -
    from form [OF k] obtain s0 where s0: "k = normalize_serial D s0" by blast
    from h have h1: "toUpperCase D (toUpperCase D (trim D s0)) = toUpperCase D (trim D s0)"
      and h2: "trim D (toUpperCase D (trim D s0)) = toUpperCase D (trim D s0)"
      by simp_all
    show ?thesis unfolding s0 normalize_serial_def h2 h1 by (rule refl)
  qed
  show "\<exists>serialIndex. index = JObj serialIndex
         \<and> (\<forall>k \<in> fst ` set serialIndex. \<exists>s0. k = normalize_serial D s0)
         \<and> ((\<forall>t. toUpperCase D (toUpperCase D t) = toUpperCase D t)
              \<and> (\<forall>t. trim D (toUpperCase D (trim D t)) = toUpperCase D (trim D t))
             \<longrightarrow> (\<forall>k \<in> fst ` set serialIndex. normalize_serial D k = k))"
  proof (rule exI [of _ serialIndex], intro conjI)
    show "index = JObj serialIndex" by (rule j)
    show "\<forall>k \<in> fst ` set serialIndex. \<exists>s0. k = normalize_serial D s0"
      by (intro ballI) (rule form)
    show "(\<forall>t. toUpperCase D (toUpperCase D t) = toUpperCase D t)
              \<and> (\<forall>t. trim D (toUpperCase D (trim D t)) = toUpperCase D (trim D t))
             \<longrightarrow> (\<forall>k \<in> fst ` set serialIndex. normalize_serial D k = k)"
      by (intro impI ballI) (rule fixed)
  qed
next
  assume e: "normalize_serial D s = normalize_serial D s'"
  show "searchSerial D s st = searchSerial D s' st"
    unfolding searchSerial_def e by (rule refl)
qed

text \<open>
  On the service of the concrete runs the two built-ins behave as required, the keys of
  the index are their own normal forms, and a query is found under any of its spellings,
  also when it is padded with a no-break space.
\<close>

theorem serial_lookup_normalised_witness:
  "buildSerialIndex demo None None fresh_state =
     Some (Inr (JObj demo_index),
           fresh_state\<lparr>connected := True,
              calls := calls fresh_state @
                [(''list_sales_orders'',
                  [(''status'', JStr ''Fulfilled''),
                   (''include'', JArr [JStr ''lines'', JStr ''pickLines'', JStr ''packLines'']),
                   (''count'', JNum 100), (''skip'', JNum 0)])],
              clock := clock fresh_state + 1\<rparr>)
   \<and> map fst demo_index = [''ABC123'', ''XYZ9'', ''Q7'']
   \<and> normalize_serial demo ''ABC123'' = ''ABC123''
   \<and> normalize_serial demo ''XYZ9'' = ''XYZ9''
   \<and> normalize_serial demo ''Q7'' = ''Q7''
   \<and> normalize_serial demo ''abc123'' = normalize_serial demo ''ABC123 ''
   \<and> searchSerial demo ''abc123'' fresh_state = searchSerial demo ''ABC123 '' fresh_state
   \<and> searchSerial demo (CHR 0xA0 # ''abc123'') fresh_state = searchSerial demo '' abc123 '' fresh_state
   \<and> fst (the (searchSerial demo '' abc123 '' fresh_state)) =
       Inr (JObj [(''found'', JBool True), (''serial'', JStr ''ABC123''),
                  (''salesOrderId'', JStr ''SO-1''), (''orderNumber'', JStr ''1001''),
                  (''orderDate'', JStr ''2024-03-01''), (''productId'', JStr ''P1''),
                  (''shopifyOrderUrl'', JNull)])"
proof -
  let ?st' = "fresh_state\<lparr>connected := True,
              calls := calls fresh_state @
                [(''list_sales_orders'',
                  [(''status'', JStr ''Fulfilled''),
                   (''include'', JArr [JStr ''lines'', JStr ''pickLines'', JStr ''packLines'']),
                   (''count'', JNum 100), (''skip'', JNum 0)])],
              clock := clock fresh_state + 1\<rparr>"
  have b: "buildSerialIndex demo None None fresh_state = Some (Inr (JObj demo_index), ?st')"
    by (rule buildSerialIndex_demo)
  have n: "normalize_serial demo ''abc123'' = normalize_serial demo ''ABC123 ''"
    by code_simp
  have h: "(\<forall>t. toUpperCase demo (toUpperCase demo t) = toUpperCase demo t)
         \<and> (\<forall>t. trim demo (toUpperCase demo (trim demo t)) = toUpperCase demo (trim demo t))"
    by (simp add: demo_def demo_toUpperCase_idem demo_trim_fixed)
  note inst = serial_lookup_normalised [of demo None None fresh_state "''abc123''" "''ABC123 ''"]
  from inst [THEN conjunct1, rule_format, OF b] obtain serialIndex where
    si: "JObj demo_index = JObj serialIndex" and
    fx: "(\<forall>t. toUpperCase demo (toUpperCase demo t) = toUpperCase demo t)
           \<and> (\<forall>t. trim demo (toUpperCase demo (trim demo t)) = toUpperCase demo (trim demo t))
          \<longrightarrow> (\<forall>k \<in> fst ` set serialIndex. normalize_serial demo k = k)"
    by (elim exE conjE)
  from fx h have "\<forall>k \<in> fst ` set serialIndex. normalize_serial demo k = k" by (rule mp)
  with si have "\<forall>k \<in> fst ` set demo_index. normalize_serial demo k = k" by simp
  then have k: "map fst demo_index = [''ABC123'', ''XYZ9'', ''Q7'']
      \<and> normalize_serial demo ''ABC123'' = ''ABC123''
      \<and> normalize_serial demo ''XYZ9'' = ''XYZ9''
      \<and> normalize_serial demo ''Q7'' = ''Q7''"
    by (simp add: demo_index_def)
  from inst [THEN conjunct2, rule_format, OF n]
  have e: "searchSerial demo ''abc123'' fresh_state = searchSerial demo ''ABC123 '' fresh_state" .
  have n': "normalize_serial demo (CHR 0xA0 # ''abc123'') = normalize_serial demo '' abc123 ''"
    by (simp only: normalize_serial_demo)
  from serial_lookup_normalised [of demo None None fresh_state "CHR 0xA0 # ''abc123''" "'' abc123 ''",
         THEN conjunct2, rule_format, OF n']
  have e': "searchSerial demo (CHR 0xA0 # ''abc123'') fresh_state =
            searchSerial demo '' abc123 '' fresh_state" .
  have g: "getOrFetch ''serial_index'' (buildSerialIndex demo None None) HOUR False fresh_state =
             Some (Inr (JObj demo_index),
                   \<lparr>connected = True, cacheDisabled = False,
                    cache = \<lparr>entries = [(''serial_index'',
                                \<lparr>cvalue = JObj demo_index, expiresAt = 3601\<rparr>)],
                             hits = 0, misses = 1, enabled = True\<rparr>,
                    clock = 1,
                    calls = [(''list_sales_orders'',
                      [(''status'', JStr ''Fulfilled''),
                       (''include'', JArr [JStr ''lines'', JStr ''pickLines'', JStr ''packLines'']),
                       (''count'', JNum 100), (''skip'', JNum 0)])]\<rparr>)"
    by (simp add: getOrFetch_def fetch_and_store_def count_miss_def buildSerialIndex_demo
          fresh_state_def store_def remove_key_def HOUR_def)
  have d: "\<not> cacheDisabled fresh_state" by (simp add: fresh_state_def)
  have m: "map_of demo_index ''ABC123'' = Some (make_entry demo_order1 demo_line1 ''ABC123'')"
    by (simp add: demo_index_def)
  have s: "spread [(''found'', JBool True)] (make_entry demo_order1 demo_line1 ''ABC123'') =
             [(''found'', JBool True), (''serial'', JStr ''ABC123''),
              (''salesOrderId'', JStr ''SO-1''), (''orderNumber'', JStr ''1001''),
              (''orderDate'', JStr ''2024-03-01''), (''productId'', JStr ''P1''),
              (''shopifyOrderUrl'', JNull)]"
    by (simp add: make_entry_def demo_order1_def demo_line1_def)
  have f: "fst (the (searchSerial demo '' abc123 '' fresh_state)) =
       Inr (JObj [(''found'', JBool True), (''serial'', JStr ''ABC123''),
                  (''salesOrderId'', JStr ''SO-1''), (''orderNumber'', JStr ''1001''),
                  (''orderDate'', JStr ''2024-03-01''), (''productId'', JStr ''P1''),
                  (''shopifyOrderUrl'', JNull)])"
    by (simp add: searchSerial_def d g normalize_serial_demo m s truthy_make_entry)
  from b k n e e' f show ?thesis by simp
qed


section \<open>The cap on the number of orders\<close>

text \<open>
  What the loop guarantees about the cap: started below a cap \<open>m > 0\<close>, it returns
  fewer than \<open>m\<close> orders plus one page.
\<close>

lemma fetchOrders_cap_bound:
  assumes "fetchOrders D status maxOrders skip allOrders st = Some y"
  shows "\<forall>m result st'. maxOrders = Some m \<and> 0 < m \<and> length allOrders < m \<and> y = (Inr result, st')
           \<longrightarrow> length result < m + 100"
proof (rule fetchOrders.raw_induct [where P = "\<lambda>D status maxOrders skip allOrders st y.
           \<forall>m result st'. maxOrders = Some m \<and> 0 < m \<and> length allOrders < m \<and> y = (Inr result, st')
           \<longrightarrow> length result < m + 100", OF _ assms])
  fix f :: "deps \<Rightarrow> string \<Rightarrow> nat option \<Rightarrow> nat \<Rightarrow> jv list \<Rightarrow> state \<Rightarrow> ((error + jv list) \<times> state) option"
  fix D status maxOrders skip allOrders st y
  assume ih: "\<And>D status maxOrders skip allOrders st y.
            f D status maxOrders skip allOrders st = Some y \<Longrightarrow>
            \<forall>m result st'. maxOrders = Some m \<and> 0 < m \<and> length allOrders < m \<and> y = (Inr result, st')
               \<longrightarrow> length result < m + 100"
  assume body: "(case callTool D ''list_sales_orders''
             [(''status'', JStr status),
              (''include'', JArr [JStr ''lines'', JStr ''pickLines'', JStr ''packLines'']),
              (''count'', JNum 100),
              (''skip'', JNum (int skip))] st of
        (Inl e, st1) \<Rightarrow> Some (Inl e, st1)
      | (Inr result, st1) \<Rightarrow>
          (case orderList_of result of
             Inl e \<Rightarrow> Some (Inl e, st1)
           | Inr orderList \<Rightarrow>
               (if length orderList < 100 then Some (Inr (allOrders @ orderList), st1)
                else (case maxOrders of
                        None \<Rightarrow> f D status maxOrders (skip + 100) (allOrders @ orderList) st1
                      | Some m \<Rightarrow>
                          (if m \<noteq> 0 \<and> m \<le> length (allOrders @ orderList)
                           then Some (Inr (take m (allOrders @ orderList)), st1)
                           else f D status maxOrders (skip + 100)
                                  (allOrders @ orderList) st1))))) = Some y"
  show "\<forall>m result st'. maxOrders = Some m \<and> 0 < m \<and> length allOrders < m \<and> y = (Inr result, st')
           \<longrightarrow> length result < m + 100"
  proof (intro allI impI)
    fix m result st'
    assume a: "maxOrders = Some m \<and> 0 < m \<and> length allOrders < m \<and> y = (Inr result, st')"
    obtain r st1 where c: "callTool D ''list_sales_orders''
            [(''status'', JStr status),
             (''include'', JArr [JStr ''lines'', JStr ''pickLines'', JStr ''packLines'']),
             (''count'', JNum 100), (''skip'', JNum (int skip))] st = (r, st1)"
      by (meson surj_pair)
    show "length result < m + 100"
    proof (cases r)
      case (Inl e)
      with body c a show ?thesis by simp
    next
      case (Inr res)
      show ?thesis
      proof (cases "orderList_of res")
        case (Inl e)
        with body c a Inr show ?thesis by simp
      next
        case ol: (Inr orderList)
        show ?thesis
        proof (cases "length orderList < 100")
          case True
          with body c a Inr ol show ?thesis by auto
        next
          case False
          show ?thesis
          proof (cases "m \<le> length (allOrders @ orderList)")
            case True
            with body c a Inr ol False show ?thesis by auto
          next
            case nm: False
            with body c a Inr ol False
            have "f D status maxOrders (skip + 100) (allOrders @ orderList) st1 = Some y"
              by simp
            from ih [OF this] a nm show ?thesis by simp
          qed
        qed
      qed
    qed
  qed
qed

text \<open>
  C2 at a concrete input. The remote holds two fulfilled orders and returns them as one
  page; the caller asks for at most one order. The page is shorter than the page size, so
  the loop is left at the first test, before the test of the cap: both orders are kept,
  and the index holds the serial number \<^verbatim>\<open>Q7\<close> that only the second order has.
\<close>

theorem buildSerialIndex_short_page_exceeds_limit:
  "fetchOrders demo ''Fulfilled'' (Some 1) 0 [] fresh_state =
     Some (Inr [demo_order1, demo_order2],
           fresh_state\<lparr>connected := True,
              calls := calls fresh_state @
                [(''list_sales_orders'',
                  [(''status'', JStr ''Fulfilled''),
                   (''include'', JArr [JStr ''lines'', JStr ''pickLines'', JStr ''packLines'']),
                   (''count'', JNum 100), (''skip'', JNum 0)])],
              clock := clock fresh_state + 1\<rparr>)
   \<and> fst (the (buildSerialIndex demo None (Some 1) fresh_state)) = Inr (JObj demo_index)
   \<and> getp ''Q7'' (JObj demo_index) = Some (make_entry demo_order2 demo_line3 ''Q7'')
   \<and> getp ''salesOrderId'' (make_entry demo_order2 demo_line3 ''Q7'') = Some (JStr ''SO-2'')"
  by (simp add: fetchOrders_demo buildSerialIndex_demo demo_index_def make_entry_def demo_order2_def)

section \<open>Serial numbers of one order are kept as they are written\<close>

lemma add_mentions_append:
  "add_mentions (add_mentions r xs) ys = add_mentions r (xs @ ys)"
  by (cases r; cases xs) simp_all

lemma map_of_push_source:
  "map_of (push_source k source m) s =
     (if s = k then map_option (\<lambda>r. r\<lparr>sr_sources := sr_sources r @ [source]\<rparr>) (map_of m s)
      else map_of m s)"
  by (induction m) (auto simp: push_source_def)

lemma keys_push_source: "map fst (push_source k source m) = map fst m"
  by (simp add: push_source_def comp_def)

text \<open>
  The invariant of the loops of \<^verbatim>\<open>extractSerials\<close>, at a key \<open>s\<close> that is a primitive
  value: the map reads as the map before the loop with the mentions of \<open>s\<close> added.
\<close>

lemma extractSerials_serials_lookup:
  assumes "\<not> is_object s"
  shows "map_of (extractSerials_serials source line sns m) s =
           add_mentions (map_of m s) [x \<leftarrow> serial_mentions source line sns. m_serial x = s]"
proof (induction sns arbitrary: m)
  case Nil
  show ?case by (cases "map_of m s") simp_all
next
  case (Cons serial rest)
  show ?case
  proof (cases "truthy serial")
    case False
    then show ?thesis using Cons.IH by simp
  next
    case True
    let ?new = "\<lparr>sr_serial = serial, sr_productId = getp ''productId'' line, sr_sources = [source]\<rparr>"
    let ?x = "\<lparr>m_serial = serial, m_productId = getp ''productId'' line, m_source = source\<rparr>"
    let ?rest = "[x \<leftarrow> serial_mentions source line rest. m_serial x = s]"
    show ?thesis
    proof (cases "map_get m serial")
      case None
      have step: "map_of (m @ [(serial, ?new)]) s = add_mentions (map_of m s) [x \<leftarrow> [?x]. m_serial x = s]"
      proof (cases "serial = s")
        case True
        with None assms have "map_of m s = None" by (simp add: map_get_def)
        with True show ?thesis by (simp add: map_add_def)
      next
        case False
        then show ?thesis by (cases "map_of m s") (auto simp: map_add_def)
      qed
      have "map_of (extractSerials_serials source line (serial # rest) m) s =
              map_of (extractSerials_serials source line rest (m @ [(serial, ?new)])) s"
        using True None by simp
      also have "\<dots> = add_mentions (map_of (m @ [(serial, ?new)]) s) ?rest"
        by (rule Cons.IH)
      also have "\<dots> = add_mentions (map_of m s) ([x \<leftarrow> [?x]. m_serial x = s] @ ?rest)"
        by (simp only: step add_mentions_append)
      also have "\<dots> = add_mentions (map_of m s)
                         [x \<leftarrow> serial_mentions source line (serial # rest). m_serial x = s]"
        using True by simp
      finally show ?thesis .
    next
      case (Some existing)
      then have prim: "\<not> is_object serial" and ex: "map_of m serial = Some existing"
        by (auto simp: map_get_def split: if_splits)
      have step: "map_of (push_source serial source m) s =
                    add_mentions (map_of m s) [x \<leftarrow> [?x]. m_serial x = s]"
      proof (cases "serial = s")
        case True
        with ex show ?thesis by (simp add: map_of_push_source)
      next
        case False
        then show ?thesis by (cases "map_of m s") (auto simp: map_of_push_source)
      qed
      have "map_of (extractSerials_serials source line (serial # rest) m) s =
              map_of (extractSerials_serials source line rest (push_source serial source m)) s"
        using True Some by simp
      also have "\<dots> = add_mentions (map_of (push_source serial source m) s) ?rest"
        by (rule Cons.IH)
      also have "\<dots> = add_mentions (map_of m s) ([x \<leftarrow> [?x]. m_serial x = s] @ ?rest)"
        by (simp only: step add_mentions_append)
      also have "\<dots> = add_mentions (map_of m s)
                         [x \<leftarrow> serial_mentions source line (serial # rest). m_serial x = s]"
        using True by simp
      finally show ?thesis .
    qed
  qed
qed

lemma extractSerials_serials_distinct:
  assumes "distinct [k \<leftarrow> map fst m. \<not> is_object k]"
  shows "distinct [k \<leftarrow> map fst (extractSerials_serials source line sns m). \<not> is_object k]"
  using assms
proof (induction sns arbitrary: m)
  case Nil
  then show ?case by simp
next
  case (Cons serial rest)
  show ?case
  proof (cases "truthy serial")
    case False
    then show ?thesis using Cons by simp
  next
    case True
    show ?thesis
    proof (cases "map_get m serial")
      case None
      let ?new = "\<lparr>sr_serial = serial, sr_productId = getp ''productId'' line, sr_sources = [source]\<rparr>"
      have "distinct [k \<leftarrow> map fst (m @ [(serial, ?new)]). \<not> is_object k]"
      proof (cases "is_object serial")
        case True
        then show ?thesis using Cons.prems by simp
      next
        case False
        with None have "map_of m serial = None" by (simp add: map_get_def)
        then have "serial \<notin> fst ` set m" by (simp add: map_of_eq_None_iff)
        with False Cons.prems show ?thesis by auto
      qed
      from Cons.IH [OF this] True None show ?thesis by simp
    next
      case (Some existing)
      have "distinct [k \<leftarrow> map fst (push_source serial source m). \<not> is_object k]"
        using Cons.prems by (simp only: keys_push_source)
      from Cons.IH [OF this] True Some show ?thesis by simp
    qed
  qed
qed

lemma extractSerials_lines_lookup:
  assumes "extractSerials_lines source ls m = Inr m'" and "\<not> is_object s"
  shows "map_of m' s = add_mentions (map_of m s) [x \<leftarrow> line_mentions source ls. m_serial x = s]"
  using assms(1)
proof (induction ls arbitrary: m)
  case Nil
  then show ?case by (cases "map_of m s") auto
next
  case (Cons line rest)
  from Cons.prems have nn: "line \<noteq> JNull" by (auto split: if_splits)
  show ?case
  proof (cases "\<exists>sns. opt_member ''serialNumbers'' (getp ''quantity'' line) = Some (JArr sns)")
    case True
    then obtain sns where sns: "opt_member ''serialNumbers'' (getp ''quantity'' line) = Some (JArr sns)"
      by blast
    let ?m1 = "extractSerials_serials source line sns m"
    from Cons.prems nn sns have run: "extractSerials_lines source rest ?m1 = Inr m'" by simp
    have "map_of m' s = add_mentions (map_of ?m1 s) [x \<leftarrow> line_mentions source rest. m_serial x = s]"
      by (rule Cons.IH [OF run])
    also have "\<dots> = add_mentions (map_of m s)
          ([x \<leftarrow> serial_mentions source line sns. m_serial x = s] @
           [x \<leftarrow> line_mentions source rest. m_serial x = s])"
      by (simp only: extractSerials_serials_lookup [OF assms(2)] add_mentions_append)
    also have "\<dots> = add_mentions (map_of m s) [x \<leftarrow> line_mentions source (line # rest). m_serial x = s]"
      using sns by simp
    finally show ?thesis .
  next
    case False
    have skip: "(case opt_member ''serialNumbers'' (getp ''quantity'' line) of
                  Some (JArr serialNumbers) \<Rightarrow> f serialNumbers | _ \<Rightarrow> g) = g" for f and g :: 'a
      using False by (auto split: option.splits jv.splits)
    from Cons.prems nn have run: "extractSerials_lines source rest m = Inr m'"
      by (simp add: skip)
    have "line_mentions source (line # rest) = line_mentions source rest"
      by (simp add: skip)
    with Cons.IH [OF run] show ?thesis by simp
  qed
qed

lemma extractSerials_lines_distinct:
  assumes "extractSerials_lines source ls m = Inr m'"
      and "distinct [k \<leftarrow> map fst m. \<not> is_object k]"
  shows "distinct [k \<leftarrow> map fst m'. \<not> is_object k]"
  using assms
proof (induction ls arbitrary: m)
  case Nil
  then show ?case by simp
next
  case (Cons line rest)
  from Cons.prems have nn: "line \<noteq> JNull" by (auto split: if_splits)
  show ?case
  proof (cases "\<exists>sns. opt_member ''serialNumbers'' (getp ''quantity'' line) = Some (JArr sns)")
    case True
    then obtain sns where sns: "opt_member ''serialNumbers'' (getp ''quantity'' line) = Some (JArr sns)"
      by blast
    let ?m1 = "extractSerials_serials source line sns m"
    from Cons.prems nn sns have run: "extractSerials_lines source rest ?m1 = Inr m'" by simp
    from Cons.IH [OF run extractSerials_serials_distinct [OF Cons.prems(2)]] show ?thesis .
  next
    case False
    have skip: "(case opt_member ''serialNumbers'' (getp ''quantity'' line) of
                  Some (JArr serialNumbers) \<Rightarrow> f serialNumbers | _ \<Rightarrow> g) = g" for f and g :: 'a
      using False by (auto split: option.splits jv.splits)
    from Cons.prems nn have run: "extractSerials_lines source rest m = Inr m'"
      by (simp add: skip)
    from Cons.IH [OF run Cons.prems(2)] show ?thesis .
  qed
qed

lemma extractSerials_lookup:
  assumes "extractSerials lines source m = Inr m'" and "\<not> is_object s"
  shows "map_of m' s = add_mentions (map_of m s) [x \<leftarrow> source_mentions lines source. m_serial x = s]"
proof -
  from assms(1) obtain ls where ls: "iter_lines lines = Inr ls"
    and run: "extractSerials_lines source ls m = Inr m'"
    by (auto simp: extractSerials_def split: sum.splits)
  from extractSerials_lines_lookup [OF run assms(2)] ls show ?thesis
    by (simp add: source_mentions_def)
qed

lemma extractSerials_distinct:
  assumes "extractSerials lines source m = Inr m'"
      and "distinct [k \<leftarrow> map fst m. \<not> is_object k]"
  shows "distinct [k \<leftarrow> map fst m'. \<not> is_object k]"
proof -
  from assms(1) obtain ls where run: "extractSerials_lines source ls m = Inr m'"
    by (auto simp: extractSerials_def split: sum.splits)
  from extractSerials_lines_distinct [OF run assms(2)] show ?thesis .
qed

lemma serialMap_of_steps:
  assumes "serialMap_of order = Inr m"
  shows "\<exists>m1 m2. extractSerials (getp ''packLines'' order) ''pack'' [] = Inr m1
           \<and> extractSerials (getp ''pickLines'' order) ''pick'' m1 = Inr m2
           \<and> extractSerials (getp ''lines'' order) ''order'' m2 = Inr m"
proof (cases "extractSerials (getp ''packLines'' order) ''pack'' []")
  case (Inl e)
  with assms show ?thesis by (simp add: serialMap_of_def split: if_splits)
next
  case m1: (Inr m1)
  show ?thesis
  proof (cases "extractSerials (getp ''pickLines'' order) ''pick'' m1")
    case (Inl e)
    with assms m1 show ?thesis by (simp add: serialMap_of_def split: if_splits)
  next
    case m2: (Inr m2)
    with assms m1 show ?thesis by (simp add: serialMap_of_def split: if_splits)
  qed
qed

lemma serialMap_of_lookup:
  assumes "serialMap_of order = Inr m" and "\<not> is_object s"
  shows "map_of m s = record_of [x \<leftarrow> mentions order. m_serial x = s]"
proof -
  from serialMap_of_steps [OF assms(1)] obtain m1 m2 where
    s1: "extractSerials (getp ''packLines'' order) ''pack'' [] = Inr m1" and
    s2: "extractSerials (getp ''pickLines'' order) ''pick'' m1 = Inr m2" and
    s3: "extractSerials (getp ''lines'' order) ''order'' m2 = Inr m"
    by blast
  let ?a = "[x \<leftarrow> source_mentions (getp ''packLines'' order) ''pack''. m_serial x = s]"
  let ?b = "[x \<leftarrow> source_mentions (getp ''pickLines'' order) ''pick''. m_serial x = s]"
  let ?c = "[x \<leftarrow> source_mentions (getp ''lines'' order) ''order''. m_serial x = s]"
  have "map_of m s = add_mentions (map_of m2 s) ?c"
    by (rule extractSerials_lookup [OF s3 assms(2)])
  also have "\<dots> = add_mentions (add_mentions (map_of m1 s) ?b) ?c"
    by (simp only: extractSerials_lookup [OF s2 assms(2)])
  also have "\<dots> = add_mentions (add_mentions (add_mentions (map_of [] s) ?a) ?b) ?c"
    by (simp only: extractSerials_lookup [OF s1 assms(2)])
  also have "\<dots> = add_mentions None (?a @ ?b @ ?c)"
    by (simp only: add_mentions_append map_of.simps append_assoc)
  also have "\<dots> = record_of [x \<leftarrow> mentions order. m_serial x = s]"
    by (simp add: mentions_def)
  finally show ?thesis .
qed

lemma serialMap_of_distinct:
  assumes "serialMap_of order = Inr m"
  shows "distinct [k \<leftarrow> map fst m. \<not> is_object k]"
proof -
  from serialMap_of_steps [OF assms] obtain m1 m2 where
    s1: "extractSerials (getp ''packLines'' order) ''pack'' [] = Inr m1" and
    s2: "extractSerials (getp ''pickLines'' order) ''pick'' m1 = Inr m2" and
    s3: "extractSerials (getp ''lines'' order) ''order'' m2 = Inr m"
    by blast
  have d0: "distinct [k \<leftarrow> map fst ([] :: (jv \<times> serial_rec) list). \<not> is_object k]" by simp
  from extractSerials_distinct [OF s3 extractSerials_distinct [OF s2 extractSerials_distinct [OF s1 d0]]]
  show ?thesis .
qed

text \<open>Every record of the map carries its key as its serial.\<close>

lemma push_source_serial:
  assumes "\<forall>p \<in> set m. sr_serial (snd p) = fst p"
  shows "\<forall>p \<in> set (push_source k source m). sr_serial (snd p) = fst p"
  using assms by (auto simp: push_source_def)

lemma extractSerials_serials_serial:
  assumes "\<forall>p \<in> set m. sr_serial (snd p) = fst p"
  shows "\<forall>p \<in> set (extractSerials_serials source line sns m). sr_serial (snd p) = fst p"
  using assms
proof (induction sns arbitrary: m)
  case Nil
  then show ?case by simp
next
  case (Cons serial rest)
  show ?case
  proof (cases "truthy serial")
    case False
    then show ?thesis using Cons by simp
  next
    case True
    show ?thesis
    proof (cases "map_get m serial")
      case None
      let ?new = "\<lparr>sr_serial = serial, sr_productId = getp ''productId'' line, sr_sources = [source]\<rparr>"
      have "\<forall>p \<in> set (m @ [(serial, ?new)]). sr_serial (snd p) = fst p"
        using Cons.prems by auto
      from Cons.IH [OF this] True None show ?thesis by simp
    next
      case (Some existing)
      from Cons.IH [OF push_source_serial [OF Cons.prems]] True Some show ?thesis by simp
    qed
  qed
qed

lemma extractSerials_lines_serial:
  assumes "extractSerials_lines source ls m = Inr m'"
      and "\<forall>p \<in> set m. sr_serial (snd p) = fst p"
  shows "\<forall>p \<in> set m'. sr_serial (snd p) = fst p"
  using assms
proof (induction ls arbitrary: m)
  case Nil
  then show ?case by simp
next
  case (Cons line rest)
  from Cons.prems have nn: "line \<noteq> JNull" by (auto split: if_splits)
  show ?case
  proof (cases "\<exists>sns. opt_member ''serialNumbers'' (getp ''quantity'' line) = Some (JArr sns)")
    case True
    then obtain sns where sns: "opt_member ''serialNumbers'' (getp ''quantity'' line) = Some (JArr sns)"
      by blast
    let ?m1 = "extractSerials_serials source line sns m"
    from Cons.prems nn sns have run: "extractSerials_lines source rest ?m1 = Inr m'" by simp
    from Cons.IH [OF run extractSerials_serials_serial [OF Cons.prems(2)]] show ?thesis .
  next
    case False
    have skip: "(case opt_member ''serialNumbers'' (getp ''quantity'' line) of
                  Some (JArr serialNumbers) \<Rightarrow> f serialNumbers | _ \<Rightarrow> g) = g" for f and g :: 'a
      using False by (auto split: option.splits jv.splits)
    from Cons.prems nn have run: "extractSerials_lines source rest m = Inr m'"
      by (simp add: skip)
    from Cons.IH [OF run Cons.prems(2)] show ?thesis .
  qed
qed

lemma extractSerials_serial:
  assumes "extractSerials lines source m = Inr m'"
      and "\<forall>p \<in> set m. sr_serial (snd p) = fst p"
  shows "\<forall>p \<in> set m'. sr_serial (snd p) = fst p"
proof -
  from assms(1) obtain ls where run: "extractSerials_lines source ls m = Inr m'"
    by (auto simp: extractSerials_def split: sum.splits)
  from extractSerials_lines_serial [OF run assms(2)] show ?thesis .
qed

lemma serialMap_of_serial:
  assumes "serialMap_of order = Inr m"
  shows "\<forall>p \<in> set m. sr_serial (snd p) = fst p"
proof -
  from serialMap_of_steps [OF assms] obtain m1 m2 where
    s1: "extractSerials (getp ''packLines'' order) ''pack'' [] = Inr m1" and
    s2: "extractSerials (getp ''pickLines'' order) ''pick'' m1 = Inr m2" and
    s3: "extractSerials (getp ''lines'' order) ''order'' m2 = Inr m"
    by blast
  have d0: "\<forall>p \<in> set ([] :: (jv \<times> serial_rec) list). sr_serial (snd p) = fst p" by simp
  from extractSerials_serial [OF s3 extractSerials_serial [OF s2 extractSerials_serial [OF s1 d0]]]
  show ?thesis .
qed

text \<open>
  The objects of the returned array with a given serial, for a primitive value: none, or
  the one record that the map holds at that key.
\<close>

lemma filter_key:
  assumes "distinct [k \<leftarrow> map fst m. \<not> is_object k]" and "\<not> is_object k"
  shows "[p \<leftarrow> m. fst p = k] = (case map_of m k of None \<Rightarrow> [] | Some r \<Rightarrow> [(k, r)])"
  using assms(1)
proof (induction m)
  case Nil
  show ?case by simp
next
  case (Cons p m)
  show ?case
  proof (cases "fst p = k")
    case True
    with Cons.prems assms(2) have "k \<notin> fst ` set m" by auto
    then have "[q \<leftarrow> m. fst q = k] = []" by (auto simp: filter_empty_conv)
    with True show ?thesis by (cases p) simp
  next
    case False
    from Cons.prems have "distinct [k \<leftarrow> map fst m. \<not> is_object k]" by (simp split: if_splits)
    from Cons.IH [OF this] False show ?thesis by (cases p) auto
  qed
qed

lemma rec_json_serial: "getp ''serial'' (rec_json r) = Some (sr_serial r)"
  by (simp add: rec_json_def)

lemma returned_with_serial:
  assumes "\<forall>p \<in> set m. sr_serial (snd p) = fst p"
      and "distinct [k \<leftarrow> map fst m. \<not> is_object k]" and "\<not> is_object k"
  shows "[r \<leftarrow> map (\<lambda>p. rec_json (snd p)) m. getp ''serial'' r = Some k] =
           (case map_of m k of None \<Rightarrow> [] | Some r \<Rightarrow> [rec_json r])"
proof -
  have "[r \<leftarrow> map (\<lambda>p. rec_json (snd p)) m. getp ''serial'' r = Some k] =
          map (\<lambda>p. rec_json (snd p)) [p \<leftarrow> m. sr_serial (snd p) = k]"
    by (simp add: filter_map comp_def rec_json_serial)
  also have "[p \<leftarrow> m. sr_serial (snd p) = k] = [p \<leftarrow> m. fst p = k]"
    using assms(1) by (intro filter_cong refl) simp
  also have "\<dots> = (case map_of m k of None \<Rightarrow> [] | Some r \<Rightarrow> [(k, r)])"
    by (rule filter_key [OF assms(2,3)])
  finally show ?thesis by (cases "map_of m k") simp_all
qed

lemma returned_records_record_of:
  "(case record_of ms of None \<Rightarrow> [] | Some r \<Rightarrow> [rec_json r]) = returned_records ms"
  by (cases ms) (simp_all add: rec_json_def comp_def)

lemma returned_records_mentioned:
  assumes "k \<in> m_serial ` set ms"
  shows "\<exists>r. returned_records [x \<leftarrow> ms. m_serial x = k] = [r] \<and> getp ''serial'' r = Some k"
proof (cases "[x \<leftarrow> ms. m_serial x = k]")
  case Nil
  with assms show ?thesis by (auto simp: filter_empty_conv)
next
  case (Cons x xs)
  then have "x \<in> set [x \<leftarrow> ms. m_serial x = k]" by simp
  then have "m_serial x = k" by simp
  with Cons show ?thesis by simp
qed

text \<open>
  C10. When \<^verbatim>\<open>getSalesOrderSerials\<close> returns, the result has a \<^verbatim>\<open>serials\<close> array and
  a \<^verbatim>\<open>serialCount\<close> that is its length. The serial values are kept as they are
  written: for a string (for any primitive value), the objects of the array with exactly
  that value as their \<^verbatim>\<open>serial\<close> are what the mentions of exactly that value in the
  fetched order amount to, the mentions being taken over pack lines, then pick lines, then
  order lines: no object when the value is not mentioned, else one object, with the
  product of the first mention and the sources of all mentions, the source of the first
  mention first. So two different strings that are mentioned have two different objects in
  the array, each with its own string, whatever their trimmed upper-cased forms.
\<close>

theorem getSalesOrderSerials_raw_serials:
  assumes "getSalesOrderSerials D orderId st = Some (Inr res, st1)"
  shows "\<exists>order serials.
           getSalesOrder D orderId (Some [''lines'', ''pickLines'', ''packLines'']) st = Some (Inr order, st1)
         \<and> getp ''serials'' res = Some (JArr serials)
         \<and> getp ''serialCount'' res = Some (JNum (int (length serials)))
         \<and> (\<forall>k. \<not> is_object k \<longrightarrow>
               [r \<leftarrow> serials. getp ''serial'' r = Some k] =
                 returned_records [x \<leftarrow> mentions order. m_serial x = k])
         \<and> (\<forall>s t. s \<noteq> t \<and> JStr s \<in> m_serial ` set (mentions order)
                     \<and> JStr t \<in> m_serial ` set (mentions order) \<longrightarrow>
               (\<exists>r r'. r \<in> set serials \<and> r' \<in> set serials
                      \<and> getp ''serial'' r = Some (JStr s) \<and> getp ''serial'' r' = Some (JStr t)
                      \<and> r \<noteq> r'))"
proof -
  from assms obtain order serialMap where
    g: "getSalesOrder D orderId (Some [''lines'', ''pickLines'', ''packLines'']) st = Some (Inr order, st1)" and
    sm: "serialMap_of order = Inr serialMap" and
    res: "res = JObj (literal
                      [(''salesOrderId'', getp ''salesOrderId'' order),
                       (''orderNumber'', getp ''orderNumber'' order),
                       (''orderDate'', getp ''orderDate'' order),
                       (''status'', getp ''inventoryStatus'' order),
                       (''serialCount'', Some (JNum (int (length serialMap)))),
                       (''serials'', Some (JArr (map (\<lambda>p. rec_json (snd p)) serialMap)))])"
    by (auto simp: getSalesOrderSerials_def split: option.splits sum.splits)
  let ?serials = "map (\<lambda>p. rec_json (snd p)) serialMap"
  have a: "getp ''serials'' res = Some (JArr ?serials)"
    unfolding res by (simp add: map_of_literal_Cons del: literal.simps)
  have n: "getp ''serialCount'' res = Some (JNum (int (length ?serials)))"
    unfolding res by (simp add: map_of_literal_Cons del: literal.simps)
  have b: "[r \<leftarrow> ?serials. getp ''serial'' r = Some k] =
             returned_records [x \<leftarrow> mentions order. m_serial x = k]"
    if "\<not> is_object k" for k
  proof -
    have "[r \<leftarrow> ?serials. getp ''serial'' r = Some k] =
            (case map_of serialMap k of None \<Rightarrow> [] | Some r \<Rightarrow> [rec_json r])"
      by (rule returned_with_serial [OF serialMap_of_serial [OF sm] serialMap_of_distinct [OF sm] that])
    also have "\<dots> = (case record_of [x \<leftarrow> mentions order. m_serial x = k] of
                       None \<Rightarrow> [] | Some r \<Rightarrow> [rec_json r])"
      by (simp only: serialMap_of_lookup [OF sm that])
    also have "\<dots> = returned_records [x \<leftarrow> mentions order. m_serial x = k]"
      by (rule returned_records_record_of)
    finally show ?thesis .
  qed
  have d: "\<exists>r r'. r \<in> set ?serials \<and> r' \<in> set ?serials
                      \<and> getp ''serial'' r = Some (JStr s) \<and> getp ''serial'' r' = Some (JStr t)
                      \<and> r \<noteq> r'"
    if "s \<noteq> t \<and> JStr s \<in> m_serial ` set (mentions order)
              \<and> JStr t \<in> m_serial ` set (mentions order)" for s t
  proof -
    from that have ne: "s \<noteq> t" and ms: "JStr s \<in> m_serial ` set (mentions order)"
      and mt: "JStr t \<in> m_serial ` set (mentions order)"
      by simp_all
    from returned_records_mentioned [OF ms] obtain r where
      r: "returned_records [x \<leftarrow> mentions order. m_serial x = JStr s] = [r]"
         "getp ''serial'' r = Some (JStr s)"
      by blast
    from returned_records_mentioned [OF mt] obtain r' where
      r': "returned_records [x \<leftarrow> mentions order. m_serial x = JStr t] = [r']"
          "getp ''serial'' r' = Some (JStr t)"
      by blast
    have "[x \<leftarrow> ?serials. getp ''serial'' x = Some (JStr s)] = [r]"
      using b [of "JStr s"] r(1) by simp
    then have "r \<in> set [x \<leftarrow> ?serials. getp ''serial'' x = Some (JStr s)]" by simp
    then have in1: "r \<in> set ?serials" by (simp del: set_map)
    have "[x \<leftarrow> ?serials. getp ''serial'' x = Some (JStr t)] = [r']"
      using b [of "JStr t"] r'(1) by simp
    then have "r' \<in> set [x \<leftarrow> ?serials. getp ''serial'' x = Some (JStr t)]" by simp
    then have in2: "r' \<in> set ?serials" by (simp del: set_map)
    have "r \<noteq> r'" using r(2) r'(2) ne by auto
    with in1 in2 r(2) r'(2) show ?thesis by blast
  qed
  show ?thesis
  proof (intro exI conjI)
    show "getSalesOrder D orderId (Some [''lines'', ''pickLines'', ''packLines'']) st = Some (Inr order, st1)"
      by (rule g)
    show "getp ''serials'' res = Some (JArr ?serials)" by (rule a)
    show "getp ''serialCount'' res = Some (JNum (int (length ?serials)))" by (rule n)
    show "\<forall>k. \<not> is_object k \<longrightarrow>
               [r \<leftarrow> ?serials. getp ''serial'' r = Some k] =
                 returned_records [x \<leftarrow> mentions order. m_serial x = k]"
      by (intro allI impI) (rule b)
    show "\<forall>s t. s \<noteq> t \<and> JStr s \<in> m_serial ` set (mentions order)
                     \<and> JStr t \<in> m_serial ` set (mentions order) \<longrightarrow>
               (\<exists>r r'. r \<in> set ?serials \<and> r' \<in> set ?serials
                      \<and> getp ''serial'' r = Some (JStr s) \<and> getp ''serial'' r' = Some (JStr t)
                      \<and> r \<noteq> r')"
      by (intro allI impI) (rule d)
  qed
qed

lemma mentions_demo:
  "mentions demo_order1 =
     [\<lparr>m_serial = JStr '' abc123 '', m_productId = Some (JStr ''P1''), m_source = ''pack''\<rparr>,
      \<lparr>m_serial = JStr ''XYZ9'', m_productId = Some (JStr ''P1''), m_source = ''pack''\<rparr>,
      \<lparr>m_serial = JStr ''ABC123'', m_productId = Some (JStr ''P1b''), m_source = ''order''\<rparr>,
      \<lparr>m_serial = JStr '' abc123 '', m_productId = Some (JStr ''P1b''), m_source = ''order''\<rparr>]"
  by (simp add: mentions_def source_mentions_def demo_order1_def demo_line1_def demo_line2_def)

lemma serialMap_of_demo: "serialMap_of demo_order1 = Inr demo_serialMap"
  by (simp add: serialMap_of_def extractSerials_def demo_order1_def demo_line1_def demo_line2_def
        map_get_def push_source_def demo_serialMap_def)

lemma getSalesOrder_demo:
  "getSalesOrder demo ''SO-1'' (Some [''lines'', ''pickLines'', ''packLines'']) fresh_state =
     Some (Inr demo_order1,
           \<lparr>connected = True, cacheDisabled = False,
            cache = \<lparr>entries = [(''sales_order:SO-1lines,pickLines,packLines'',
                        \<lparr>cvalue = demo_order1, expiresAt = 301\<rparr>)],
                     hits = 0, misses = 1, enabled = True\<rparr>,
            clock = 1,
            calls = [(''get_sales_order'',
                      [(''salesOrderId'', JStr ''SO-1''),
                       (''include'', JArr [JStr ''lines'', JStr ''pickLines'', JStr ''packLines''])])]\<rparr>)"
proof -
  have k: "createCacheKey demo ''sales_order''
            [(''id'', Some (JStr ''SO-1'')), (''include'', Some (JStr ''lines,pickLines,packLines''))] =
           ''sales_order:SO-1lines,pickLines,packLines''"
    by (simp add: demo_def demo_key_def)
  show ?thesis
    by (simp add: getSalesOrder_def Let_def k getOrFetch_def fetch_and_store_def count_miss_def
          returns_def callTool_demo fresh_state_def store_def remove_key_def FIVE_MINUTES_def
          demo_text_def demo_parse_def)
qed

text \<open>
  The first order of the concrete runs lists \<^verbatim>\<open>" abc123 "\<close> on a pack line and on an
  order line and \<^verbatim>\<open>"ABC123"\<close> on the order line: the array has one object for each
  spelling, though both have the same trimmed upper-cased form.
\<close>

theorem getSalesOrderSerials_raw_serials_witness:
  "getSalesOrderSerials demo ''SO-1'' fresh_state =
     Some (Inr (JObj [(''salesOrderId'', JStr ''SO-1''), (''orderNumber'', JStr ''1001''),
                (''orderDate'', JStr ''2024-03-01''), (''serialCount'', JNum 3),
                (''serials'', JArr [JObj [(''serial'', JStr '' abc123 ''), (''productId'', JStr ''P1''),
                (''sources'', JArr [JStr ''pack'', JStr ''order''])],
                   JObj [(''serial'', JStr ''XYZ9''), (''productId'', JStr ''P1''),
                (''sources'', JArr [JStr ''pack''])],
                   JObj [(''serial'', JStr ''ABC123''), (''productId'', JStr ''P1b''),
                (''sources'', JArr [JStr ''order''])]])]),
           \<lparr>connected = True, cacheDisabled = False,
            cache = \<lparr>entries = [(''sales_order:SO-1lines,pickLines,packLines'',
                        \<lparr>cvalue = demo_order1, expiresAt = 301\<rparr>)],
                     hits = 0, misses = 1, enabled = True\<rparr>,
            clock = 1,
            calls = [(''get_sales_order'',
                      [(''salesOrderId'', JStr ''SO-1''),
                       (''include'', JArr [JStr ''lines'', JStr ''pickLines'', JStr ''packLines''])])]\<rparr>)
   \<and> [r \<leftarrow> [JObj [(''serial'', JStr '' abc123 ''), (''productId'', JStr ''P1''),
                (''sources'', JArr [JStr ''pack'', JStr ''order''])],
            JObj [(''serial'', JStr ''XYZ9''), (''productId'', JStr ''P1''),
                (''sources'', JArr [JStr ''pack''])],
            JObj [(''serial'', JStr ''ABC123''), (''productId'', JStr ''P1b''),
                (''sources'', JArr [JStr ''order''])]]. getp ''serial'' r = Some (JStr '' abc123 '')] =
       [JObj [(''serial'', JStr '' abc123 ''), (''productId'', JStr ''P1''),
                (''sources'', JArr [JStr ''pack'', JStr ''order''])]]
   \<and> [r \<leftarrow> [JObj [(''serial'', JStr '' abc123 ''), (''productId'', JStr ''P1''),
                (''sources'', JArr [JStr ''pack'', JStr ''order''])],
            JObj [(''serial'', JStr ''XYZ9''), (''productId'', JStr ''P1''),
                (''sources'', JArr [JStr ''pack''])],
            JObj [(''serial'', JStr ''ABC123''), (''productId'', JStr ''P1b''),
                (''sources'', JArr [JStr ''order''])]]. getp ''serial'' r = Some (JStr ''ABC123'')] =
       [JObj [(''serial'', JStr ''ABC123''), (''productId'', JStr ''P1b''),
                (''sources'', JArr [JStr ''order''])]]
   \<and> normalize_serial demo '' abc123 '' = normalize_serial demo ''ABC123''"
proof -
  let ?st1 = "\<lparr>connected = True, cacheDisabled = False,
            cache = \<lparr>entries = [(''sales_order:SO-1lines,pickLines,packLines'',
                        \<lparr>cvalue = demo_order1, expiresAt = 301\<rparr>)],
                     hits = 0, misses = 1, enabled = True\<rparr>,
            clock = 1,
            calls = [(''get_sales_order'',
                      [(''salesOrderId'', JStr ''SO-1''),
                       (''include'', JArr [JStr ''lines'', JStr ''pickLines'', JStr ''packLines''])])]\<rparr>"
  let ?recs = "[JObj [(''serial'', JStr '' abc123 ''), (''productId'', JStr ''P1''),
                (''sources'', JArr [JStr ''pack'', JStr ''order''])],
            JObj [(''serial'', JStr ''XYZ9''), (''productId'', JStr ''P1''),
                (''sources'', JArr [JStr ''pack''])],
            JObj [(''serial'', JStr ''ABC123''), (''productId'', JStr ''P1b''),
                (''sources'', JArr [JStr ''order''])]]"
  let ?res = "JObj [(''salesOrderId'', JStr ''SO-1''), (''orderNumber'', JStr ''1001''),
                (''orderDate'', JStr ''2024-03-01''), (''serialCount'', JNum 3),
                (''serials'', JArr ?recs)]"
  have f: "getp ''salesOrderId'' demo_order1 = Some (JStr ''SO-1'')"
          "getp ''orderNumber'' demo_order1 = Some (JStr ''1001'')"
          "getp ''orderDate'' demo_order1 = Some (JStr ''2024-03-01'')"
          "getp ''inventoryStatus'' demo_order1 = None"
    by (simp_all add: demo_order1_def)
  have h: "getSalesOrderSerials demo ''SO-1'' fresh_state = Some (Inr ?res, ?st1)"
    by (simp add: getSalesOrderSerials_def getSalesOrder_demo serialMap_of_demo f
          demo_serialMap_def rec_json_def)
  from getSalesOrderSerials_raw_serials [OF h] obtain order serials where
    g: "getSalesOrder demo ''SO-1'' (Some [''lines'', ''pickLines'', ''packLines'']) fresh_state =
          Some (Inr order, ?st1)" and
    a: "getp ''serials'' ?res = Some (JArr serials)" and
    lk: "\<forall>k. \<not> is_object k \<longrightarrow>
               [r \<leftarrow> serials. getp ''serial'' r = Some k] =
                 returned_records [x \<leftarrow> mentions order. m_serial x = k]"
    by (elim exE conjE)
  from g have o: "order = demo_order1" by (simp add: getSalesOrder_demo)
  from a have m: "serials = ?recs" by simp
  have r1: "[r \<leftarrow> ?recs. getp ''serial'' r = Some (JStr '' abc123 '')] =
       [JObj [(''serial'', JStr '' abc123 ''), (''productId'', JStr ''P1''),
                (''sources'', JArr [JStr ''pack'', JStr ''order''])]]"
    using lk [rule_format, of "JStr '' abc123 ''"] unfolding o m by (simp add: mentions_demo)
  have r3: "[r \<leftarrow> ?recs. getp ''serial'' r = Some (JStr ''ABC123'')] =
       [JObj [(''serial'', JStr ''ABC123''), (''productId'', JStr ''P1b''),
                (''sources'', JArr [JStr ''order''])]]"
    using lk [rule_format, of "JStr ''ABC123''"] unfolding o m by (simp add: mentions_demo)
  have n: "normalize_serial demo '' abc123 '' = normalize_serial demo ''ABC123''"
    by (simp add: normalize_serial_demo)
  show ?thesis by (intro conjI) (rule h, rule r1, rule r3, rule n)
qed

end
